theory Spec2Isabelle
  imports Complex_Main "HOL-Library.Monad_Syntax"
begin

section \<open>Device buffers, scalar intrinsics and the thread grid\<close>

text \<open>
  The kernels of \<^verbatim>\<open>layer_kernels.cu\<close> work on flat device arrays of single-precision
  numbers. The development is carried out in exact arithmetic: a \<^verbatim>\<open>float\<close> is a
  \<^typ>\<open>real\<close>, so rounding is outside the model, and so are infinities and NaN except in
  \<open>kLogregCostGrad_ext\<close> below, where a quotient by zero is kept apart. A device array is
  a list; every access checks its index, and an access outside the array is the value
  \<open>None\<close> of the thread that makes it. The \<^verbatim>\<open>int\<close> indices and counters of the kernels
  are unbounded integers: an index computation that leaves 32 bits is outside the model.
  Buffers passed to one kernel are distinct arrays.
\<close>

type_synonym buf = "real list"

definition rd :: "'a list \<Rightarrow> int \<Rightarrow> 'a option" where
  "rd b i = (if 0 \<le> i \<and> i < int (length b) then Some (b ! nat i) else None)"

definition wr :: "'a list \<Rightarrow> int \<Rightarrow> 'a \<Rightarrow> 'a list option" where
  "wr b i v = (if 0 \<le> i \<and> i < int (length b) then Some (b[nat i := v]) else None)"

text \<open>The C conversion \<^verbatim>\<open>int(x)\<close> of a float: truncation towards zero.\<close>

definition float2int :: "real \<Rightarrow> int" where
  "float2int x = (if 0 \<le> x then \<lfloor>x\<rfloor> else \<lceil>x\<rceil>)"

text \<open>A comparison used as a number, as in \<^verbatim>\<open>gradCoeff * (label == ty)\<close>.\<close>

definition b2f :: "bool \<Rightarrow> real" where
  "b2f p = (if p then 1 else 0)"

definition fmaxf :: "real \<Rightarrow> real \<Rightarrow> real" where
  "fmaxf a b = (if a < b then b else a)"

definition logf :: "real \<Rightarrow> real" where
  "logf x = ln x"

definition powf :: "real \<Rightarrow> real \<Rightarrow> real" where
  "powf x p = x powr p"

text \<open>
  The intrinsic \<^verbatim>\<open>__fdividef\<close> in exact arithmetic: the quotient of the reals. This
  is the device's quotient only for a divisor other than zero: the quotient of the reals
  is \<open>0\<close> at \<open>b = 0\<close>, where the device returns NaN for \<open>0 / 0\<close> and an infinity for
  \<open>x / 0\<close>.
\<close>

definition fdividef :: "real \<Rightarrow> real \<Rightarrow> real" where
  "fdividef a b = a / b"

text \<open>
  Where a statement depends on a divisor that is zero, a float that need not be a real
  number is a \<^typ>\<open>real option\<close>: \<open>None\<close> stands for an infinity or NaN. The quotient
  by zero is \<open>None\<close>, and so is a sum with an operand that is \<open>None\<close>.
\<close>

type_synonym fval = "real option"

definition fdividef_ext :: "real \<Rightarrow> real \<Rightarrow> fval" where
  "fdividef_ext a b = (if b = 0 then None else Some (a / b))"

definition fadd :: "fval \<Rightarrow> fval \<Rightarrow> fval" where
  "fadd a b = do { x \<leftarrow> a; y \<leftarrow> b; Some (x + y) }"

text \<open>
  One thread of a launch: its block and thread indices and the grid's dimensions.
  The block sizes \<^verbatim>\<open>LOGREG_ERR_THREADS_X\<close>, \<^verbatim>\<open>LOGREG_GRAD_THREADS_X\<close>,
  \<^verbatim>\<open>LOGREG_GRAD_THREADS_Y\<close> and the template parameters \<^verbatim>\<open>B_X\<close>, \<^verbatim>\<open>B_Y\<close> come from
  a header that is not part of the sources; the kernels take them as parameters.
\<close>

record cuda_thread =
  gridDim_x :: nat
  gridDim_y :: nat
  blockIdx_x :: nat
  blockIdx_y :: nat
  threadIdx_x :: nat
  threadIdx_y :: nat

definition mk_thread :: "nat \<times> nat \<Rightarrow> (nat \<times> nat) \<times> (nat \<times> nat) \<Rightarrow> cuda_thread" where
  "mk_thread g p =
     \<lparr>gridDim_x = fst g, gridDim_y = snd g,
      blockIdx_x = fst (fst p), blockIdx_y = snd (fst p),
      threadIdx_x = fst (snd p), threadIdx_y = snd (snd p)\<rparr>"

text \<open>All threads of a launch \<^verbatim>\<open><<<blocks, threads>>>\<close>, block by block.\<close>

definition grid_threads :: "nat \<times> nat \<Rightarrow> nat \<times> nat \<Rightarrow> cuda_thread list" where
  "grid_threads blocks threads =
     map (mk_thread blocks)
       (List.product (List.product [0..<fst blocks] [0..<snd blocks])
                     (List.product [0..<fst threads] [0..<snd threads]))"

text \<open>
  A launch runs the kernel body once per thread. The threads of these kernels write
  disjoint cells and only read buffers that no thread writes, so the order in which the
  model runs them is immaterial; a fault in any thread is a fault of the launch.
\<close>

fun run_threads :: "('t \<Rightarrow> 's \<Rightarrow> 's option) \<Rightarrow> 't list \<Rightarrow> 's \<Rightarrow> 's option" where
  "run_threads k [] s = Some s"
| "run_threads k (t # ts) s = (case k t s of None \<Rightarrow> None | Some s' \<Rightarrow> run_threads k ts s')"

definition launch ::
  "(cuda_thread \<Rightarrow> 's \<Rightarrow> 's option) \<Rightarrow> nat \<times> nat \<Rightarrow> nat \<times> nat \<Rightarrow> 's \<Rightarrow> 's option" where
  "launch k blocks threads s = run_threads k (grid_threads blocks threads) s"

section \<open>Cost kernels\<close>

text \<open>
  The tie-counting loop shared by the three cost kernels:
  \<^verbatim>\<open>for (int i = 0; i < numOut; i++) numMax += probs[i * numCases + tx] == maxp;\<close>
\<close>

function numMax_loop :: "buf \<Rightarrow> real \<Rightarrow> int \<Rightarrow> int \<Rightarrow> int \<Rightarrow> int \<Rightarrow> int \<Rightarrow> int option" where
  "numMax_loop probs maxp numCases numOut tx i numMax =
     (if i < numOut then
        (case rd probs (i * numCases + tx) of
           None \<Rightarrow> None
         | Some p \<Rightarrow>
             numMax_loop probs maxp numCases numOut tx (i + 1)
               (numMax + (if p = maxp then 1 else 0)))
      else Some numMax)"
  by pat_completeness auto
termination
  by (relation "measure (\<lambda>(probs, maxp, numCases, numOut, tx, i, numMax). nat (numOut - i))") auto

declare numMax_loop.simps [simp del]

definition kLogregCost ::
  "nat \<Rightarrow> cuda_thread \<Rightarrow> buf \<Rightarrow> buf \<Rightarrow> buf \<Rightarrow> buf \<Rightarrow> buf \<Rightarrow> int \<Rightarrow> int \<Rightarrow> (buf \<times> buf) option" where
  "kLogregCost ERR_X c probs labels maxProbs labelLogProbs correctProbs numCases numOut =
     (let tx = int (blockIdx_x c * ERR_X + threadIdx_x c) in
      if tx < numCases then do {
        l \<leftarrow> rd labels tx;
        let label = float2int l;
        maxp \<leftarrow> rd maxProbs tx;
        labelp \<leftarrow> rd probs (label * numCases + tx);
        labelLogProbs' \<leftarrow> wr labelLogProbs tx (logf labelp);
        if labelp \<noteq> maxp then do {
          correctProbs' \<leftarrow> wr correctProbs tx 0;
          Some (labelLogProbs', correctProbs')
        } else do {
          numMax \<leftarrow> numMax_loop probs maxp numCases numOut tx 0 0;
          correctProbs' \<leftarrow> wr correctProbs tx (1 / real_of_int numMax);
          Some (labelLogProbs', correctProbs')
        }
      } else Some (labelLogProbs, correctProbs))"

definition kL2SVMCost ::
  "nat \<Rightarrow> cuda_thread \<Rightarrow> buf \<Rightarrow> buf \<Rightarrow> buf \<Rightarrow> buf \<Rightarrow> buf \<Rightarrow> int \<Rightarrow> int \<Rightarrow> (buf \<times> buf) option" where
  "kL2SVMCost ERR_X c acts labels maxActs acts_out correctPreds numCases numOut =
     (let tx = int (blockIdx_x c * ERR_X + threadIdx_x c) in
      if tx < numCases then do {
        l \<leftarrow> rd labels tx;
        let label = float2int l;
        max_svm \<leftarrow> rd maxActs tx;
        svm_label_value \<leftarrow> rd acts (label * numCases + tx);
        let max_label_val = fmaxf (1 - svm_label_value) 0;
        acts_out' \<leftarrow> wr acts_out tx (max_label_val * max_label_val);
        if svm_label_value \<noteq> max_svm then do {
          correctPreds' \<leftarrow> wr correctPreds tx 0;
          Some (acts_out', correctPreds')
        } else do {
          numMax \<leftarrow> numMax_loop acts max_svm numCases numOut tx 0 0;
          correctPreds' \<leftarrow> wr correctPreds tx (1 / real_of_int numMax);
          Some (acts_out', correctPreds')
        }
      } else Some (acts_out, correctPreds))"

definition kRLogCost ::
  "nat \<Rightarrow> cuda_thread \<Rightarrow> buf \<Rightarrow> buf \<Rightarrow> buf \<Rightarrow> buf \<Rightarrow> buf \<Rightarrow> buf \<Rightarrow> real \<Rightarrow> int \<Rightarrow> int
     \<Rightarrow> (buf \<times> buf \<times> buf) option" where
  "kRLogCost ERR_X c probs labels maxProbs labelLogProbs correctProbs probWeights p_pow
       numCases numOut =
     (let tx = int (blockIdx_x c * ERR_X + threadIdx_x c) in
      if tx < numCases then do {
        l \<leftarrow> rd labels tx;
        let label = float2int l;
        maxp \<leftarrow> rd maxProbs tx;
        labelp \<leftarrow> rd probs (label * numCases + tx);
        let logprob = logf labelp;
        labelLogProbs' \<leftarrow> wr labelLogProbs tx logprob;
        let w = powf (- logprob + 1 / 1000000) p_pow;
        probWeights' \<leftarrow> wr probWeights tx w;
        if labelp \<noteq> maxp then do {
          correctProbs' \<leftarrow> wr correctProbs tx 0;
          Some (labelLogProbs', correctProbs', probWeights')
        } else do {
          numMax \<leftarrow> numMax_loop probs maxp numCases numOut tx 0 0;
          correctProbs' \<leftarrow> wr correctProbs tx (1 / real_of_int numMax);
          Some (labelLogProbs', correctProbs', probWeights')
        }
      } else Some (labelLogProbs, correctProbs, probWeights))"

section \<open>Gradient kernels\<close>

text \<open>The tail of every gradient kernel: accumulate into the target cell or overwrite it.\<close>

definition store :: "bool \<Rightarrow> buf \<Rightarrow> int \<Rightarrow> real \<Rightarrow> buf option" where
  "store add target i v =
     (if add then do { old \<leftarrow> rd target i; wr target i (old + v) } else wr target i v)"

definition kLogregCostGrad ::
  "bool \<Rightarrow> nat \<Rightarrow> nat \<Rightarrow> cuda_thread \<Rightarrow> buf \<Rightarrow> buf \<Rightarrow> buf \<Rightarrow> int \<Rightarrow> int \<Rightarrow> real \<Rightarrow> buf option" where
  "kLogregCostGrad add GRAD_X GRAD_Y c y_l labels dE_dy_l numCases numOut gradCoeff =
     (let tx = int (blockIdx_x c * GRAD_X + threadIdx_x c);
          ty = int (blockIdx_y c * GRAD_Y + threadIdx_y c);
          tidx = ty * numCases + tx in
      if ty < numOut \<and> tx < numCases then do {
        l \<leftarrow> rd labels tx;
        let label = float2int l;
        let v = gradCoeff * b2f (label = ty);
        y \<leftarrow> rd y_l tidx;
        let v = fdividef v y;
        store add dE_dy_l tidx v
      } else Some dE_dy_l)"

text \<open>
  The same kernel, lines 146 to 163, with the quotient of the device kept apart from the
  real numbers: the target holds values of type \<^typ>\<open>fval\<close>, the probabilities, the labels
  and the coefficient are real numbers.
\<close>

definition store_ext :: "bool \<Rightarrow> fval list \<Rightarrow> int \<Rightarrow> fval \<Rightarrow> fval list option" where
  "store_ext add target i v =
     (if add then do { old \<leftarrow> rd target i; wr target i (fadd old v) } else wr target i v)"

definition kLogregCostGrad_ext ::
  "bool \<Rightarrow> nat \<Rightarrow> nat \<Rightarrow> cuda_thread \<Rightarrow> buf \<Rightarrow> buf \<Rightarrow> fval list \<Rightarrow> int \<Rightarrow> int \<Rightarrow> real
     \<Rightarrow> fval list option" where
  "kLogregCostGrad_ext add GRAD_X GRAD_Y c y_l labels dE_dy_l numCases numOut gradCoeff =
     (let tx = int (blockIdx_x c * GRAD_X + threadIdx_x c);
          ty = int (blockIdx_y c * GRAD_Y + threadIdx_y c);
          tidx = ty * numCases + tx in
      if ty < numOut \<and> tx < numCases then do {
        l \<leftarrow> rd labels tx;
        let label = float2int l;
        let v = gradCoeff * b2f (label = ty);
        y \<leftarrow> rd y_l tidx;
        let v = fdividef_ext v y;
        store_ext add dE_dy_l tidx v
      } else Some dE_dy_l)"

definition kRLogCostGrad ::
  "bool \<Rightarrow> nat \<Rightarrow> nat \<Rightarrow> cuda_thread \<Rightarrow> buf \<Rightarrow> buf \<Rightarrow> buf \<Rightarrow> buf \<Rightarrow> int \<Rightarrow> int \<Rightarrow> real
     \<Rightarrow> buf option" where
  "kRLogCostGrad add GRAD_X GRAD_Y c y_l labels dE_dy_l weights numCases numOut gradCoeff =
     (let tx = int (blockIdx_x c * GRAD_X + threadIdx_x c);
          ty = int (blockIdx_y c * GRAD_Y + threadIdx_y c);
          tidx = ty * numCases + tx in
      if ty < numOut \<and> tx < numCases then do {
        l \<leftarrow> rd labels tx;
        let label = float2int l;
        w \<leftarrow> rd weights tx;
        let v = w * gradCoeff * b2f (label = ty);
        y \<leftarrow> rd y_l tidx;
        let v = fdividef v y;
        store add dE_dy_l tidx v
      } else Some dE_dy_l)"

text \<open>
  The contraction loop of the softmax Jacobian:
  \<^verbatim>\<open>for (int j = 0; j < numOut; j++)
      v += dE_dy_l[j * numCases + tx] * ((j == ty) - y_l[j * numCases + tx]);\<close>
\<close>

function softmax_loop :: "buf \<Rightarrow> buf \<Rightarrow> int \<Rightarrow> int \<Rightarrow> int \<Rightarrow> int \<Rightarrow> int \<Rightarrow> real \<Rightarrow> real option" where
  "softmax_loop dE_dy_l y_l numCases numOut tx ty j v =
     (if j < numOut then do {
        g \<leftarrow> rd dE_dy_l (j * numCases + tx);
        y \<leftarrow> rd y_l (j * numCases + tx);
        softmax_loop dE_dy_l y_l numCases numOut tx ty (j + 1) (v + g * (b2f (j = ty) - y))
      } else Some v)"
  by pat_completeness auto
termination
  by (relation "measure (\<lambda>(dE_dy_l, y_l, numCases, numOut, tx, ty, j, v). nat (numOut - j))") auto

declare softmax_loop.simps [simp del]

definition kSoftmaxGrad ::
  "bool \<Rightarrow> nat \<Rightarrow> nat \<Rightarrow> cuda_thread \<Rightarrow> buf \<Rightarrow> buf \<Rightarrow> buf \<Rightarrow> int \<Rightarrow> int \<Rightarrow> buf option" where
  "kSoftmaxGrad add GRAD_X GRAD_Y c dE_dy_l y_l dE_dx_l numCases numOut =
     (let tx = int (blockIdx_x c * GRAD_X + threadIdx_x c);
          ty = int (blockIdx_y c * GRAD_Y + threadIdx_y c);
          tidx = ty * numCases + tx in
      if ty < numOut \<and> tx < numCases then do {
        v \<leftarrow> softmax_loop dE_dy_l y_l numCases numOut tx ty 0 0;
        y \<leftarrow> rd y_l tidx;
        let v = v * y;
        store add dE_dx_l tidx v
      } else Some dE_dx_l)"

definition kL2SVMGrad ::
  "bool \<Rightarrow> nat \<Rightarrow> nat \<Rightarrow> cuda_thread \<Rightarrow> buf \<Rightarrow> buf \<Rightarrow> buf \<Rightarrow> int \<Rightarrow> int \<Rightarrow> real \<Rightarrow> buf option" where
  "kL2SVMGrad add GRAD_X GRAD_Y c y_l labels dE_dx_l numCases numOut gradCoeff =
     (let tx = int (blockIdx_x c * GRAD_X + threadIdx_x c);
          ty = int (blockIdx_y c * GRAD_Y + threadIdx_y c);
          tidx = ty * numCases + tx in
      if ty < numOut \<and> tx < numCases then do {
        l \<leftarrow> rd labels tx;
        let label = float2int l;
        let t = (if label = ty then 1 else - 1);
        y \<leftarrow> rd y_l tidx;
        let act = 1 - t * y;
        let max_val = fmaxf act 0 + (3 / 10) * b2f (act > 0);
        let v = gradCoeff * t * max_val;
        store add dE_dx_l tidx v
      } else Some dE_dx_l)"

definition kLogregSoftmaxGrad ::
  "bool \<Rightarrow> nat \<Rightarrow> nat \<Rightarrow> cuda_thread \<Rightarrow> buf \<Rightarrow> buf \<Rightarrow> buf \<Rightarrow> int \<Rightarrow> int \<Rightarrow> real \<Rightarrow> buf option" where
  "kLogregSoftmaxGrad add GRAD_X GRAD_Y c y_l labels dE_dx_l numCases numOut gradCoeff =
     (let tx = int (blockIdx_x c * GRAD_X + threadIdx_x c);
          ty = int (blockIdx_y c * GRAD_Y + threadIdx_y c);
          tidx = ty * numCases + tx in
      if ty < numOut \<and> tx < numCases then do {
        l \<leftarrow> rd labels tx;
        let label = float2int l;
        y \<leftarrow> rd y_l tidx;
        let v = gradCoeff * (b2f (label = ty) - y);
        store add dE_dx_l tidx v
      } else Some dE_dx_l)"

definition kRLogSoftmaxGrad ::
  "bool \<Rightarrow> nat \<Rightarrow> nat \<Rightarrow> cuda_thread \<Rightarrow> buf \<Rightarrow> buf \<Rightarrow> buf \<Rightarrow> buf \<Rightarrow> int \<Rightarrow> int \<Rightarrow> real
     \<Rightarrow> buf option" where
  "kRLogSoftmaxGrad add GRAD_X GRAD_Y c y_l labels dE_dx_l probWeights numCases numOut gradCoeff =
     (let tx = int (blockIdx_x c * GRAD_X + threadIdx_x c);
          ty = int (blockIdx_y c * GRAD_Y + threadIdx_y c);
          tidx = ty * numCases + tx in
      if ty < numOut \<and> tx < numCases then do {
        l \<leftarrow> rd labels tx;
        let label = float2int l;
        p \<leftarrow> rd y_l tidx;
        w \<leftarrow> rd probWeights tx;
        let v = gradCoeff * (b2f (label = ty) - p) * w;
        store add dE_dx_l tidx v
      } else Some dE_dx_l)"

text \<open>
  The margin transforms of the adaptive-margin SVM variant. A comparison in a product is
  the number 0 or 1.
\<close>

definition Psvm :: "real \<Rightarrow> real \<Rightarrow> real \<Rightarrow> real" where
  "Psvm a invCp1 C2 = b2f (a < 0) * a + b2f (a > C2) * invCp1 * (a - C2)"

definition Gradsvm :: "real \<Rightarrow> real \<Rightarrow> real \<Rightarrow> real" where
  "Gradsvm a C1 C2 = C1 * fmaxf a 0 + C2 * b2f (a > 0)"

definition GradPsvm :: "real \<Rightarrow> real \<Rightarrow> real \<Rightarrow> real \<Rightarrow> real \<Rightarrow> real" where
  "GradPsvm a invCp1z Cz C1 C2 = b2f (a > Cz) * (C2 + C1 * invCp1z * (a - Cz))"

definition kL2SVM_G ::
  "nat \<Rightarrow> nat \<Rightarrow> cuda_thread \<Rightarrow> buf \<Rightarrow> buf \<Rightarrow> buf \<Rightarrow> buf \<Rightarrow> buf \<Rightarrow> int \<Rightarrow> int
     \<Rightarrow> real \<Rightarrow> real \<Rightarrow> real \<Rightarrow> real \<Rightarrow> buf option" where
  "kL2SVM_G GRAD_X GRAD_Y c racts acts labels sumZ2 G numCases numOut C1 C2 eps_w eps_b =
     (let tx = int (blockIdx_x c * GRAD_X + threadIdx_x c);
          ty = int (blockIdx_y c * GRAD_Y + threadIdx_y c);
          tidx = ty * numCases + tx in
      if ty < numOut \<and> tx < numCases then do {
        l \<leftarrow> rd labels tx;
        let label = float2int l;
        let t = (if label = ty then 1 else - 1);
        r \<leftarrow> rd racts tidx;
        a \<leftarrow> rd acts tidx;
        let val = 1 - t * (r + a);
        z \<leftarrow> rd sumZ2 tx;
        let ZL = z * eps_w + eps_b;
        let invCp1z = 1 / (1 + C1 * ZL);
        let Cz = C2 * ZL;
        wr G tidx (t * GradPsvm val invCp1z Cz C1 C2)
      } else Some G)"

definition kL2SVM_U ::
  "nat \<Rightarrow> nat \<Rightarrow> cuda_thread \<Rightarrow> buf \<Rightarrow> buf \<Rightarrow> buf \<Rightarrow> int \<Rightarrow> int \<Rightarrow> real \<Rightarrow> real \<Rightarrow> buf option" where
  "kL2SVM_U GRAD_X GRAD_Y c acts labels actU numCases numOut C1eps C2eps =
     (let tx = int (blockIdx_x c * GRAD_X + threadIdx_x c);
          ty = int (blockIdx_y c * GRAD_Y + threadIdx_y c);
          tidx = ty * numCases + tx in
      if ty < numOut \<and> tx < numCases then do {
        l \<leftarrow> rd labels tx;
        let label = float2int l;
        let t = (if label = ty then 1 else - 1);
        a \<leftarrow> rd acts tidx;
        let val = 1 - t * a;
        let invCp1 = 1 / (1 + C1eps);
        wr actU tidx (Psvm val invCp1 C2eps)
      } else Some actU)"

section \<open>Composite elementwise kernels\<close>

text \<open>
  These kernels walk their elements in grid-sized strides. A stride of zero would make
  the loop run forever, so the loops are partial functions: not returning is \<open>None\<close>.
  The unsigned loop counters are natural numbers.
\<close>

partial_function (option) kEltwiseMaxGrad_loop ::
  "bool \<Rightarrow> nat \<Rightarrow> cuda_thread \<Rightarrow> buf \<Rightarrow> buf \<Rightarrow> buf \<Rightarrow> int \<Rightarrow> int \<Rightarrow> buf \<Rightarrow> buf option" where
  "kEltwiseMaxGrad_loop add B_X c actGrad input output numElements i target =
     (if i < numElements then do {
        g \<leftarrow> rd actGrad i;
        out \<leftarrow> rd output i;
        inp \<leftarrow> rd input i;
        target' \<leftarrow> store add target i (g * b2f (out = inp));
        kEltwiseMaxGrad_loop add B_X c actGrad input output numElements
          (i + int (B_X * gridDim_x c)) target'
      } else Some target)"

definition kEltwiseMaxGrad ::
  "bool \<Rightarrow> nat \<Rightarrow> cuda_thread \<Rightarrow> buf \<Rightarrow> buf \<Rightarrow> buf \<Rightarrow> buf \<Rightarrow> int \<Rightarrow> buf option" where
  "kEltwiseMaxGrad add B_X c actGrad input output target numElements =
     kEltwiseMaxGrad_loop add B_X c actGrad input output numElements
       (int (B_X * blockIdx_x c + threadIdx_x c)) target"

text \<open>The value of one element of the forward pass, line \<^verbatim>\<open>float val = ...\<close>.\<close>

definition EltwiseFuncAct_val ::
  "real \<Rightarrow> real \<Rightarrow> real \<Rightarrow> real \<Rightarrow> real \<Rightarrow> real \<Rightarrow> real \<Rightarrow> real \<Rightarrow> real" where
  "EltwiseFuncAct_val param0 param1 param2 param3 param4 in0 in1 in2 =
     (let fm0 = fmaxf in0 0; fm1 = fmaxf in1 0; fm2 = fmaxf in2 0 in
      param0 * in1 + param1 * in2 + param2 * fm2 + param3 * fm0 + param4 * fm1 + in0)"

partial_function (option) kEltwiseFuncAct_x ::
  "nat \<Rightarrow> cuda_thread \<Rightarrow> buf \<Rightarrow> buf \<Rightarrow> buf \<Rightarrow> real \<Rightarrow> real \<Rightarrow> real \<Rightarrow> real \<Rightarrow> real
     \<Rightarrow> nat \<Rightarrow> nat \<Rightarrow> nat \<Rightarrow> nat \<Rightarrow> buf \<Rightarrow> buf option" where
  "kEltwiseFuncAct_x B_X c input0 input1 input2 param0 param1 param2 param3 param4
       numCases stride y x target =
     (if x < numCases then do {
        let offset = int (y * stride + x);
        in0 \<leftarrow> rd input0 offset;
        in1 \<leftarrow> rd input1 offset;
        in2 \<leftarrow> rd input2 offset;
        let val = EltwiseFuncAct_val param0 param1 param2 param3 param4 in0 in1 in2;
        target' \<leftarrow> wr target offset val;
        kEltwiseFuncAct_x B_X c input0 input1 input2 param0 param1 param2 param3 param4
          numCases stride y (x + gridDim_x c * B_X) target'
      } else Some target)"

partial_function (option) kEltwiseFuncAct_y ::
  "nat \<Rightarrow> nat \<Rightarrow> cuda_thread \<Rightarrow> buf \<Rightarrow> buf \<Rightarrow> buf \<Rightarrow> real \<Rightarrow> real \<Rightarrow> real \<Rightarrow> real \<Rightarrow> real
     \<Rightarrow> nat \<Rightarrow> nat \<Rightarrow> nat \<Rightarrow> nat \<Rightarrow> nat \<Rightarrow> buf \<Rightarrow> buf option" where
  "kEltwiseFuncAct_y B_X B_Y c input0 input1 input2 param0 param1 param2 param3 param4
       imgPixels numCases stride idxX y target =
     (if y < imgPixels then do {
        target' \<leftarrow> kEltwiseFuncAct_x B_X c input0 input1 input2
                     param0 param1 param2 param3 param4 numCases stride y idxX target;
        kEltwiseFuncAct_y B_X B_Y c input0 input1 input2 param0 param1 param2 param3 param4
          imgPixels numCases stride idxX (y + gridDim_y c * B_Y) target'
      } else Some target)"

definition kEltwiseFuncAct ::
  "nat \<Rightarrow> nat \<Rightarrow> cuda_thread \<Rightarrow> buf \<Rightarrow> buf \<Rightarrow> buf \<Rightarrow> buf \<Rightarrow> real \<Rightarrow> real \<Rightarrow> real \<Rightarrow> real \<Rightarrow> real
     \<Rightarrow> nat \<Rightarrow> nat \<Rightarrow> nat \<Rightarrow> buf option" where
  "kEltwiseFuncAct B_X B_Y c input0 input1 input2 target param0 param1 param2 param3 param4
       imgPixels numCases stride =
     (let idxX = blockIdx_x c * B_X + threadIdx_x c;
          idxY = blockIdx_y c * B_Y + threadIdx_y c in
      kEltwiseFuncAct_y B_X B_Y c input0 input1 input2 param0 param1 param2 param3 param4
        imgPixels numCases stride idxX idxY target)"

partial_function (option) kEltwiseFuncGrad_x ::
  "nat \<Rightarrow> cuda_thread \<Rightarrow> buf \<Rightarrow> buf \<Rightarrow> buf \<Rightarrow> buf \<Rightarrow> real \<Rightarrow> real \<Rightarrow> real \<Rightarrow> real \<Rightarrow> real
     \<Rightarrow> nat \<Rightarrow> nat \<Rightarrow> nat \<Rightarrow> nat \<Rightarrow> buf \<times> buf \<times> buf \<Rightarrow> (buf \<times> buf \<times> buf) option" where
  "kEltwiseFuncGrad_x B_X c actGrad input0 input1 input2 param0 param1 param2 param3 param4
       numCases stride y x targets =
     (if x < numCases then do {
        let offset = int (y * stride + x);
        in0 \<leftarrow> rd input0 offset;
        in1 \<leftarrow> rd input1 offset;
        in2 \<leftarrow> rd input2 offset;
        grad_next \<leftarrow> rd actGrad offset;
        let val0 = 1 + param3 * b2f (in0 > 0);
        let val1 = param0 + param4 * b2f (in1 > 0);
        let val2 = param1 + param2 * b2f (in2 > 0);
        target0' \<leftarrow> wr (fst targets) offset (val0 * grad_next);
        target1' \<leftarrow> wr (fst (snd targets)) offset (val1 * grad_next);
        target2' \<leftarrow> wr (snd (snd targets)) offset (val2 * grad_next);
        kEltwiseFuncGrad_x B_X c actGrad input0 input1 input2
          param0 param1 param2 param3 param4 numCases stride y (x + gridDim_x c * B_X)
          (target0', target1', target2')
      } else Some targets)"

partial_function (option) kEltwiseFuncGrad_y ::
  "nat \<Rightarrow> nat \<Rightarrow> cuda_thread \<Rightarrow> buf \<Rightarrow> buf \<Rightarrow> buf \<Rightarrow> buf \<Rightarrow> real \<Rightarrow> real \<Rightarrow> real \<Rightarrow> real \<Rightarrow> real
     \<Rightarrow> nat \<Rightarrow> nat \<Rightarrow> nat \<Rightarrow> nat \<Rightarrow> nat \<Rightarrow> buf \<times> buf \<times> buf \<Rightarrow> (buf \<times> buf \<times> buf) option" where
  "kEltwiseFuncGrad_y B_X B_Y c actGrad input0 input1 input2
       param0 param1 param2 param3 param4 imgPixels numCases stride idxX y targets =
     (if y < imgPixels then do {
        targets' \<leftarrow> kEltwiseFuncGrad_x B_X c actGrad input0 input1 input2
                      param0 param1 param2 param3 param4 numCases stride y idxX targets;
        kEltwiseFuncGrad_y B_X B_Y c actGrad input0 input1 input2
          param0 param1 param2 param3 param4 imgPixels numCases stride idxX
          (y + gridDim_y c * B_Y) targets'
      } else Some targets)"

definition kEltwiseFuncGrad ::
  "nat \<Rightarrow> nat \<Rightarrow> cuda_thread \<Rightarrow> buf \<Rightarrow> buf \<Rightarrow> buf \<Rightarrow> buf \<Rightarrow> buf \<Rightarrow> buf \<Rightarrow> buf
     \<Rightarrow> real \<Rightarrow> real \<Rightarrow> real \<Rightarrow> real \<Rightarrow> real \<Rightarrow> nat \<Rightarrow> nat \<Rightarrow> nat \<Rightarrow> (buf \<times> buf \<times> buf) option" where
  "kEltwiseFuncGrad B_X B_Y c actGrad input0 input1 input2 target0 target1 target2
       param0 param1 param2 param3 param4 imgPixels numCases stride =
     (let idxX = blockIdx_x c * B_X + threadIdx_x c;
          idxY = blockIdx_y c * B_Y + threadIdx_y c in
      kEltwiseFuncGrad_y B_X B_Y c actGrad input0 input1 input2
        param0 param1 param2 param3 param4 imgPixels numCases stride idxX idxY
        (target0, target1, target2))"

section \<open>Host dispatch functions\<close>

text \<open>
  Modelled from the spec: the matrix class \<^verbatim>\<open>NVMatrix\<close> is not part of the sources. The
  spec describes it as the owner of a device-resident two-dimensional float buffer that
  reports its row and column counts, its layout-aware leading and following dimensions,
  its transpose flag and its contiguity, that can be resized, and that offers a maximum
  over an axis. The record keeps exactly these; the contents of device memory that a
  resize allocates anew are unspecified, and the model fills it with zeros.
\<close>

record NVMatrix =
  numRows :: nat
  numCols :: nat
  isTrans :: bool
  stride :: nat
  devData :: buf

datatype cudaError = cudaSuccess | cudaErrorCode nat

datatype error =
    AssertionFailed
  | KernelExecutionFailed string
  | DeviceFault

definition getNumElements :: "NVMatrix \<Rightarrow> nat" where
  "getNumElements m = numRows m * numCols m"

definition getLeadingDim :: "NVMatrix \<Rightarrow> nat" where
  "getLeadingDim m = (if isTrans m then numRows m else numCols m)"

definition getFollowingDim :: "NVMatrix \<Rightarrow> nat" where
  "getFollowingDim m = (if isTrans m then numCols m else numRows m)"

definition isContiguous :: "NVMatrix \<Rightarrow> bool" where
  "isContiguous m = (stride m = getLeadingDim m \<or> getFollowingDim m = 1)"

definition isSameDims :: "NVMatrix \<Rightarrow> NVMatrix \<Rightarrow> bool" where
  "isSameDims a b = (numRows a = numRows b \<and> numCols a = numCols b)"

definition resize :: "NVMatrix \<Rightarrow> nat \<Rightarrow> nat \<Rightarrow> NVMatrix" where
  "resize m r c =
     (if numRows m = r \<and> numCols m = c then m
      else m\<lparr>numRows := r, numCols := c,
             stride := (if isTrans m then r else c),
             devData := (if length (devData m) = r * c then devData m
                         else replicate (r * c) 0)\<rparr>)"

definition resize_like :: "NVMatrix \<Rightarrow> NVMatrix \<Rightarrow> NVMatrix" where
  "resize_like m like = resize m (numRows like) (numCols like)"

text \<open>
  Modelled from the spec: \<^verbatim>\<open>max(0)\<close>, the per-case maximum over the class axis of a
  matrix stored row by row, as a new \<open>1 \<times> numCols\<close> matrix. A column without rows has no
  maximum: the model aborts there, as a failed assertion does.
\<close>

definition max_axis0 :: "NVMatrix \<Rightarrow> error + NVMatrix" where
  "max_axis0 m =
     (if numRows m = 0 then Inl AssertionFailed
      else Inr \<lparr>numRows = 1, numCols = numCols m, isTrans = False, stride = numCols m,
             devData = map (\<lambda>c. fold (\<lambda>r a. fmaxf a (devData m ! (r * numCols m + c)))
                                    [1..<numRows m] (devData m ! c))
                           [0..<numCols m]\<rparr>)"

text \<open>
  Modelled from the spec: the macros \<^verbatim>\<open>DIVUP\<close> and \<^verbatim>\<open>cutilCheckMsg\<close> come from
  headers that are not part of the sources. \<^verbatim>\<open>DIVUP\<close> is the rounded-up quotient that
  sizes the grid. \<^verbatim>\<open>cutilCheckMsg\<close> queries the device-execution status after a launch
  and terminates the process with the given message on any device error. The status the
  device reports is an input of each host function.
\<close>

definition DIVUP :: "nat \<Rightarrow> nat \<Rightarrow> nat" where
  "DIVUP x y = (x + y - 1) div y"

definition cutilCheckMsg :: "string \<Rightarrow> cudaError \<Rightarrow> 'a \<Rightarrow> error + 'a" where
  "cutilCheckMsg msg status result =
     (if status = cudaSuccess then Inr result else Inl (KernelExecutionFailed msg))"

text \<open>
  A C \<^verbatim>\<open>assert\<close> that fails aborts the process. A launch whose thread leaves its
  buffers has no defined result: the host function's value is then \<open>DeviceFault\<close>.
\<close>

definition computeL2SVMCost ::
  "nat \<Rightarrow> NVMatrix \<Rightarrow> NVMatrix \<Rightarrow> NVMatrix \<Rightarrow> NVMatrix \<Rightarrow> cudaError
     \<Rightarrow> error + (NVMatrix \<times> NVMatrix)" where
  "computeL2SVMCost ERR_X labels act_prev act_out correctPreds_out status =
     (let numCases = numCols act_prev; numOut = numRows act_prev in
      if getNumElements labels \<noteq> numCases then Inl AssertionFailed
      else if isTrans labels then Inl AssertionFailed
      else if isTrans act_prev then Inl AssertionFailed
      else if \<not> isContiguous labels then Inl AssertionFailed
      else if \<not> isContiguous act_prev then Inl AssertionFailed
      else
        case max_axis0 act_prev of Inl e \<Rightarrow> Inl e | Inr maxActs \<Rightarrow>
        let act_out = resize act_out 1 numCases;
            correctPreds_out = resize correctPreds_out 1 numCases;
            threads = (ERR_X, 1);
            blocks = (DIVUP numCases ERR_X, 1) in
        case launch (\<lambda>c (a, p). kL2SVMCost ERR_X c (devData act_prev) (devData labels)
                        (devData maxActs) a p (int numCases) (int numOut))
               blocks threads (devData act_out, devData correctPreds_out) of
          None \<Rightarrow> Inl DeviceFault
        | Some (a, p) \<Rightarrow>
            cutilCheckMsg ''computeL2SVMCost: Kernel execution failed'' status
              (act_out\<lparr>devData := a\<rparr>, correctPreds_out\<lparr>devData := p\<rparr>))"

definition computeLogregCost ::
  "nat \<Rightarrow> NVMatrix \<Rightarrow> NVMatrix \<Rightarrow> NVMatrix \<Rightarrow> NVMatrix \<Rightarrow> cudaError
     \<Rightarrow> error + (NVMatrix \<times> NVMatrix)" where
  "computeLogregCost ERR_X labels probs labelLogProbs_out correctProbs_out status =
     (let numCases = numCols probs; numOut = numRows probs in
      if getNumElements labels \<noteq> numCases then Inl AssertionFailed
      else if isTrans labels then Inl AssertionFailed
      else if isTrans probs then Inl AssertionFailed
      else if \<not> isContiguous labels then Inl AssertionFailed
      else if \<not> isContiguous probs then Inl AssertionFailed
      else
        case max_axis0 probs of Inl e \<Rightarrow> Inl e | Inr maxProbs \<Rightarrow>
        let labelLogProbs_out = resize labelLogProbs_out 1 numCases;
            correctProbs_out = resize correctProbs_out 1 numCases;
            threads = (ERR_X, 1);
            blocks = (DIVUP numCases ERR_X, 1) in
        case launch (\<lambda>c (l, p). kLogregCost ERR_X c (devData probs) (devData labels)
                        (devData maxProbs) l p (int numCases) (int numOut))
               blocks threads (devData labelLogProbs_out, devData correctProbs_out) of
          None \<Rightarrow> Inl DeviceFault
        | Some (l, p) \<Rightarrow>
            cutilCheckMsg ''computeLogregCost: Kernel execution failed'' status
              (labelLogProbs_out\<lparr>devData := l\<rparr>, correctProbs_out\<lparr>devData := p\<rparr>))"

definition computeLogregGrad ::
  "nat \<Rightarrow> nat \<Rightarrow> NVMatrix \<Rightarrow> NVMatrix \<Rightarrow> NVMatrix \<Rightarrow> bool \<Rightarrow> real \<Rightarrow> cudaError
     \<Rightarrow> error + NVMatrix" where
  "computeLogregGrad GRAD_X GRAD_Y labels probs target add coeff status =
     (let numCases = getLeadingDim probs; numOut = getFollowingDim probs in
      if getNumElements labels \<noteq> numCases then Inl AssertionFailed
      else if \<not> isContiguous probs then Inl AssertionFailed
      else if \<not> isContiguous target then Inl AssertionFailed
      else if \<not> isContiguous labels then Inl AssertionFailed
      else if isTrans labels then Inl AssertionFailed
      else if isTrans probs then Inl AssertionFailed
      else
        let threads = (GRAD_X, GRAD_Y);
            blocks = (DIVUP numCases GRAD_X, DIVUP numOut GRAD_Y);
            launched =
              (if \<not> add then
                 let target = resize_like target probs in
                 map_option (\<lambda>t. target\<lparr>devData := t\<rparr>)
                   (launch (\<lambda>c t. kLogregCostGrad False GRAD_X GRAD_Y c (devData probs) (devData labels)
                               t (int numCases) (int numOut) coeff)
                      blocks threads (devData target))
               else
                 map_option (\<lambda>t. target\<lparr>devData := t\<rparr>)
                   (launch (\<lambda>c t. kLogregCostGrad True GRAD_X GRAD_Y c (devData probs) (devData labels)
                               t (int numCases) (int numOut) coeff)
                      blocks threads (devData target))) in
        case launched of
          None \<Rightarrow> Inl DeviceFault
        | Some target \<Rightarrow> cutilCheckMsg ''computeLogregGrad: Kernel execution failed'' status target)"

definition computeRLogCost ::
  "nat \<Rightarrow> NVMatrix \<Rightarrow> NVMatrix \<Rightarrow> NVMatrix \<Rightarrow> NVMatrix \<Rightarrow> NVMatrix \<Rightarrow> real \<Rightarrow> cudaError
     \<Rightarrow> error + (NVMatrix \<times> NVMatrix \<times> NVMatrix)" where
  "computeRLogCost ERR_X labels probs labelLogProbs_out correctProbs_out probWeights_out
       p_pow status =
     (let numCases = numCols probs; numOut = numRows probs in
      if getNumElements labels \<noteq> numCases then Inl AssertionFailed
      else if isTrans labels then Inl AssertionFailed
      else if isTrans probs then Inl AssertionFailed
      else if \<not> isContiguous labels then Inl AssertionFailed
      else if \<not> isContiguous probs then Inl AssertionFailed
      else
        case max_axis0 probs of Inl e \<Rightarrow> Inl e | Inr maxProbs \<Rightarrow>
        let labelLogProbs_out = resize labelLogProbs_out 1 numCases;
            correctProbs_out = resize correctProbs_out 1 numCases;
            threads = (ERR_X, 1);
            blocks = (DIVUP numCases ERR_X, 1) in
        case launch (\<lambda>c (l, p, w). kRLogCost ERR_X c (devData probs) (devData labels)
                        (devData maxProbs) l p w p_pow (int numCases) (int numOut))
               blocks threads
               (devData labelLogProbs_out, devData correctProbs_out, devData probWeights_out) of
          None \<Rightarrow> Inl DeviceFault
        | Some (l, p, w) \<Rightarrow>
            cutilCheckMsg ''computeRLogCost: Kernel execution failed'' status
              (labelLogProbs_out\<lparr>devData := l\<rparr>, correctProbs_out\<lparr>devData := p\<rparr>,
               probWeights_out\<lparr>devData := w\<rparr>))"

definition computeRLogGrad ::
  "nat \<Rightarrow> nat \<Rightarrow> NVMatrix \<Rightarrow> NVMatrix \<Rightarrow> NVMatrix \<Rightarrow> NVMatrix \<Rightarrow> bool \<Rightarrow> real
     \<Rightarrow> cudaError \<Rightarrow> error + NVMatrix" where
  "computeRLogGrad GRAD_X GRAD_Y labels probs target probWeights add coeff status =
     (let numCases = getLeadingDim probs; numOut = getFollowingDim probs in
      if getNumElements labels \<noteq> numCases then Inl AssertionFailed
      else if \<not> isContiguous probs then Inl AssertionFailed
      else if \<not> isContiguous target then Inl AssertionFailed
      else if \<not> isContiguous labels then Inl AssertionFailed
      else if isTrans labels then Inl AssertionFailed
      else if isTrans probs then Inl AssertionFailed
      else
        let threads = (GRAD_X, GRAD_Y);
            blocks = (DIVUP numCases GRAD_X, DIVUP numOut GRAD_Y);
            launched =
              (if \<not> add then
                 let target = resize_like target probs in
                 map_option (\<lambda>t. target\<lparr>devData := t\<rparr>)
                   (launch (\<lambda>c t. kRLogCostGrad False GRAD_X GRAD_Y c (devData probs) (devData labels)
                               t (devData probWeights) (int numCases) (int numOut) coeff)
                      blocks threads (devData target))
               else
                 map_option (\<lambda>t. target\<lparr>devData := t\<rparr>)
                   (launch (\<lambda>c t. kRLogCostGrad True GRAD_X GRAD_Y c (devData probs) (devData labels)
                               t (devData probWeights) (int numCases) (int numOut) coeff)
                      blocks threads (devData target))) in
        case launched of
          None \<Rightarrow> Inl DeviceFault
        | Some target \<Rightarrow> cutilCheckMsg ''computeLogregGrad: Kernel execution failed'' status target)"

definition computeL2SVMGrad ::
  "nat \<Rightarrow> nat \<Rightarrow> NVMatrix \<Rightarrow> NVMatrix \<Rightarrow> NVMatrix \<Rightarrow> bool \<Rightarrow> real \<Rightarrow> cudaError
     \<Rightarrow> error + NVMatrix" where
  "computeL2SVMGrad GRAD_X GRAD_Y labels acts target add coeff status =
     (let numCases = getLeadingDim acts; numOut = getFollowingDim acts in
      if getNumElements labels \<noteq> numCases then Inl AssertionFailed
      else if \<not> isContiguous acts then Inl AssertionFailed
      else if \<not> isContiguous target then Inl AssertionFailed
      else if \<not> isContiguous labels then Inl AssertionFailed
      else if \<not> isTrans acts then Inl AssertionFailed
      else
        let threads = (GRAD_X, GRAD_Y);
            blocks = (DIVUP numCases GRAD_X, DIVUP numOut GRAD_Y);
            launched =
              (if \<not> add then
                 let target = resize_like target acts in
                 map_option (\<lambda>t. target\<lparr>devData := t\<rparr>)
                   (launch (\<lambda>c t. kL2SVMGrad False GRAD_X GRAD_Y c (devData acts) (devData labels)
                               t (int numCases) (int numOut) coeff)
                      blocks threads (devData target))
               else
                 map_option (\<lambda>t. target\<lparr>devData := t\<rparr>)
                   (launch (\<lambda>c t. kL2SVMGrad True GRAD_X GRAD_Y c (devData acts) (devData labels)
                               t (int numCases) (int numOut) coeff)
                      blocks threads (devData target))) in
        case launched of
          None \<Rightarrow> Inl DeviceFault
        | Some target \<Rightarrow> Inr target)"

definition computeSoftmaxGrad ::
  "nat \<Rightarrow> nat \<Rightarrow> NVMatrix \<Rightarrow> NVMatrix \<Rightarrow> NVMatrix \<Rightarrow> bool \<Rightarrow> cudaError \<Rightarrow> error + NVMatrix" where
  "computeSoftmaxGrad GRAD_X GRAD_Y acts actsGrad target add status =
     (let numCases = getLeadingDim acts; numOut = getFollowingDim acts in
      if \<not> isSameDims acts actsGrad then Inl AssertionFailed
      else if \<not> isContiguous acts then Inl AssertionFailed
      else if \<not> isContiguous actsGrad then Inl AssertionFailed
      else if \<not> isContiguous target then Inl AssertionFailed
      else if \<not> isTrans acts then Inl AssertionFailed
      else if \<not> isTrans actsGrad then Inl AssertionFailed
      else
        let threads = (GRAD_X, GRAD_Y);
            blocks = (DIVUP numCases GRAD_X, DIVUP numOut GRAD_Y);
            launched =
              (if \<not> add then
                 let target = resize_like target acts in
                 map_option (\<lambda>t. target\<lparr>devData := t\<rparr>)
                   (launch (\<lambda>c t. kSoftmaxGrad False GRAD_X GRAD_Y c (devData actsGrad) (devData acts)
                               t (int numCases) (int numOut))
                      blocks threads (devData target))
               else
                 map_option (\<lambda>t. target\<lparr>devData := t\<rparr>)
                   (launch (\<lambda>c t. kSoftmaxGrad True GRAD_X GRAD_Y c (devData actsGrad) (devData acts)
                               t (int numCases) (int numOut))
                      blocks threads (devData target))) in
        case launched of
          None \<Rightarrow> Inl DeviceFault
        | Some target \<Rightarrow> cutilCheckMsg ''computeSoftmaxGrad: Kernel execution failed'' status target)"

section \<open>Notions used in the statements\<close>

text \<open>The case index \<^verbatim>\<open>tx\<close> and the class index \<^verbatim>\<open>ty\<close> of a thread.\<close>

definition thr_x :: "nat \<Rightarrow> cuda_thread \<Rightarrow> nat" where
  "thr_x BX c = blockIdx_x c * BX + threadIdx_x c"

definition thr_y :: "nat \<Rightarrow> cuda_thread \<Rightarrow> nat" where
  "thr_y BY c = blockIdx_y c * BY + threadIdx_y c"

text \<open>
  The label of a case is the truncation of the float stored for it. It is valid for
  \<open>nO\<close> classes when it denotes one of them, and \<open>label_of\<close> is then its class index.
\<close>

definition valid_label :: "buf \<Rightarrow> nat \<Rightarrow> nat \<Rightarrow> bool" where
  "valid_label labels nO c = (0 \<le> float2int (labels ! c) \<and> float2int (labels ! c) < int nO)"

definition label_of :: "buf \<Rightarrow> nat \<Rightarrow> nat" where
  "label_of labels c = nat (float2int (labels ! c))"

text \<open>
  The correctness credit of a case as the specification words it: nothing when the value
  of the true label is not the given maximum of the column, else one over the number of
  classes whose value equals that maximum.
\<close>

definition tie_credit :: "buf \<Rightarrow> buf \<Rightarrow> buf \<Rightarrow> nat \<Rightarrow> nat \<Rightarrow> nat \<Rightarrow> real" where
  "tie_credit probs labels maxProbs nC nO c =
     (if probs ! (label_of labels c * nC + c) \<noteq> maxProbs ! c then 0
      else 1 / real (card {i. i < nO \<and> probs ! (i * nC + c) = maxProbs ! c}))"

text \<open>
  Element \<open>i\<close> of the three gradient outputs, and of the forward output, of the composite
  activation holds the value its kernel computes from the inputs at \<open>i\<close>.
\<close>

definition grad_cell_ok ::
  "buf \<Rightarrow> buf \<Rightarrow> buf \<Rightarrow> buf \<Rightarrow> real \<Rightarrow> real \<Rightarrow> real \<Rightarrow> real \<Rightarrow> real \<Rightarrow> nat
     \<Rightarrow> buf \<times> buf \<times> buf \<Rightarrow> bool" where
  "grad_cell_ok actGrad input0 input1 input2 p0 p1 p2 p3 p4 i s =
     (fst s ! i = (1 + p3 * b2f (input0 ! i > 0)) * actGrad ! i \<and>
      fst (snd s) ! i = (p0 + p4 * b2f (input1 ! i > 0)) * actGrad ! i \<and>
      snd (snd s) ! i = (p1 + p2 * b2f (input2 ! i > 0)) * actGrad ! i)"

definition bufs3_len :: "nat \<Rightarrow> buf \<times> buf \<times> buf \<Rightarrow> bool" where
  "bufs3_len n s = (length (fst s) = n \<and> length (fst (snd s)) = n \<and> length (snd (snd s)) = n)"

definition act_cell_ok ::
  "buf \<Rightarrow> buf \<Rightarrow> buf \<Rightarrow> real \<Rightarrow> real \<Rightarrow> real \<Rightarrow> real \<Rightarrow> real \<Rightarrow> nat \<Rightarrow> buf \<Rightarrow> bool" where
  "act_cell_ok input0 input1 input2 p0 p1 p2 p3 p4 i s =
     (s ! i = EltwiseFuncAct_val p0 p1 p2 p3 p4 (input0 ! i) (input1 ! i) (input2 ! i))"

section \<open>Buffer accesses and launches\<close>

lemma rd_Some [simp]: "0 \<le> i \<Longrightarrow> i < int (length b) \<Longrightarrow> rd b i = Some (b ! nat i)"
  by (simp add: rd_def)

lemma wr_Some [simp]: "0 \<le> i \<Longrightarrow> i < int (length b) \<Longrightarrow> wr b i v = Some (b[nat i := v])"
  by (simp add: wr_def)

lemma store_Some:
  "0 \<le> i \<Longrightarrow> i < int (length b) \<Longrightarrow>
   store add b i v = Some (b[nat i := (if add then b ! nat i + v else v)])"
  by (simp add: store_def)

subsection \<open>Threads of a launch\<close>

lemma run_threads_post:
  assumes step: "\<And>t s. t \<in> T \<Longrightarrow> I s \<Longrightarrow> Q t s \<Longrightarrow>
      \<exists>s'. k t s = Some s' \<and> I s' \<and> P t s' \<and>
           (\<forall>u\<in>T. u \<noteq> t \<longrightarrow> (P u s \<longrightarrow> P u s') \<and> (Q u s \<longrightarrow> Q u s'))"
  shows "set ts \<subseteq> T \<Longrightarrow> distinct ts \<Longrightarrow> I s \<Longrightarrow> \<forall>t\<in>set ts. Q t s \<Longrightarrow>
         D \<subseteq> T \<Longrightarrow> D \<inter> set ts = {} \<Longrightarrow> \<forall>u\<in>D. P u s \<Longrightarrow>
         \<exists>s'. run_threads k ts s = Some s' \<and> I s' \<and> (\<forall>u\<in>D \<union> set ts. P u s')"
proof (induction ts arbitrary: s D)
  case Nil
  then show ?case by simp
next
  case (Cons t ts)
  from Cons.prems have tT: "t \<in> T" and Qt: "Q t s" by auto
  from step [OF tT \<open>I s\<close> Qt] obtain s1 where
    s1: "k t s = Some s1" "I s1" "P t s1"
    and keep: "\<forall>u\<in>T. u \<noteq> t \<longrightarrow> (P u s \<longrightarrow> P u s1) \<and> (Q u s \<longrightarrow> Q u s1)"
    by blast
  have a: "set ts \<subseteq> T" "distinct ts" using Cons.prems by auto
  have b: "\<forall>u\<in>set ts. Q u s1" using Cons.prems keep by auto
  have c: "insert t D \<subseteq> T" "insert t D \<inter> set ts = {}" using Cons.prems tT by auto
  have d: "\<forall>u\<in>insert t D. P u s1" using Cons.prems keep s1 by auto
  from Cons.IH [OF a \<open>I s1\<close> b c d] obtain s' where
    "run_threads k ts s1 = Some s'" "I s'" "\<forall>u\<in>insert t D \<union> set ts. P u s'" by blast
  with s1 show ?case by auto
qed

lemma grid_threads_set:
  "c \<in> set (grid_threads (gx, gy) (bx, by)) \<longleftrightarrow>
     gridDim_x c = gx \<and> gridDim_y c = gy \<and> blockIdx_x c < gx \<and> blockIdx_y c < gy \<and>
     threadIdx_x c < bx \<and> threadIdx_y c < by"
  by (cases c) (auto simp: grid_threads_def mk_thread_def image_iff)

lemma grid_threads_distinct: "distinct (grid_threads g b)"
  unfolding grid_threads_def
  by (rule distinct_map [THEN iffD2])
     (auto simp: distinct_product inj_on_def mk_thread_def prod_eq_iff)

lemma block_index_inj:
  fixes b t b' t' B :: nat
  assumes "b * B + t = b' * B + t'" "t < B" "t' < B"
  shows "b = b' \<and> t = t'"
proof -
  have "(b * B + t) div B = b" "(b' * B + t') div B = b'"
    using assms(2,3) by simp_all
  moreover have "(b * B + t) mod B = t" "(b' * B + t') mod B = t'"
    using assms(2,3) by simp_all
  ultimately show ?thesis using assms(1) by metis
qed

lemma grid_threads_inj:
  assumes "c \<in> set (grid_threads (gx, gy) (BX, BY))" "u \<in> set (grid_threads (gx, gy) (BX, BY))"
    and "thr_x BX c = thr_x BX u" "thr_y BY c = thr_y BY u"
  shows "c = u"
proof -
  from assms(1,2) have g: "gridDim_x c = gridDim_x u" "gridDim_y c = gridDim_y u"
    and lt: "threadIdx_x c < BX" "threadIdx_x u < BX" "threadIdx_y c < BY" "threadIdx_y u < BY"
    by (simp_all add: grid_threads_set)
  from block_index_inj [OF assms(3) [unfolded thr_x_def] lt(1,2)]
       block_index_inj [OF assms(4) [unfolded thr_y_def] lt(3,4)] g
  show ?thesis by (simp add: cuda_thread.equality)
qed

lemma grid_threads_cover:
  assumes "cas < gx * BX" "cls < gy * BY"
  shows "\<exists>c\<in>set (grid_threads (gx, gy) (BX, BY)). thr_x BX c = cas \<and> thr_y BY c = cls"
proof -
  from assms have pos: "0 < BX" "0 < BY" by (auto intro: Nat.gr0I)
  let ?c = "\<lparr>gridDim_x = gx, gridDim_y = gy, blockIdx_x = cas div BX, blockIdx_y = cls div BY,
             threadIdx_x = cas mod BX, threadIdx_y = cls mod BY\<rparr>"
  have "cas div BX < gx" "cls div BY < gy"
    using assms pos by (simp_all add: less_mult_imp_div_less)
  then have "?c \<in> set (grid_threads (gx, gy) (BX, BY))"
    using pos by (simp add: grid_threads_set)
  moreover have "thr_x BX ?c = cas" "thr_y BY ?c = cls"
    by (simp_all add: thr_x_def thr_y_def)
  ultimately show ?thesis by blast
qed

text \<open>The grid a host function sizes with \<^verbatim>\<open>DIVUP\<close> covers the dimension it divides.\<close>

lemma DIVUP_covers:
  assumes "0 < B"
  shows "n \<le> DIVUP n B * B"
proof -
  have a: "(n + B - 1) mod B < B" using assms by simp
  have b: "(n + B - 1) div B * B + (n + B - 1) mod B = n + B - 1" by simp
  from a b assms show ?thesis unfolding DIVUP_def by linarith
qed

lemma cell_inj:
  fixes nC :: nat
  assumes "r * nC + x = r' * nC + x'" "x < nC" "x' < nC"
  shows "r = r' \<and> x = x'"
  using block_index_inj [OF assms] .

lemma cell_bound:
  fixes nC :: nat
  assumes "r < nO" "x < nC"
  shows "r * nC + x < nO * nC"
proof -
  have "r * nC + x < r * nC + nC" using assms by simp
  also have "\<dots> = Suc r * nC" by simp
  also have "\<dots> \<le> nO * nC" using assms(1) by (intro mult_le_mono1) simp
  finally show ?thesis .
qed

lemma launch_cells:
  fixes k :: "cuda_thread \<Rightarrow> 'a list \<Rightarrow> 'a list option"
  assumes body: "\<And>c s. length s = n \<Longrightarrow>
      k c s = Some (if thr_y BY c < nO \<and> thr_x BX c < nC
                    then s[thr_y BY c * nC + thr_x BX c :=
                           w (thr_y BY c) (thr_x BX c) (s ! (thr_y BY c * nC + thr_x BX c))]
                    else s)"
    and n: "nO * nC \<le> n" and len: "length s0 = n"
    and cov: "nC \<le> gx * BX" "nO \<le> gy * BY"
  shows "\<exists>s'. launch k (gx, gy) (BX, BY) s0 = Some s' \<and> length s' = n \<and>
           (\<forall>cls<nO. \<forall>cas<nC. s' ! (cls * nC + cas) = w cls cas (s0 ! (cls * nC + cas))) \<and>
           (\<forall>i. nO * nC \<le> i \<longrightarrow> s' ! i = s0 ! i)"
proof -
  let ?T = "set (grid_threads (gx, gy) (BX, BY))"
  let ?act = "\<lambda>c. thr_y BY c < nO \<and> thr_x BX c < nC"
  let ?cell = "\<lambda>c. thr_y BY c * nC + thr_x BX c"
  let ?I = "\<lambda>s. length s = n \<and> (\<forall>i. nO * nC \<le> i \<longrightarrow> s ! i = s0 ! i)"
  let ?Q = "\<lambda>c s. ?act c \<longrightarrow> s ! ?cell c = s0 ! ?cell c"
  let ?P = "\<lambda>c s. ?act c \<longrightarrow> s ! ?cell c = w (thr_y BY c) (thr_x BX c) (s0 ! ?cell c)"
  have step: "\<exists>s'. k t s = Some s' \<and> ?I s' \<and> ?P t s' \<and>
           (\<forall>u\<in>?T. u \<noteq> t \<longrightarrow> (?P u s \<longrightarrow> ?P u s') \<and> (?Q u s \<longrightarrow> ?Q u s'))"
    if t: "t \<in> ?T" and I: "?I s" and Q: "?Q t s" for t s
  proof (cases "?act t")
    case False
    with body [of s t] I show ?thesis by auto
  next
    case True
    let ?s' = "s[?cell t := w (thr_y BY t) (thr_x BX t) (s ! ?cell t)]"
    have ks: "k t s = Some ?s'" using body [of s t] I True by simp
    have lt: "?cell t < nO * nC" using True by (simp add: cell_bound)
    have other: "\<forall>u\<in>?T. u \<noteq> t \<longrightarrow> ?act u \<longrightarrow> ?cell u \<noteq> ?cell t"
    proof (intro ballI impI notI)
      fix u assume u: "u \<in> ?T" "u \<noteq> t" "?act u" "?cell u = ?cell t"
      with cell_inj [of "thr_y BY u" nC "thr_x BX u" "thr_y BY t" "thr_x BX t"] True
      have "thr_y BY u = thr_y BY t" "thr_x BX u = thr_x BX t" by auto
      with grid_threads_inj [OF u(1) t] u(2) show False by simp
    qed
    have "?I ?s'" using I lt by auto
    moreover have "?P t ?s'" using Q True I lt n by simp
    moreover have "\<forall>u\<in>?T. u \<noteq> t \<longrightarrow> (?P u s \<longrightarrow> ?P u ?s') \<and> (?Q u s \<longrightarrow> ?Q u ?s')"
      using other by (auto simp: nth_list_update)
    ultimately show ?thesis using ks by blast
  qed
  have "\<exists>s'. run_threads k (grid_threads (gx, gy) (BX, BY)) s0 = Some s' \<and> ?I s' \<and>
          (\<forall>u\<in>{} \<union> ?T. ?P u s')"
    by (rule run_threads_post [where T = ?T and I = ?I and Q = ?Q and P = ?P, OF step])
       (simp_all add: grid_threads_distinct len)
  then obtain s' where s': "run_threads k (grid_threads (gx, gy) (BX, BY)) s0 = Some s'"
    "?I s'" "\<forall>u\<in>?T. ?P u s'" by auto
  have "s' ! (cls * nC + cas) = w cls cas (s0 ! (cls * nC + cas))" if "cls < nO" "cas < nC" for cls cas
  proof -
    from that cov have "cas < gx * BX" "cls < gy * BY" by simp_all
    from grid_threads_cover [OF this] obtain c where "c \<in> ?T" "thr_x BX c = cas" "thr_y BY c = cls"
      by blast
    with s'(3) that show ?thesis by auto
  qed
  with s' show ?thesis by (auto simp: launch_def)
qed

subsection \<open>Bodies of the gradient kernels\<close>

lemma cell_lt:
  fixes nC :: nat
  assumes "cls < nO \<and> cas < nC" "nO * nC \<le> n"
  shows "cls * nC + cas < n"
  using cell_bound [of cls nO cas nC] assms by simp

lemma rd_cell:
  assumes "cls * nC + cas < length b"
  shows "rd b (int cls * int nC + int cas) = Some (b ! (cls * nC + cas))"
proof -
  have e: "int cls * int nC + int cas = int (cls * nC + cas)" by simp
  show ?thesis unfolding e rd_def using assms by (simp del: of_nat_add of_nat_mult)
qed

lemma store_cell:
  assumes "cls * nC + cas < length b"
  shows "store add b (int cls * int nC + int cas) v =
     Some (b[cls * nC + cas := (if add then b ! (cls * nC + cas) else 0) + v])"
proof -
  have e: "int cls * int nC + int cas = int (cls * nC + cas)" by simp
  show ?thesis unfolding e store_def rd_def wr_def using assms
    by (simp del: of_nat_add of_nat_mult)
qed

lemma rd_vec: "cas < length b \<Longrightarrow> rd b (int cas) = Some (b ! cas)"
  by (simp add: rd_def)

lemma wr_vec: "cas < length b \<Longrightarrow> wr b (int cas) v = Some (b[cas := v])"
  by (simp add: wr_def)

lemma kLogregCostGrad_body:
  assumes "nC \<le> length labels" "nO * nC \<le> length y_l" "nO * nC \<le> length s"
  shows "kLogregCostGrad add BX BY c y_l labels s (int nC) (int nO) gradCoeff =
     Some (if thr_y BY c < nO \<and> thr_x BX c < nC
           then s[thr_y BY c * nC + thr_x BX c :=
                  (if add then s ! (thr_y BY c * nC + thr_x BX c) else 0) +
                  fdividef (gradCoeff * b2f (float2int (labels ! thr_x BX c) = int (thr_y BY c)))
                           (y_l ! (thr_y BY c * nC + thr_x BX c))]
           else s)"
proof (cases "thr_y BY c < nO \<and> thr_x BX c < nC")
  case True
  note lt = cell_lt [OF True]
  show ?thesis
    unfolding kLogregCostGrad_def thr_x_def [symmetric] thr_y_def [symmetric]
    using True assms lt [of "length y_l"] lt [of "length s"]
    by (simp add: Let_def rd_cell store_cell rd_vec)
next
  case False
  then show ?thesis
    unfolding kLogregCostGrad_def thr_x_def [symmetric] thr_y_def [symmetric]
    by (auto simp: Let_def)
qed

lemma fdividef_ext_real: "b \<noteq> 0 \<Longrightarrow> fdividef_ext a b = Some (fdividef a b)"
  by (simp add: fdividef_ext_def fdividef_def)

lemma store_ext_cell:
  assumes "cls * nC + cas < length b"
  shows "store_ext add b (int cls * int nC + int cas) v =
     Some (b[cls * nC + cas := (if add then fadd (b ! (cls * nC + cas)) v else v)])"
proof -
  have e: "int cls * int nC + int cas = int (cls * nC + cas)" by simp
  show ?thesis unfolding e store_ext_def rd_def wr_def using assms
    by (simp del: of_nat_add of_nat_mult)
qed

lemma kLogregCostGrad_ext_body:
  assumes "nC \<le> length labels" "nO * nC \<le> length y_l" "nO * nC \<le> length s"
  shows "kLogregCostGrad_ext add BX BY c y_l labels s (int nC) (int nO) gradCoeff =
     Some (if thr_y BY c < nO \<and> thr_x BX c < nC
           then s[thr_y BY c * nC + thr_x BX c :=
                  (let q = fdividef_ext (gradCoeff * b2f (float2int (labels ! thr_x BX c) = int (thr_y BY c)))
                             (y_l ! (thr_y BY c * nC + thr_x BX c))
                   in if add then fadd (s ! (thr_y BY c * nC + thr_x BX c)) q else q)]
           else s)"
proof (cases "thr_y BY c < nO \<and> thr_x BX c < nC")
  case True
  note lt = cell_lt [OF True]
  show ?thesis
    unfolding kLogregCostGrad_ext_def thr_x_def [symmetric] thr_y_def [symmetric]
    using True assms lt [of "length y_l"] lt [of "length s"]
    by (simp add: Let_def rd_cell store_ext_cell rd_vec)
next
  case False
  then show ?thesis
    unfolding kLogregCostGrad_ext_def thr_x_def [symmetric] thr_y_def [symmetric]
    by (auto simp: Let_def)
qed

text \<open>On a cell whose probability is not zero the two models of the kernel agree.\<close>

lemma kLogregCostGrad_ext_agrees:
  assumes "nC \<le> length labels" "nO * nC \<le> length y_l" "nO * nC \<le> length s"
    and "thr_y BY c < nO \<and> thr_x BX c < nC \<longrightarrow> y_l ! (thr_y BY c * nC + thr_x BX c) \<noteq> 0"
  shows "kLogregCostGrad_ext add BX BY c y_l labels (map Some s) (int nC) (int nO) gradCoeff =
         map_option (map Some)
           (kLogregCostGrad add BX BY c y_l labels s (int nC) (int nO) gradCoeff)"
proof (cases "thr_y BY c < nO \<and> thr_x BX c < nC")
  case True
  note lt = cell_lt [OF True, of "length s"]
  show ?thesis
    using True assms lt
    by (simp add: kLogregCostGrad_ext_body kLogregCostGrad_body Let_def fdividef_ext_real
        fadd_def map_update)
next
  case False
  then show ?thesis using assms
    by (auto simp: kLogregCostGrad_ext_body kLogregCostGrad_body)
qed

lemma kRLogCostGrad_body:
  assumes "nC \<le> length labels" "nC \<le> length weights" "nO * nC \<le> length y_l"
    "nO * nC \<le> length s"
  shows "kRLogCostGrad add BX BY c y_l labels s weights (int nC) (int nO) gradCoeff =
     Some (if thr_y BY c < nO \<and> thr_x BX c < nC
           then s[thr_y BY c * nC + thr_x BX c :=
                  (if add then s ! (thr_y BY c * nC + thr_x BX c) else 0) +
                  fdividef (weights ! thr_x BX c * gradCoeff *
                              b2f (float2int (labels ! thr_x BX c) = int (thr_y BY c)))
                           (y_l ! (thr_y BY c * nC + thr_x BX c))]
           else s)"
proof (cases "thr_y BY c < nO \<and> thr_x BX c < nC")
  case True
  note lt = cell_lt [OF True]
  show ?thesis
    unfolding kRLogCostGrad_def thr_x_def [symmetric] thr_y_def [symmetric]
    using True assms lt [of "length y_l"] lt [of "length s"]
    by (simp add: Let_def rd_cell store_cell rd_vec)
next
  case False
  then show ?thesis
    unfolding kRLogCostGrad_def thr_x_def [symmetric] thr_y_def [symmetric]
    by (auto simp: Let_def)
qed

lemma kL2SVMGrad_body:
  assumes "nC \<le> length labels" "nO * nC \<le> length y_l" "nO * nC \<le> length s"
  shows "kL2SVMGrad add BX BY c y_l labels s (int nC) (int nO) gradCoeff =
     Some (if thr_y BY c < nO \<and> thr_x BX c < nC
           then s[thr_y BY c * nC + thr_x BX c :=
                  (if add then s ! (thr_y BY c * nC + thr_x BX c) else 0) +
                  (let t = (if float2int (labels ! thr_x BX c) = int (thr_y BY c) then 1 else - 1);
                       act = 1 - t * y_l ! (thr_y BY c * nC + thr_x BX c)
                   in gradCoeff * t * (fmaxf act 0 + (3 / 10) * b2f (act > 0)))]
           else s)"
proof (cases "thr_y BY c < nO \<and> thr_x BX c < nC")
  case True
  note lt = cell_lt [OF True]
  show ?thesis
    unfolding kL2SVMGrad_def thr_x_def [symmetric] thr_y_def [symmetric]
    using True assms lt [of "length y_l"] lt [of "length s"]
    by (simp add: Let_def rd_cell store_cell rd_vec)
next
  case False
  then show ?thesis
    unfolding kL2SVMGrad_def thr_x_def [symmetric] thr_y_def [symmetric]
    by (auto simp: Let_def)
qed

lemma kLogregSoftmaxGrad_body:
  assumes "nC \<le> length labels" "nO * nC \<le> length y_l" "nO * nC \<le> length s"
  shows "kLogregSoftmaxGrad add BX BY c y_l labels s (int nC) (int nO) gradCoeff =
     Some (if thr_y BY c < nO \<and> thr_x BX c < nC
           then s[thr_y BY c * nC + thr_x BX c :=
                  (if add then s ! (thr_y BY c * nC + thr_x BX c) else 0) +
                  gradCoeff * (b2f (float2int (labels ! thr_x BX c) = int (thr_y BY c)) -
                               y_l ! (thr_y BY c * nC + thr_x BX c))]
           else s)"
proof (cases "thr_y BY c < nO \<and> thr_x BX c < nC")
  case True
  note lt = cell_lt [OF True]
  show ?thesis
    unfolding kLogregSoftmaxGrad_def thr_x_def [symmetric] thr_y_def [symmetric]
    using True assms lt [of "length y_l"] lt [of "length s"]
    by (simp add: Let_def rd_cell store_cell rd_vec)
next
  case False
  then show ?thesis
    unfolding kLogregSoftmaxGrad_def thr_x_def [symmetric] thr_y_def [symmetric]
    by (auto simp: Let_def)
qed

lemma kRLogSoftmaxGrad_body:
  assumes "nC \<le> length labels" "nC \<le> length probWeights" "nO * nC \<le> length y_l"
    "nO * nC \<le> length s"
  shows "kRLogSoftmaxGrad add BX BY c y_l labels s probWeights (int nC) (int nO) gradCoeff =
     Some (if thr_y BY c < nO \<and> thr_x BX c < nC
           then s[thr_y BY c * nC + thr_x BX c :=
                  (if add then s ! (thr_y BY c * nC + thr_x BX c) else 0) +
                  gradCoeff * (b2f (float2int (labels ! thr_x BX c) = int (thr_y BY c)) -
                               y_l ! (thr_y BY c * nC + thr_x BX c)) * probWeights ! thr_x BX c]
           else s)"
proof (cases "thr_y BY c < nO \<and> thr_x BX c < nC")
  case True
  note lt = cell_lt [OF True]
  show ?thesis
    unfolding kRLogSoftmaxGrad_def thr_x_def [symmetric] thr_y_def [symmetric]
    using True assms lt [of "length y_l"] lt [of "length s"]
    by (simp add: Let_def rd_cell store_cell rd_vec)
next
  case False
  then show ?thesis
    unfolding kRLogSoftmaxGrad_def thr_x_def [symmetric] thr_y_def [symmetric]
    by (auto simp: Let_def)
qed

lemma softmax_loop_sum:
  assumes "tx < nC" "nO * nC \<le> length d" "nO * nC \<le> length y"
  shows "j \<le> nO \<Longrightarrow>
    softmax_loop d y (int nC) (int nO) (int tx) (int ty) (int j) v =
      Some (v + (\<Sum>i = j..<nO. d ! (i * nC + tx) * (b2f (i = ty) - y ! (i * nC + tx))))"
proof (induction "nO - j" arbitrary: j v)
  case 0
  then show ?case by (simp add: softmax_loop.simps [of _ _ _ _ _ _ "int j"])
next
  case (Suc m)
  then have j: "j < nO" and m: "m = nO - Suc j" and le: "Suc j \<le> nO" by simp_all
  have lt: "j * nC + tx < length d" "j * nC + tx < length y"
    using cell_lt [of j nO tx nC] j assms by simp_all
  have s: "int j + 1 = int (Suc j)" by simp
  show ?case
    apply (subst softmax_loop.simps)
    apply (simp only: s Suc.hyps(1) [OF m le])
    using j lt by (simp add: rd_cell sum.atLeast_Suc_lessThan)
qed

lemma numMax_loop_card:
  assumes "tx < nC" "nO * nC \<le> length probs"
  shows "j \<le> nO \<Longrightarrow>
    numMax_loop probs maxp (int nC) (int nO) (int tx) (int j) m =
      Some (m + int (card {i. j \<le> i \<and> i < nO \<and> probs ! (i * nC + tx) = maxp}))"
proof (induction "nO - j" arbitrary: j m)
  case 0
  then have "{i. j \<le> i \<and> i < nO \<and> probs ! (i * nC + tx) = maxp} = {}" by auto
  with 0 show ?case by (simp add: numMax_loop.simps [of _ _ _ _ _ "int j"])
next
  case (Suc k)
  then have j: "j < nO" and k: "k = nO - Suc j" and le: "Suc j \<le> nO" by simp_all
  have lt: "j * nC + tx < length probs"
    using cell_lt [of j nO tx nC] j assms by simp
  have s: "int j + 1 = int (Suc j)" by simp
  let ?S = "\<lambda>j. {i. j \<le> i \<and> i < nO \<and> probs ! (i * nC + tx) = maxp}"
  have fin: "finite (?S (Suc j))" by simp
  have split: "?S j = (if probs ! (j * nC + tx) = maxp then insert j (?S (Suc j)) else ?S (Suc j))"
    using j by (auto simp: Suc_le_eq le_less)
  have card: "int (card (?S j)) = (if probs ! (j * nC + tx) = maxp then 1 else 0) + int (card (?S (Suc j)))"
    unfolding split using fin by (simp add: card_insert_if)
  show ?case
    apply (subst numMax_loop.simps)
    apply (simp only: s Suc.hyps(1) [OF k le])
    using j lt card by (simp add: rd_cell)
qed

lemma kSoftmaxGrad_body:
  assumes "nO * nC \<le> length d" "nO * nC \<le> length y_l" "nO * nC \<le> length s"
  shows "kSoftmaxGrad add BX BY c d y_l s (int nC) (int nO) =
     Some (if thr_y BY c < nO \<and> thr_x BX c < nC
           then s[thr_y BY c * nC + thr_x BX c :=
                  (if add then s ! (thr_y BY c * nC + thr_x BX c) else 0) +
                  (\<Sum>j = 0..<nO. d ! (j * nC + thr_x BX c) *
                       (b2f (j = thr_y BY c) - y_l ! (j * nC + thr_x BX c))) *
                  y_l ! (thr_y BY c * nC + thr_x BX c)]
           else s)"
proof (cases "thr_y BY c < nO \<and> thr_x BX c < nC")
  case True
  note lt = cell_lt [OF True]
  have loop: "softmax_loop d y_l (int nC) (int nO) (int (thr_x BX c)) (int (thr_y BY c)) 0 0 =
      Some (\<Sum>j = 0..<nO. d ! (j * nC + thr_x BX c) *
                       (b2f (j = thr_y BY c) - y_l ! (j * nC + thr_x BX c)))"
    using softmax_loop_sum [of "thr_x BX c" nC nO d y_l 0 "thr_y BY c" 0] True assms by simp
  show ?thesis
    unfolding kSoftmaxGrad_def thr_x_def [symmetric] thr_y_def [symmetric]
    using True assms lt [of "length y_l"] lt [of "length s"]
    by (simp add: Let_def rd_cell store_cell loop)
next
  case False
  then show ?thesis
    unfolding kSoftmaxGrad_def thr_x_def [symmetric] thr_y_def [symmetric]
    by (auto simp: Let_def)
qed

subsection \<open>Bodies and launches of the cost kernels\<close>

lemma launch_cases:
  fixes k :: "cuda_thread \<Rightarrow> 's \<Rightarrow> 's option"
  assumes body: "\<And>c s. I s \<Longrightarrow> k c s = Some (if thr_x BX c < nC then u (thr_x BX c) s else s)"
    and inv: "\<And>x s. x < nC \<Longrightarrow> I s \<Longrightarrow> I (u x s)"
    and post: "\<And>x s. x < nC \<Longrightarrow> I s \<Longrightarrow> R x (u x s)"
    and stable: "\<And>x x' s. x < nC \<Longrightarrow> x' < nC \<Longrightarrow> x \<noteq> x' \<Longrightarrow> I s \<Longrightarrow> R x' s \<Longrightarrow> R x' (u x s)"
    and init: "I s0" and cov: "nC \<le> gx * BX"
  shows "\<exists>s'. launch k (gx, 1) (BX, 1) s0 = Some s' \<and> I s' \<and> (\<forall>x<nC. R x s')"
proof -
  let ?T = "set (grid_threads (gx, 1) (BX, 1))"
  let ?P = "\<lambda>c s. thr_x BX c < nC \<longrightarrow> R (thr_x BX c) s"
  have step: "\<exists>s'. k t s = Some s' \<and> I s' \<and> ?P t s' \<and>
           (\<forall>u\<in>?T. u \<noteq> t \<longrightarrow> (?P u s \<longrightarrow> ?P u s') \<and> (True \<longrightarrow> True))"
    if t: "t \<in> ?T" and I: "I s" for t s
  proof (cases "thr_x BX t < nC")
    case False
    with body [OF I, of t] I show ?thesis by auto
  next
    case True
    have ks: "k t s = Some (u (thr_x BX t) s)" using body [OF I, of t] True by simp
    have other: "\<forall>v\<in>?T. v \<noteq> t \<longrightarrow> thr_x BX v \<noteq> thr_x BX t"
    proof (intro ballI impI notI)
      fix v assume v: "v \<in> ?T" "v \<noteq> t" "thr_x BX v = thr_x BX t"
      from v(1) t have "thr_y 1 v = thr_y 1 t" by (simp add: grid_threads_set thr_y_def)
      with grid_threads_inj [OF v(1) t v(3)] v(2) show False by simp
    qed
    show ?thesis
      using ks inv [OF True I] post [OF True I] other stable [OF True _ _ I] by auto
  qed
  have "\<exists>s'. run_threads k (grid_threads (gx, 1) (BX, 1)) s0 = Some s' \<and> I s' \<and>
          (\<forall>u\<in>{} \<union> ?T. ?P u s')"
    by (rule run_threads_post [where T = ?T and I = I and Q = "\<lambda>c s. True" and P = ?P, OF step])
       (simp_all add: grid_threads_distinct init)
  then obtain s' where s': "run_threads k (grid_threads (gx, 1) (BX, 1)) s0 = Some s'"
    "I s'" "\<forall>u\<in>?T. ?P u s'" by auto
  have "R x s'" if "x < nC" for x
  proof -
    from that cov have "x < gx * BX" "0 < 1 * (1::nat)" by simp_all
    from grid_threads_cover [OF this] obtain c where "c \<in> ?T" "thr_x BX c = x" by blast
    with s'(3) that show ?thesis by auto
  qed
  with s' show ?thesis by (auto simp: launch_def)
qed

lemma valid_label_nat:
  assumes "valid_label labels nO c"
  shows "float2int (labels ! c) = int (label_of labels c)" "label_of labels c < nO"
  using assms unfolding valid_label_def label_of_def by linarith+

lemma label_cell:
  assumes "valid_label labels nO c" "c < nC" "nO * nC \<le> length b"
  shows "rd b (float2int (labels ! c) * int nC + int c) = Some (b ! (label_of labels c * nC + c))"
proof -
  note e = valid_label_nat(1) [OF assms(1)] and lt = valid_label_nat(2) [OF assms(1)]
  from cell_lt [of "label_of labels c" nO c nC "length b"] lt assms
  show ?thesis unfolding e by (simp add: rd_cell)
qed

lemma tie_count_pos:
  assumes "valid_label labels nO c" "probs ! (label_of labels c * nC + c) = maxp"
  shows "1 \<le> card {i. i < nO \<and> probs ! (i * nC + c) = maxp}"
    "card {i. i < nO \<and> probs ! (i * nC + c) = maxp} \<le> nO"
proof -
  let ?S = "{i. i < nO \<and> probs ! (i * nC + c) = maxp}"
  have fin: "finite ?S" by simp
  from assms valid_label_nat(2) [OF assms(1)] have "label_of labels c \<in> ?S" by simp
  then have "?S \<noteq> {}" by blast
  with fin have "card ?S \<noteq> 0" by (simp only: card_eq_0_iff not_False_eq_True simp_thms)
  then show "1 \<le> card ?S" by linarith
  have "?S \<subseteq> {..<nO}" by auto
  from card_mono [OF _ this] show "card ?S \<le> nO" by simp
qed

lemma kLogregCost_body:
  assumes "thr_x ERR_X c < nC \<longrightarrow> valid_label labels nO (thr_x ERR_X c)"
    and "nC \<le> length labels" "nC \<le> length maxProbs" "nO * nC \<le> length probs"
    and "nC \<le> length l" "nC \<le> length p"
  shows "kLogregCost ERR_X c probs labels maxProbs l p (int nC) (int nO) =
     Some (if thr_x ERR_X c < nC
           then (l[thr_x ERR_X c := logf (probs ! (label_of labels (thr_x ERR_X c) * nC + thr_x ERR_X c))],
                 p[thr_x ERR_X c := tie_credit probs labels maxProbs nC nO (thr_x ERR_X c)])
           else (l, p))"
proof (cases "thr_x ERR_X c < nC")
  case True
  have loop: "numMax_loop probs maxp (int nC) (int nO) (int (thr_x ERR_X c)) 0 0 =
      Some (int (card {i. i < nO \<and> probs ! (i * nC + thr_x ERR_X c) = maxp}))" for maxp
    using numMax_loop_card [of "thr_x ERR_X c" nC nO probs 0 maxp 0] True assms by simp
  show ?thesis
    unfolding kLogregCost_def thr_x_def [symmetric]
    using True assms label_cell [of labels nO "thr_x ERR_X c" nC probs]
    by (simp add: Let_def rd_vec wr_vec loop tie_credit_def)
next
  case False
  then show ?thesis unfolding kLogregCost_def thr_x_def [symmetric] by (simp add: Let_def)
qed

lemma kL2SVMCost_body:
  assumes "thr_x ERR_X c < nC \<longrightarrow> valid_label labels nO (thr_x ERR_X c)"
    and "nC \<le> length labels" "nC \<le> length maxActs" "nO * nC \<le> length acts"
    and "nC \<le> length l" "nC \<le> length p"
  shows "kL2SVMCost ERR_X c acts labels maxActs l p (int nC) (int nO) =
     Some (if thr_x ERR_X c < nC
           then (l[thr_x ERR_X c :=
                     fmaxf (1 - acts ! (label_of labels (thr_x ERR_X c) * nC + thr_x ERR_X c)) 0 *
                     fmaxf (1 - acts ! (label_of labels (thr_x ERR_X c) * nC + thr_x ERR_X c)) 0],
                 p[thr_x ERR_X c := tie_credit acts labels maxActs nC nO (thr_x ERR_X c)])
           else (l, p))"
proof (cases "thr_x ERR_X c < nC")
  case True
  have loop: "numMax_loop acts maxp (int nC) (int nO) (int (thr_x ERR_X c)) 0 0 =
      Some (int (card {i. i < nO \<and> acts ! (i * nC + thr_x ERR_X c) = maxp}))" for maxp
    using numMax_loop_card [of "thr_x ERR_X c" nC nO acts 0 maxp 0] True assms by simp
  show ?thesis
    unfolding kL2SVMCost_def thr_x_def [symmetric]
    using True assms label_cell [of labels nO "thr_x ERR_X c" nC acts]
    by (simp add: Let_def rd_vec wr_vec loop tie_credit_def)
next
  case False
  then show ?thesis unfolding kL2SVMCost_def thr_x_def [symmetric] by (simp add: Let_def)
qed

lemma kRLogCost_body:
  assumes "thr_x ERR_X c < nC \<longrightarrow> valid_label labels nO (thr_x ERR_X c)"
    and "nC \<le> length labels" "nC \<le> length maxProbs" "nO * nC \<le> length probs"
    and "nC \<le> length l" "nC \<le> length p" "nC \<le> length w"
  shows "kRLogCost ERR_X c probs labels maxProbs l p w p_pow (int nC) (int nO) =
     Some (if thr_x ERR_X c < nC
           then (l[thr_x ERR_X c := logf (probs ! (label_of labels (thr_x ERR_X c) * nC + thr_x ERR_X c))],
                 p[thr_x ERR_X c := tie_credit probs labels maxProbs nC nO (thr_x ERR_X c)],
                 w[thr_x ERR_X c :=
                     powf (- logf (probs ! (label_of labels (thr_x ERR_X c) * nC + thr_x ERR_X c))
                           + 1 / 1000000) p_pow])
           else (l, p, w))"
proof (cases "thr_x ERR_X c < nC")
  case True
  have loop: "numMax_loop probs maxp (int nC) (int nO) (int (thr_x ERR_X c)) 0 0 =
      Some (int (card {i. i < nO \<and> probs ! (i * nC + thr_x ERR_X c) = maxp}))" for maxp
    using numMax_loop_card [of "thr_x ERR_X c" nC nO probs 0 maxp 0] True assms by simp
  show ?thesis
    unfolding kRLogCost_def thr_x_def [symmetric]
    using True assms label_cell [of labels nO "thr_x ERR_X c" nC probs]
    by (simp add: Let_def rd_vec wr_vec loop tie_credit_def)
next
  case False
  then show ?thesis unfolding kRLogCost_def thr_x_def [symmetric] by (simp add: Let_def)
qed

lemma kLogregCost_launch:
  assumes len: "length labels = nC" "length maxProbs = nC" "length probs = nO * nC"
      "length l0 = nC" "length p0 = nC"
    and valid: "\<forall>c<nC. valid_label labels nO c" and cov: "nC \<le> gx * ERR_X"
  shows "\<exists>l p. launch (\<lambda>c (l, p). kLogregCost ERR_X c probs labels maxProbs l p (int nC) (int nO))
                  (gx, 1) (ERR_X, 1) (l0, p0) = Some (l, p) \<and>
           length l = nC \<and> length p = nC \<and>
           (\<forall>c<nC. l ! c = logf (probs ! (label_of labels c * nC + c)) \<and>
                    p ! c = tie_credit probs labels maxProbs nC nO c)"
proof -
  let ?k = "\<lambda>c (l, p). kLogregCost ERR_X c probs labels maxProbs l p (int nC) (int nO)"
  let ?I = "\<lambda>(l, p). length l = nC \<and> length p = nC"
  let ?u = "\<lambda>x (l, p). (l[x := logf (probs ! (label_of labels x * nC + x))],
                          p[x := tie_credit probs labels maxProbs nC nO x])"
  let ?R = "\<lambda>x (l, p). l ! x = logf (probs ! (label_of labels x * nC + x)) \<and>
                         p ! x = tie_credit probs labels maxProbs nC nO x"
  have body: "?k c s = Some (if thr_x ERR_X c < nC then ?u (thr_x ERR_X c) s else s)"
    if "?I s" for c s
    using that valid len
      kLogregCost_body [of ERR_X c nC labels nO maxProbs probs "fst s" "snd s"]
    by (cases s) simp
  have "\<exists>s'. launch ?k (gx, 1) (ERR_X, 1) (l0, p0) = Some s' \<and> ?I s' \<and> (\<forall>x<nC. ?R x s')"
    by (rule launch_cases [where I = ?I and u = ?u and R = ?R, OF body])
       (auto simp: len cov)
  then show ?thesis by auto
qed

lemma kL2SVMCost_launch:
  assumes len: "length labels = nC" "length maxActs = nC" "length acts = nO * nC"
      "length l0 = nC" "length p0 = nC"
    and valid: "\<forall>c<nC. valid_label labels nO c" and cov: "nC \<le> gx * ERR_X"
  shows "\<exists>l p. launch (\<lambda>c (l, p). kL2SVMCost ERR_X c acts labels maxActs l p (int nC) (int nO))
                  (gx, 1) (ERR_X, 1) (l0, p0) = Some (l, p) \<and>
           length l = nC \<and> length p = nC \<and>
           (\<forall>c<nC. l ! c = fmaxf (1 - acts ! (label_of labels c * nC + c)) 0 *
                            fmaxf (1 - acts ! (label_of labels c * nC + c)) 0 \<and>
                    p ! c = tie_credit acts labels maxActs nC nO c)"
proof -
  let ?k = "\<lambda>c (l, p). kL2SVMCost ERR_X c acts labels maxActs l p (int nC) (int nO)"
  let ?I = "\<lambda>(l, p). length l = nC \<and> length p = nC"
  let ?f = "\<lambda>x. fmaxf (1 - acts ! (label_of labels x * nC + x)) 0 *
                 fmaxf (1 - acts ! (label_of labels x * nC + x)) 0"
  let ?u = "\<lambda>x (l, p). (l[x := ?f x], p[x := tie_credit acts labels maxActs nC nO x])"
  let ?R = "\<lambda>x (l, p). l ! x = ?f x \<and> p ! x = tie_credit acts labels maxActs nC nO x"
  have body: "?k c s = Some (if thr_x ERR_X c < nC then ?u (thr_x ERR_X c) s else s)"
    if "?I s" for c s
    using that valid len
      kL2SVMCost_body [of ERR_X c nC labels nO maxActs acts "fst s" "snd s"]
    by (cases s) simp
  have "\<exists>s'. launch ?k (gx, 1) (ERR_X, 1) (l0, p0) = Some s' \<and> ?I s' \<and> (\<forall>x<nC. ?R x s')"
    by (rule launch_cases [where I = ?I and u = ?u and R = ?R, OF body])
       (auto simp: len cov)
  then show ?thesis by auto
qed

lemma kRLogCost_launch:
  assumes len: "length labels = nC" "length maxProbs = nC" "length probs = nO * nC"
      "length l0 = nC" "length p0 = nC" "length w0 = nC"
    and valid: "\<forall>c<nC. valid_label labels nO c" and cov: "nC \<le> gx * ERR_X"
  shows "\<exists>l p w. launch (\<lambda>c (l, p, w). kRLogCost ERR_X c probs labels maxProbs l p w p_pow
                                        (int nC) (int nO))
                  (gx, 1) (ERR_X, 1) (l0, p0, w0) = Some (l, p, w) \<and>
           length l = nC \<and> length p = nC \<and> length w = nC \<and>
           (\<forall>c<nC. l ! c = logf (probs ! (label_of labels c * nC + c)) \<and>
                    p ! c = tie_credit probs labels maxProbs nC nO c \<and>
                    w ! c = powf (- logf (probs ! (label_of labels c * nC + c)) + 1 / 1000000) p_pow)"
proof -
  let ?k = "\<lambda>c (l, p, w). kRLogCost ERR_X c probs labels maxProbs l p w p_pow (int nC) (int nO)"
  let ?I = "\<lambda>(l, p, w). length l = nC \<and> length p = nC \<and> length w = nC"
  let ?f = "\<lambda>x. logf (probs ! (label_of labels x * nC + x))"
  let ?g = "\<lambda>x. powf (- logf (probs ! (label_of labels x * nC + x)) + 1 / 1000000) p_pow"
  let ?u = "\<lambda>x (l, p, w). (l[x := ?f x], p[x := tie_credit probs labels maxProbs nC nO x],
                             w[x := ?g x])"
  let ?R = "\<lambda>x (l, p, w). l ! x = ?f x \<and> p ! x = tie_credit probs labels maxProbs nC nO x \<and>
                            w ! x = ?g x"
  have body: "?k c s = Some (if thr_x ERR_X c < nC then ?u (thr_x ERR_X c) s else s)"
    if "?I s" for c s
    using that valid len
      kRLogCost_body [of ERR_X c nC labels nO maxProbs probs "fst s" "fst (snd s)" "snd (snd s)"]
    by (cases s) simp
  have "\<exists>s'. launch ?k (gx, 1) (ERR_X, 1) (l0, p0, w0) = Some s' \<and> ?I s' \<and> (\<forall>x<nC. ?R x s')"
    by (rule launch_cases [where I = ?I and u = ?u and R = ?R, OF body])
       (auto simp: len cov)
  then show ?thesis by auto
qed

lemma tie_credit_range:
  assumes "valid_label labels nO c"
  shows "tie_credit probs labels maxProbs nC nO c \<in> {0} \<union> {1 / real k |k. 1 \<le> k \<and> k \<le> nO}"
  using tie_count_pos [OF assms, of probs nC "maxProbs ! c"]
  by (auto simp: tie_credit_def)

subsection \<open>Launches of the gradient kernels\<close>

lemma kLogregCostGrad_launch:
  assumes "length labels = nC" "length y_l = nO * nC"
    and len_t: "length t0 = nO * nC" and cov: "nC \<le> gx * BX" "nO \<le> gy * BY"
  shows "\<exists>t'. launch (\<lambda>c t. kLogregCostGrad add BX BY c y_l labels t (int nC) (int nO) gradCoeff)
                 (gx, gy) (BX, BY) t0 = Some t' \<and>
           length t' = nO * nC \<and>
           (\<forall>cls<nO. \<forall>cas<nC.
              t' ! (cls * nC + cas) =
                (if add then t0 ! (cls * nC + cas) else 0) +
                fdividef (gradCoeff * b2f (float2int (labels ! cas) = int cls)) (y_l ! (cls * nC + cas)))"
proof -
  let ?k = "\<lambda>c t. kLogregCostGrad add BX BY c y_l labels t (int nC) (int nO) gradCoeff"
  let ?w = "\<lambda>cls cas (old::real). (if add then old else 0) +
      fdividef (gradCoeff * b2f (float2int (labels ! cas) = int cls)) (y_l ! (cls * nC + cas))"
  have body: "?k c s = Some (if thr_y BY c < nO \<and> thr_x BX c < nC
                    then s[thr_y BY c * nC + thr_x BX c :=
                           ?w (thr_y BY c) (thr_x BX c) (s ! (thr_y BY c * nC + thr_x BX c))]
                    else s)" if "length s = nO * nC" for c s
    using kLogregCostGrad_body [where s = s and c = c and nC = nC and nO = nO and add = add
        and BX = BX and BY = BY] assms that
    by simp
  from launch_cells [of "nO * nC" ?k BY nO BX nC ?w t0 gx gy, OF body le_refl len_t cov]
  show ?thesis by blast
qed

lemma kLogregCostGrad_ext_launch:
  assumes "length labels = nC" "length y_l = nO * nC"
    and len_t: "length t0 = nO * nC" and cov: "nC \<le> gx * BX" "nO \<le> gy * BY"
  shows "\<exists>t'. launch (\<lambda>c t. kLogregCostGrad_ext add BX BY c y_l labels t (int nC) (int nO) gradCoeff)
                 (gx, gy) (BX, BY) t0 = Some t' \<and>
           length t' = nO * nC \<and>
           (\<forall>cls<nO. \<forall>cas<nC.
              t' ! (cls * nC + cas) =
                (let q = fdividef_ext (gradCoeff * b2f (float2int (labels ! cas) = int cls))
                           (y_l ! (cls * nC + cas))
                 in if add then fadd (t0 ! (cls * nC + cas)) q else q))"
proof -
  let ?k = "\<lambda>c t. kLogregCostGrad_ext add BX BY c y_l labels t (int nC) (int nO) gradCoeff"
  let ?w = "\<lambda>cls cas (old::fval).
      (let q = fdividef_ext (gradCoeff * b2f (float2int (labels ! cas) = int cls))
                 (y_l ! (cls * nC + cas))
       in if add then fadd old q else q)"
  have body: "?k c s = Some (if thr_y BY c < nO \<and> thr_x BX c < nC
                    then s[thr_y BY c * nC + thr_x BX c :=
                           ?w (thr_y BY c) (thr_x BX c) (s ! (thr_y BY c * nC + thr_x BX c))]
                    else s)" if "length s = nO * nC" for c s
    using kLogregCostGrad_ext_body [where s = s and c = c and nC = nC and nO = nO and add = add
        and BX = BX and BY = BY] assms that
    by simp
  from launch_cells [of "nO * nC" ?k BY nO BX nC ?w t0 gx gy, OF body le_refl len_t cov]
  show ?thesis by blast
qed

lemma kRLogCostGrad_launch:
  assumes "length labels = nC" "length weights = nC" "length y_l = nO * nC"
    and len_t: "length t0 = nO * nC" and cov: "nC \<le> gx * BX" "nO \<le> gy * BY"
  shows "\<exists>t'. launch (\<lambda>c t. kRLogCostGrad add BX BY c y_l labels t weights (int nC) (int nO) gradCoeff)
                 (gx, gy) (BX, BY) t0 = Some t' \<and>
           length t' = nO * nC \<and>
           (\<forall>cls<nO. \<forall>cas<nC.
              t' ! (cls * nC + cas) =
                (if add then t0 ! (cls * nC + cas) else 0) +
                fdividef (weights ! cas * gradCoeff * b2f (float2int (labels ! cas) = int cls)) (y_l ! (cls * nC + cas)))"
proof -
  let ?k = "\<lambda>c t. kRLogCostGrad add BX BY c y_l labels t weights (int nC) (int nO) gradCoeff"
  let ?w = "\<lambda>cls cas (old::real). (if add then old else 0) +
      fdividef (weights ! cas * gradCoeff * b2f (float2int (labels ! cas) = int cls)) (y_l ! (cls * nC + cas))"
  have body: "?k c s = Some (if thr_y BY c < nO \<and> thr_x BX c < nC
                    then s[thr_y BY c * nC + thr_x BX c :=
                           ?w (thr_y BY c) (thr_x BX c) (s ! (thr_y BY c * nC + thr_x BX c))]
                    else s)" if "length s = nO * nC" for c s
    using kRLogCostGrad_body [where s = s and c = c and nC = nC and nO = nO and add = add
        and BX = BX and BY = BY] assms that
    by simp
  from launch_cells [of "nO * nC" ?k BY nO BX nC ?w t0 gx gy, OF body le_refl len_t cov]
  show ?thesis by blast
qed

lemma kSoftmaxGrad_launch:
  assumes "length d = nO * nC" "length y_l = nO * nC"
    and len_t: "length t0 = nO * nC" and cov: "nC \<le> gx * BX" "nO \<le> gy * BY"
  shows "\<exists>t'. launch (\<lambda>c t. kSoftmaxGrad add BX BY c d y_l t (int nC) (int nO))
                 (gx, gy) (BX, BY) t0 = Some t' \<and>
           length t' = nO * nC \<and>
           (\<forall>cls<nO. \<forall>cas<nC.
              t' ! (cls * nC + cas) =
                (if add then t0 ! (cls * nC + cas) else 0) +
                (\<Sum>j = 0..<nO. d ! (j * nC + cas) * (b2f (j = cls) - y_l ! (j * nC + cas))) * y_l ! (cls * nC + cas))"
proof -
  let ?k = "\<lambda>c t. kSoftmaxGrad add BX BY c d y_l t (int nC) (int nO)"
  let ?w = "\<lambda>cls cas (old::real). (if add then old else 0) +
      (\<Sum>j = 0..<nO. d ! (j * nC + cas) * (b2f (j = cls) - y_l ! (j * nC + cas))) * y_l ! (cls * nC + cas)"
  have body: "?k c s = Some (if thr_y BY c < nO \<and> thr_x BX c < nC
                    then s[thr_y BY c * nC + thr_x BX c :=
                           ?w (thr_y BY c) (thr_x BX c) (s ! (thr_y BY c * nC + thr_x BX c))]
                    else s)" if "length s = nO * nC" for c s
    using kSoftmaxGrad_body [where s = s and c = c and nC = nC and nO = nO and add = add
        and BX = BX and BY = BY] assms that
    by simp
  from launch_cells [of "nO * nC" ?k BY nO BX nC ?w t0 gx gy, OF body le_refl len_t cov]
  show ?thesis by blast
qed

lemma kL2SVMGrad_launch:
  assumes "length labels = nC" "length y_l = nO * nC"
    and len_t: "length t0 = nO * nC" and cov: "nC \<le> gx * BX" "nO \<le> gy * BY"
  shows "\<exists>t'. launch (\<lambda>c t. kL2SVMGrad add BX BY c y_l labels t (int nC) (int nO) gradCoeff)
                 (gx, gy) (BX, BY) t0 = Some t' \<and>
           length t' = nO * nC \<and>
           (\<forall>cls<nO. \<forall>cas<nC.
              t' ! (cls * nC + cas) =
                (if add then t0 ! (cls * nC + cas) else 0) +
                (let t = (if float2int (labels ! cas) = int cls then 1 else - 1);
            act = 1 - t * y_l ! (cls * nC + cas)
        in gradCoeff * t * (fmaxf act 0 + (3 / 10) * b2f (act > 0))))"
proof -
  let ?k = "\<lambda>c t. kL2SVMGrad add BX BY c y_l labels t (int nC) (int nO) gradCoeff"
  let ?w = "\<lambda>cls cas (old::real). (if add then old else 0) +
      (let t = (if float2int (labels ! cas) = int cls then 1 else - 1);
            act = 1 - t * y_l ! (cls * nC + cas)
        in gradCoeff * t * (fmaxf act 0 + (3 / 10) * b2f (act > 0)))"
  have body: "?k c s = Some (if thr_y BY c < nO \<and> thr_x BX c < nC
                    then s[thr_y BY c * nC + thr_x BX c :=
                           ?w (thr_y BY c) (thr_x BX c) (s ! (thr_y BY c * nC + thr_x BX c))]
                    else s)" if "length s = nO * nC" for c s
    using kL2SVMGrad_body [where s = s and c = c and nC = nC and nO = nO and add = add
        and BX = BX and BY = BY] assms that
    by simp
  from launch_cells [of "nO * nC" ?k BY nO BX nC ?w t0 gx gy, OF body le_refl len_t cov]
  show ?thesis by blast
qed

lemma kLogregSoftmaxGrad_launch:
  assumes "length labels = nC" "length y_l = nO * nC"
    and len_t: "length t0 = nO * nC" and cov: "nC \<le> gx * BX" "nO \<le> gy * BY"
  shows "\<exists>t'. launch (\<lambda>c t. kLogregSoftmaxGrad add BX BY c y_l labels t (int nC) (int nO) gradCoeff)
                 (gx, gy) (BX, BY) t0 = Some t' \<and>
           length t' = nO * nC \<and>
           (\<forall>cls<nO. \<forall>cas<nC.
              t' ! (cls * nC + cas) =
                (if add then t0 ! (cls * nC + cas) else 0) +
                gradCoeff * (b2f (float2int (labels ! cas) = int cls) - y_l ! (cls * nC + cas)))"
proof -
  let ?k = "\<lambda>c t. kLogregSoftmaxGrad add BX BY c y_l labels t (int nC) (int nO) gradCoeff"
  let ?w = "\<lambda>cls cas (old::real). (if add then old else 0) +
      gradCoeff * (b2f (float2int (labels ! cas) = int cls) - y_l ! (cls * nC + cas))"
  have body: "?k c s = Some (if thr_y BY c < nO \<and> thr_x BX c < nC
                    then s[thr_y BY c * nC + thr_x BX c :=
                           ?w (thr_y BY c) (thr_x BX c) (s ! (thr_y BY c * nC + thr_x BX c))]
                    else s)" if "length s = nO * nC" for c s
    using kLogregSoftmaxGrad_body [where s = s and c = c and nC = nC and nO = nO and add = add
        and BX = BX and BY = BY] assms that
    by simp
  from launch_cells [of "nO * nC" ?k BY nO BX nC ?w t0 gx gy, OF body le_refl len_t cov]
  show ?thesis by blast
qed

lemma kRLogSoftmaxGrad_launch:
  assumes "length labels = nC" "length probWeights = nC" "length y_l = nO * nC"
    and len_t: "length t0 = nO * nC" and cov: "nC \<le> gx * BX" "nO \<le> gy * BY"
  shows "\<exists>t'. launch (\<lambda>c t. kRLogSoftmaxGrad add BX BY c y_l labels t probWeights (int nC) (int nO) gradCoeff)
                 (gx, gy) (BX, BY) t0 = Some t' \<and>
           length t' = nO * nC \<and>
           (\<forall>cls<nO. \<forall>cas<nC.
              t' ! (cls * nC + cas) =
                (if add then t0 ! (cls * nC + cas) else 0) +
                gradCoeff * (b2f (float2int (labels ! cas) = int cls) - y_l ! (cls * nC + cas)) * probWeights ! cas)"
proof -
  let ?k = "\<lambda>c t. kRLogSoftmaxGrad add BX BY c y_l labels t probWeights (int nC) (int nO) gradCoeff"
  let ?w = "\<lambda>cls cas (old::real). (if add then old else 0) +
      gradCoeff * (b2f (float2int (labels ! cas) = int cls) - y_l ! (cls * nC + cas)) * probWeights ! cas"
  have body: "?k c s = Some (if thr_y BY c < nO \<and> thr_x BX c < nC
                    then s[thr_y BY c * nC + thr_x BX c :=
                           ?w (thr_y BY c) (thr_x BX c) (s ! (thr_y BY c * nC + thr_x BX c))]
                    else s)" if "length s = nO * nC" for c s
    using kRLogSoftmaxGrad_body [where s = s and c = c and nC = nC and nO = nO and add = add
        and BX = BX and BY = BY] assms that
    by simp
  from launch_cells [of "nO * nC" ?k BY nO BX nC ?w t0 gx gy, OF body le_refl len_t cov]
  show ?thesis by blast
qed

subsection \<open>Grid-stride loops\<close>

lemma stride_class:
  fixes i0 S j :: nat
  assumes "i0 < S"
  shows "(i0 \<le> j \<and> S dvd (j - i0)) \<longleftrightarrow> j mod S = i0"
proof
  assume a: "i0 \<le> j \<and> S dvd (j - i0)"
  then obtain k where "j - i0 = S * k" by (auto simp: dvd_def)
  with a have "j = i0 + S * k" by simp
  with assms show "j mod S = i0" by simp
next
  assume b: "j mod S = i0"
  have "j = S * (j div S) + j mod S" by simp
  with b have "j = S * (j div S) + i0" by simp
  then have "i0 \<le> j" "j - i0 = S * (j div S)" by linarith+
  then show "i0 \<le> j \<and> S dvd (j - i0)" by simp
qed

lemma kEltwiseMaxGrad_loop_result:
  assumes S: "0 < B_X * gridDim_x c"
    and len: "length actGrad = n" "length input = n" "length output = n"
  shows "length t = n \<Longrightarrow>
    \<exists>t'. kEltwiseMaxGrad_loop add B_X c actGrad input output (int n) (int i) t = Some t' \<and>
         length t' = n \<and>
         (\<forall>j<n. t' ! j =
            (if i \<le> j \<and> (B_X * gridDim_x c) dvd (j - i)
             then (if add then t ! j else 0) + actGrad ! j * b2f (output ! j = input ! j)
             else t ! j))"
proof (induction "n - i" arbitrary: i t rule: less_induct)
  case less
  let ?S = "B_X * gridDim_x c"
  show ?case
  proof (cases "i < n")
    case False
    then show ?thesis
      using less.prems by (subst kEltwiseMaxGrad_loop.simps) auto
  next
    case True
    let ?v = "(if add then t ! i else 0) + actGrad ! i * b2f (output ! i = input ! i)"
    let ?t1 = "t[i := ?v]"
    have st: "store add t (int i) (actGrad ! i * b2f (output ! i = input ! i)) = Some ?t1"
      using True less.prems by (simp add: store_def rd_def wr_def)
    have e: "int i + int ?S = int (i + ?S)" by simp
    have unfold: "kEltwiseMaxGrad_loop add B_X c actGrad input output (int n) (int i) t =
        kEltwiseMaxGrad_loop add B_X c actGrad input output (int n) (int (i + ?S)) ?t1"
      apply (subst kEltwiseMaxGrad_loop.simps)
      apply (simp only: e)
      using True len st by (simp add: rd_vec)
    have dec: "n - (i + ?S) < n - i" using True S by linarith
    from less.hyps [OF dec, of ?t1] less.prems
    obtain t' where t': "kEltwiseMaxGrad_loop add B_X c actGrad input output (int n) (int (i + ?S)) ?t1 = Some t'"
      "length t' = n"
      "\<forall>j<n. t' ! j =
            (if i + ?S \<le> j \<and> ?S dvd (j - (i + ?S))
             then (if add then ?t1 ! j else 0) + actGrad ! j * b2f (output ! j = input ! j)
             else ?t1 ! j)"
      by auto
    have "t' ! j = (if i \<le> j \<and> ?S dvd (j - i)
             then (if add then t ! j else 0) + actGrad ! j * b2f (output ! j = input ! j)
             else t ! j)" if j: "j < n" for j
    proof (cases "j = i")
      case True
      with t'(3) j less.prems S show ?thesis by simp
    next
      case False
      have "(i + ?S \<le> j \<and> ?S dvd (j - (i + ?S))) \<longleftrightarrow> (i \<le> j \<and> ?S dvd (j - i))"
      proof
        assume a: "i + ?S \<le> j \<and> ?S dvd (j - (i + ?S))"
        then obtain k where k: "j - (i + ?S) = ?S * k" by (auto simp: dvd_def)
        with a have "j - i = ?S * k + ?S" by linarith
        then have "?S dvd (j - i)" by simp
        with a show "i \<le> j \<and> ?S dvd (j - i)" by simp
      next
        assume b: "i \<le> j \<and> ?S dvd (j - i)"
        with False have "0 < j - i" by simp
        with b have "?S \<le> j - i" by (simp add: dvd_imp_le)
        with b have le: "i + ?S \<le> j" by linarith
        from b obtain k where k: "j - i = ?S * k" by (auto simp: dvd_def)
        with \<open>0 < j - i\<close> obtain k' where k': "k = Suc k'" by (cases k) auto
        from k have "j - i = ?S * k' + ?S" unfolding k' by simp
        with le have "j - (i + ?S) = ?S * k'" by linarith
        then have "?S dvd (j - (i + ?S))" by simp
        with le show "i + ?S \<le> j \<and> ?S dvd (j - (i + ?S))" by simp
      qed
      with t'(3) j False show ?thesis by simp
    qed
    with t'(1,2) unfold show ?thesis by simp
  qed
qed

lemma kEltwiseMaxGrad_launch:
  assumes len: "length actGrad = n" "length input = n" "length output = n" "length t0 = n"
    and pos: "0 < ex" "0 < B_X"
  shows "\<exists>t'. launch (\<lambda>c t. kEltwiseMaxGrad add B_X c actGrad input output t (int n))
                 (ex, 1) (B_X, 1) t0 = Some t' \<and>
           length t' = n \<and>
           (\<forall>j<n. t' ! j = (if add then t0 ! j else 0) +
                           actGrad ! j * b2f (output ! j = input ! j))"
proof -
  let ?k = "\<lambda>c t. kEltwiseMaxGrad add B_X c actGrad input output t (int n)"
  let ?T = "set (grid_threads (ex, 1) (B_X, 1))"
  let ?S = "B_X * ex"
  let ?w = "\<lambda>j. actGrad ! j * b2f (output ! j = input ! j)"
  let ?I = "\<lambda>s. length s = n"
  let ?Q = "\<lambda>c s. \<forall>j<n. j mod ?S = thr_x B_X c \<longrightarrow> s ! j = t0 ! j"
  let ?P = "\<lambda>c s. \<forall>j<n. j mod ?S = thr_x B_X c \<longrightarrow> s ! j = (if add then t0 ! j else 0) + ?w j"
  have Spos: "0 < ?S" using pos by simp
  have step: "\<exists>s'. ?k t s = Some s' \<and> ?I s' \<and> ?P t s' \<and>
           (\<forall>u\<in>?T. u \<noteq> t \<longrightarrow> (?P u s \<longrightarrow> ?P u s') \<and> (?Q u s \<longrightarrow> ?Q u s'))"
    if t: "t \<in> ?T" and I: "?I s" and Q: "?Q t s" for t s
  proof -
    from t have g: "gridDim_x t = ex" and lt: "thr_x B_X t < ?S"
    proof -
      from t show "gridDim_x t = ex" by (simp add: grid_threads_set)
      from t have "blockIdx_x t < ex" "threadIdx_x t < B_X" by (simp_all add: grid_threads_set)
      then have "blockIdx_x t * B_X + threadIdx_x t < blockIdx_x t * B_X + B_X" by simp
      also have "\<dots> = Suc (blockIdx_x t) * B_X" by simp
      also have "\<dots> \<le> ex * B_X" using \<open>blockIdx_x t < ex\<close> by (intro mult_le_mono1) simp
      finally show "thr_x B_X t < ?S" by (simp add: thr_x_def mult.commute)
    qed
    have start: "B_X * blockIdx_x t + threadIdx_x t = thr_x B_X t"
      by (simp add: thr_x_def mult.commute)
    have St: "0 < B_X * gridDim_x t" using Spos g by simp
    from kEltwiseMaxGrad_loop_result [OF St len(1-3) I, of add "thr_x B_X t"] g
    obtain s' where s': "?k t s = Some s'" "length s' = n"
      "\<forall>j<n. s' ! j = (if thr_x B_X t \<le> j \<and> ?S dvd (j - thr_x B_X t)
             then (if add then s ! j else 0) + ?w j else s ! j)"
      unfolding kEltwiseMaxGrad_def start by auto
    have s'': "\<forall>j<n. s' ! j = (if j mod ?S = thr_x B_X t
             then (if add then s ! j else 0) + ?w j else s ! j)"
      using s'(3) stride_class [OF lt] by simp
    have "?P t s'" using s'' Q by auto
    moreover have "\<forall>u\<in>?T. u \<noteq> t \<longrightarrow> (?P u s \<longrightarrow> ?P u s') \<and> (?Q u s \<longrightarrow> ?Q u s')"
    proof (intro ballI impI)
      fix u assume u: "u \<in> ?T" "u \<noteq> t"
      have "thr_x B_X u \<noteq> thr_x B_X t"
      proof
        assume eq: "thr_x B_X u = thr_x B_X t"
        from u(1) t have "thr_y 1 u = thr_y 1 t" by (simp add: grid_threads_set thr_y_def)
        with grid_threads_inj [OF u(1) t eq] u(2) show False by simp
      qed
      with s'' show "(?P u s \<longrightarrow> ?P u s') \<and> (?Q u s \<longrightarrow> ?Q u s')" by auto
    qed
    ultimately show ?thesis using s'(1,2) by blast
  qed
  have "\<exists>s'. run_threads ?k (grid_threads (ex, 1) (B_X, 1)) t0 = Some s' \<and> ?I s' \<and>
          (\<forall>u\<in>{} \<union> ?T. ?P u s')"
    by (rule run_threads_post [where T = ?T and I = ?I and Q = ?Q and P = ?P, OF step])
       (simp_all add: grid_threads_distinct len)
  then obtain s' where s': "run_threads ?k (grid_threads (ex, 1) (B_X, 1)) t0 = Some s'"
    "?I s'" "\<forall>u\<in>?T. ?P u s'" by auto
  have "s' ! j = (if add then t0 ! j else 0) + ?w j" if "j < n" for j
  proof -
    have "j mod ?S < ex * B_X" "0 < 1 * (1::nat)" using Spos by (simp_all add: mult.commute)
    from grid_threads_cover [OF this] obtain c where "c \<in> ?T" "thr_x B_X c = j mod ?S" by blast
    with s'(3) that show ?thesis by auto
  qed
  with s' show ?thesis by (auto simp: launch_def)
qed

subsection \<open>Comparing launches\<close>

lemma add_vs_overwrite:
  fixes nC :: nat
  assumes A: "\<exists>ta. launch kA g b t0 = Some ta \<and> length ta = nO * nC \<and>
               (\<forall>cls<nO. \<forall>cas<nC. ta ! (cls * nC + cas) = t0 ! (cls * nC + cas) + v cls cas)"
    and B: "\<exists>tn. launch kB g b t0 = Some tn \<and> length tn = nO * nC \<and>
               (\<forall>cls<nO. \<forall>cas<nC. tn ! (cls * nC + cas) = v cls cas)"
    and len: "length t0 = nO * nC"
  shows "\<exists>ta tn. launch kA g b t0 = Some ta \<and> launch kB g b t0 = Some tn \<and>
           length ta = length t0 \<and> length tn = length t0 \<and>
           (\<forall>i<length t0. ta ! i = t0 ! i + tn ! i)"
proof -
  from A obtain ta where ta: "launch kA g b t0 = Some ta" "length ta = nO * nC"
    "\<forall>cls<nO. \<forall>cas<nC. ta ! (cls * nC + cas) = t0 ! (cls * nC + cas) + v cls cas" by blast
  from B obtain tn where tn: "launch kB g b t0 = Some tn" "length tn = nO * nC"
    "\<forall>cls<nO. \<forall>cas<nC. tn ! (cls * nC + cas) = v cls cas" by blast
  have "ta ! i = t0 ! i + tn ! i" if "i < nO * nC" for i
  proof -
    from that have pos: "0 < nC" by (cases nC) simp_all
    then have cas: "i mod nC < nC" by simp
    from that have cls: "i div nC < nO" by (simp add: less_mult_imp_div_less)
    have i: "i = i div nC * nC + i mod nC" by simp
    from ta(3) [rule_format, OF cls cas] tn(3) [rule_format, OF cls cas]
    show ?thesis unfolding i [symmetric] by simp
  qed
  with ta(1,2) tn(1,2) len show ?thesis by simp
qed

lemma cells_eqI:
  fixes nC :: nat
  assumes "length a = nO * nC" "length b = nO * nC"
    and "\<And>cls cas. cls < nO \<Longrightarrow> cas < nC \<Longrightarrow> a ! (cls * nC + cas) = b ! (cls * nC + cas)"
  shows "a = b"
proof (rule nth_equalityI)
  show "length a = length b" using assms by simp
  fix i assume "i < length a"
  with assms(1) have i: "i < nO * nC" by simp
  then have pos: "0 < nC" by (cases nC) simp_all
  have "i div nC < nO" using i by (simp add: less_mult_imp_div_less)
  moreover have "i mod nC < nC" using pos by simp
  ultimately have "a ! (i div nC * nC + i mod nC) = b ! (i div nC * nC + i mod nC)"
    by (rule assms(3))
  then show "a ! i = b ! i" by simp
qed

lemma softmax_of_logreg_cell:
  fixes y :: "nat \<Rightarrow> real"
  assumes L: "L < nO" and yL: "y L \<noteq> 0"
  shows "(\<Sum>j = 0..<nO. fdividef (gradCoeff * b2f (int L = int j)) (y j) * (b2f (j = cls) - y j))
           * y cls = gradCoeff * (b2f (int L = int cls) - y cls)"
proof -
  let ?g = "\<lambda>j. fdividef (gradCoeff * b2f (int L = int j)) (y j) * (b2f (j = cls) - y j)"
  have "(\<Sum>j = 0..<nO. ?g j) = (\<Sum>j = 0..<nO. if j = L then ?g L else 0)"
    by (rule sum.cong) (auto simp: b2f_def fdividef_def)
  also have "\<dots> = ?g L" using L by simp
  finally have s: "(\<Sum>j = 0..<nO. ?g j) = gradCoeff / y L * (b2f (L = cls) - y L)"
    by (simp add: b2f_def fdividef_def)
  show ?thesis
  proof (cases "L = cls")
    case True
    with s yL show ?thesis by (simp add: b2f_def field_simps)
  next
    case False
    with s yL show ?thesis by (simp add: b2f_def field_simps)
  qed
qed

subsection \<open>The margin transform kernels\<close>

lemma kL2SVM_G_body:
  assumes "nC \<le> length labels" "nC \<le> length sumZ2" "nO * nC \<le> length racts"
    "nO * nC \<le> length acts" "nO * nC \<le> length s"
  shows "\<exists>s'. kL2SVM_G BX BY c racts acts labels sumZ2 s (int nC) (int nO) C1 C2 eps_w eps_b
           = Some s'"
proof (cases "thr_y BY c < nO \<and> thr_x BX c < nC")
  case True
  note lt = cell_lt [OF True]
  have w: "wr s (int (thr_y BY c) * int nC + int (thr_x BX c)) v =
      Some (s[thr_y BY c * nC + thr_x BX c := v])" for v
    using store_cell [OF lt [of "length s"], of False v] assms by (simp add: store_def)
  show ?thesis
    unfolding kL2SVM_G_def thr_x_def [symmetric] thr_y_def [symmetric]
    using True assms lt [of "length racts"] lt [of "length acts"]
    by (simp add: Let_def rd_cell rd_vec w)
next
  case False
  then show ?thesis
    unfolding kL2SVM_G_def thr_x_def [symmetric] thr_y_def [symmetric]
    by (auto simp: Let_def)
qed

lemma kL2SVM_U_body:
  assumes "nC \<le> length labels" "nO * nC \<le> length acts" "nO * nC \<le> length s"
  shows "\<exists>s'. kL2SVM_U BX BY c acts labels s (int nC) (int nO) C1eps C2eps = Some s'"
proof (cases "thr_y BY c < nO \<and> thr_x BX c < nC")
  case True
  note lt = cell_lt [OF True]
  have w: "wr s (int (thr_y BY c) * int nC + int (thr_x BX c)) v =
      Some (s[thr_y BY c * nC + thr_x BX c := v])" for v
    using store_cell [OF lt [of "length s"], of False v] assms by (simp add: store_def)
  show ?thesis
    unfolding kL2SVM_U_def thr_x_def [symmetric] thr_y_def [symmetric]
    using True assms lt [of "length acts"]
    by (simp add: Let_def rd_cell rd_vec w)
next
  case False
  then show ?thesis
    unfolding kL2SVM_U_def thr_x_def [symmetric] thr_y_def [symmetric]
    by (auto simp: Let_def)
qed

subsection \<open>Faulting launches\<close>

lemma launch_first_fault:
  assumes "0 < gx" "0 < gy" "0 < bx" "0 < by"
    and "k (mk_thread (gx, gy) ((0, 0), (0, 0))) s = None"
  shows "launch k (gx, gy) (bx, by) s = None"
proof -
  have "\<exists>rest. grid_threads (gx, gy) (bx, by) = mk_thread (gx, gy) ((0, 0), (0, 0)) # rest"
    using assms(1-4) by (simp add: grid_threads_def upt_conv_Cons)
  then obtain rest where "grid_threads (gx, gy) (bx, by) = mk_thread (gx, gy) ((0, 0), (0, 0)) # rest" ..
  with assms(5) show ?thesis by (simp add: launch_def)
qed

lemma list2_nth: "length t = 2 \<Longrightarrow> t = [t ! 0, t ! 1]"
  by (cases t; cases "tl t") auto

subsection \<open>The composite activation and its gradient\<close>

lemma kEltwiseFuncGrad_x_result:
  assumes S: "0 < gridDim_x c * B_X"
    and len: "length actGrad = n" "length input0 = n" "length input1 = n" "length input2 = n"
    and row: "y * strd + numCases \<le> n"
  shows "bufs3_len n s \<Longrightarrow>
    \<exists>s'. kEltwiseFuncGrad_x B_X c actGrad input0 input1 input2 p0 p1 p2 p3 p4
            numCases strd y x s = Some s' \<and> bufs3_len n s' \<and>
         (\<forall>i. grad_cell_ok actGrad input0 input1 input2 p0 p1 p2 p3 p4 i s \<longrightarrow>
               grad_cell_ok actGrad input0 input1 input2 p0 p1 p2 p3 p4 i s') \<and>
         (\<forall>x'. x \<le> x' \<and> x' < numCases \<and> (gridDim_x c * B_X) dvd (x' - x) \<longrightarrow>
               grad_cell_ok actGrad input0 input1 input2 p0 p1 p2 p3 p4 (y * strd + x') s')"
proof (induction "numCases - x" arbitrary: x s rule: less_induct)
  case less
  let ?S = "gridDim_x c * B_X"
  let ?W = "grad_cell_ok actGrad input0 input1 input2 p0 p1 p2 p3 p4"
  show ?case
  proof (cases "x < numCases")
    case False
    then show ?thesis
      using less.prems by (subst kEltwiseFuncGrad_x.simps) auto
  next
    case True
    let ?o = "y * strd + x"
    have o: "?o < n" using True row by simp
    let ?s1 = "((fst s)[?o := (1 + p3 * b2f (input0 ! ?o > 0)) * actGrad ! ?o],
                (fst (snd s))[?o := (p0 + p4 * b2f (input1 ! ?o > 0)) * actGrad ! ?o],
                (snd (snd s))[?o := (p1 + p2 * b2f (input2 ! ?o > 0)) * actGrad ! ?o])"
    have unfold: "kEltwiseFuncGrad_x B_X c actGrad input0 input1 input2 p0 p1 p2 p3 p4
            numCases strd y x s =
        kEltwiseFuncGrad_x B_X c actGrad input0 input1 input2 p0 p1 p2 p3 p4
            numCases strd y (x + ?S) ?s1"
      apply (subst kEltwiseFuncGrad_x.simps)
      using True o len less.prems
      by (simp add: rd_vec wr_vec bufs3_len_def Let_def del: of_nat_add of_nat_mult)
    have l1: "bufs3_len n ?s1" using less.prems by (simp add: bufs3_len_def)
    have w1: "?W ?o ?s1" using o less.prems by (simp add: grad_cell_ok_def bufs3_len_def)
    have keep: "?W i s \<longrightarrow> ?W i ?s1" for i
      using o less.prems by (cases "i = ?o") (simp_all add: grad_cell_ok_def bufs3_len_def)
    have dec: "numCases - (x + ?S) < numCases - x" using True S by linarith
    from less.hyps [OF dec l1]
    obtain s' where s': "kEltwiseFuncGrad_x B_X c actGrad input0 input1 input2 p0 p1 p2 p3 p4
            numCases strd y (x + ?S) ?s1 = Some s'" "bufs3_len n s'"
      "\<forall>i. ?W i ?s1 \<longrightarrow> ?W i s'"
      "\<forall>x'. x + ?S \<le> x' \<and> x' < numCases \<and> ?S dvd (x' - (x + ?S)) \<longrightarrow> ?W (y * strd + x') s'"
      by blast
    have "?W (y * strd + x') s'" if x': "x \<le> x'" "x' < numCases" "?S dvd (x' - x)" for x'
    proof (cases "x' = x")
      case True
      with w1 s'(3) show ?thesis by simp
    next
      case False
      with x' have "0 < x' - x" by simp
      from x'(3) obtain k where k: "x' - x = ?S * k" by (auto simp: dvd_def)
      with \<open>0 < x' - x\<close> obtain k' where k': "k = Suc k'" by (cases k) auto
      from k have e: "x' - x = ?S * k' + ?S" unfolding k' by simp
      with x'(1) have le: "x + ?S \<le> x'" by linarith
      from e le have "x' - (x + ?S) = ?S * k'" by linarith
      then have "?S dvd (x' - (x + ?S))" by simp
      with s'(4) le x'(2) show ?thesis by simp
    qed
    with s'(1,2,3) keep unfold show ?thesis by simp
  qed
qed

lemma kEltwiseFuncGrad_y_result:
  assumes Sx: "0 < gridDim_x c * B_X" and Sy: "0 < gridDim_y c * B_Y"
    and len: "length actGrad = n" "length input0 = n" "length input1 = n" "length input2 = n"
    and rows: "imgPixels * strd \<le> n" "numCases \<le> strd"
  shows "bufs3_len n s \<Longrightarrow>
    \<exists>s'. kEltwiseFuncGrad_y B_X B_Y c actGrad input0 input1 input2 p0 p1 p2 p3 p4
            imgPixels numCases strd idxX y s = Some s' \<and> bufs3_len n s' \<and>
         (\<forall>i. grad_cell_ok actGrad input0 input1 input2 p0 p1 p2 p3 p4 i s \<longrightarrow>
               grad_cell_ok actGrad input0 input1 input2 p0 p1 p2 p3 p4 i s') \<and>
         (\<forall>y' x'. y \<le> y' \<and> y' < imgPixels \<and> (gridDim_y c * B_Y) dvd (y' - y) \<and>
                   idxX \<le> x' \<and> x' < numCases \<and> (gridDim_x c * B_X) dvd (x' - idxX) \<longrightarrow>
               grad_cell_ok actGrad input0 input1 input2 p0 p1 p2 p3 p4 (y' * strd + x') s')"
proof (induction "imgPixels - y" arbitrary: y s rule: less_induct)
  case less
  let ?Sx = "gridDim_x c * B_X"
  let ?Sy = "gridDim_y c * B_Y"
  let ?W = "grad_cell_ok actGrad input0 input1 input2 p0 p1 p2 p3 p4"
  show ?case
  proof (cases "y < imgPixels")
    case False
    then show ?thesis
      using less.prems by (subst kEltwiseFuncGrad_y.simps) auto
  next
    case True
    have "y * strd + numCases \<le> y * strd + strd" using rows(2) by simp
    also have "\<dots> = Suc y * strd" by simp
    also have "\<dots> \<le> imgPixels * strd" using True by (intro mult_le_mono1) simp
    finally have row: "y * strd + numCases \<le> n" using rows(1) by simp
    from kEltwiseFuncGrad_x_result [OF Sx len row less.prems, of p0 p1 p2 p3 p4 idxX]
    obtain s1 where s1: "kEltwiseFuncGrad_x B_X c actGrad input0 input1 input2 p0 p1 p2 p3 p4
            numCases strd y idxX s = Some s1" "bufs3_len n s1"
      "\<forall>i. ?W i s \<longrightarrow> ?W i s1"
      "\<forall>x'. idxX \<le> x' \<and> x' < numCases \<and> ?Sx dvd (x' - idxX) \<longrightarrow> ?W (y * strd + x') s1"
      by blast
    have unfold: "kEltwiseFuncGrad_y B_X B_Y c actGrad input0 input1 input2 p0 p1 p2 p3 p4
            imgPixels numCases strd idxX y s =
        kEltwiseFuncGrad_y B_X B_Y c actGrad input0 input1 input2 p0 p1 p2 p3 p4
            imgPixels numCases strd idxX (y + ?Sy) s1"
      apply (subst kEltwiseFuncGrad_y.simps)
      using True s1(1) by simp
    have dec: "imgPixels - (y + ?Sy) < imgPixels - y" using True Sy by linarith
    from less.hyps [OF dec s1(2)]
    obtain s' where s': "kEltwiseFuncGrad_y B_X B_Y c actGrad input0 input1 input2 p0 p1 p2 p3 p4
            imgPixels numCases strd idxX (y + ?Sy) s1 = Some s'" "bufs3_len n s'"
      "\<forall>i. ?W i s1 \<longrightarrow> ?W i s'"
      "\<forall>y' x'. y + ?Sy \<le> y' \<and> y' < imgPixels \<and> ?Sy dvd (y' - (y + ?Sy)) \<and>
                   idxX \<le> x' \<and> x' < numCases \<and> ?Sx dvd (x' - idxX) \<longrightarrow>
               ?W (y' * strd + x') s'"
      by blast
    have "?W (y' * strd + x') s'"
      if y': "y \<le> y'" "y' < imgPixels" "?Sy dvd (y' - y)"
        and x': "idxX \<le> x'" "x' < numCases" "?Sx dvd (x' - idxX)" for y' x'
    proof (cases "y' = y")
      case True
      with s1(4) x' s'(3) show ?thesis by simp
    next
      case False
      with y' have "0 < y' - y" by simp
      from y'(3) obtain k where k: "y' - y = ?Sy * k" by (auto simp: dvd_def)
      with \<open>0 < y' - y\<close> obtain k' where k': "k = Suc k'" by (cases k) auto
      from k have e: "y' - y = ?Sy * k' + ?Sy" unfolding k' by simp
      with y'(1) have le: "y + ?Sy \<le> y'" by linarith
      from e le have "y' - (y + ?Sy) = ?Sy * k'" by linarith
      then have "?Sy dvd (y' - (y + ?Sy))" by simp
      with s'(4) le y'(2) x' show ?thesis by simp
    qed
    with s'(1,2,3) s1(3) unfold show ?thesis by simp
  qed
qed

lemma thr_lt_grid:
  assumes "b < g" "t < B"
  shows "b * B + t < g * (B::nat)"
proof -
  have "b * B + t < b * B + B" using assms by simp
  also have "\<dots> = Suc b * B" by simp
  also have "\<dots> \<le> g * B" using assms(1) by (intro mult_le_mono1) simp
  finally show ?thesis .
qed

lemma kEltwiseFuncGrad_launch:
  assumes len: "length actGrad = n" "length input0 = n" "length input1 = n" "length input2 = n"
      "length t0 = n" "length t1 = n" "length t2 = n"
    and rows: "imgPixels * strd \<le> n" "numCases \<le> strd"
    and pos: "0 < gx" "0 < gy" "0 < B_X" "0 < B_Y"
  shows "\<exists>s'. launch (\<lambda>c (a, b, d). kEltwiseFuncGrad B_X B_Y c actGrad input0 input1 input2 a b d
                           p0 p1 p2 p3 p4 imgPixels numCases strd)
                 (gx, gy) (B_X, B_Y) (t0, t1, t2) = Some s' \<and> bufs3_len n s' \<and>
           (\<forall>y<imgPixels. \<forall>x<numCases.
              grad_cell_ok actGrad input0 input1 input2 p0 p1 p2 p3 p4 (y * strd + x) s')"
proof -
  let ?k = "\<lambda>c (a, b, d). kEltwiseFuncGrad B_X B_Y c actGrad input0 input1 input2 a b d
                           p0 p1 p2 p3 p4 imgPixels numCases strd"
  let ?T = "set (grid_threads (gx, gy) (B_X, B_Y))"
  let ?Sx = "gx * B_X"
  let ?Sy = "gy * B_Y"
  let ?W = "grad_cell_ok actGrad input0 input1 input2 p0 p1 p2 p3 p4"
  let ?I = "bufs3_len n"
  let ?P = "\<lambda>c s. \<forall>y x. y < imgPixels \<and> x < numCases \<and> y mod ?Sy = thr_y B_Y c \<and>
                        x mod ?Sx = thr_x B_X c \<longrightarrow> ?W (y * strd + x) s"
  have Spos: "0 < ?Sx" "0 < ?Sy" using pos by simp_all
  have step: "\<exists>s'. ?k t s = Some s' \<and> ?I s' \<and> ?P t s' \<and>
           (\<forall>u\<in>?T. u \<noteq> t \<longrightarrow> (?P u s \<longrightarrow> ?P u s') \<and> (True \<longrightarrow> True))"
    if t: "t \<in> ?T" and I: "?I s" for t s
  proof -
    from t have g: "gridDim_x t = gx" "gridDim_y t = gy"
      and b: "blockIdx_x t < gx" "threadIdx_x t < B_X" "blockIdx_y t < gy" "threadIdx_y t < B_Y"
      by (simp_all add: grid_threads_set)
    have lt: "thr_x B_X t < ?Sx" "thr_y B_Y t < ?Sy"
      using thr_lt_grid [OF b(1,2)] thr_lt_grid [OF b(3,4)] by (simp_all add: thr_x_def thr_y_def)
    have S': "0 < gridDim_x t * B_X" "0 < gridDim_y t * B_Y" using Spos g by simp_all
    from kEltwiseFuncGrad_y_result [OF S' len(1-4) rows I, of p0 p1 p2 p3 p4 "thr_x B_X t" "thr_y B_Y t"]
    obtain s' where s': "?k t s = Some s'" "?I s'" "\<forall>i. ?W i s \<longrightarrow> ?W i s'"
      "\<forall>y' x'. thr_y B_Y t \<le> y' \<and> y' < imgPixels \<and> ?Sy dvd (y' - thr_y B_Y t) \<and>
                   thr_x B_X t \<le> x' \<and> x' < numCases \<and> ?Sx dvd (x' - thr_x B_X t) \<longrightarrow>
               ?W (y' * strd + x') s'"
      unfolding g by (cases s) (auto simp: kEltwiseFuncGrad_def thr_x_def thr_y_def Let_def)
    have "?P t s'"
      using s'(4) stride_class [OF lt(1)] stride_class [OF lt(2)] by blast
    with s'(1,2,3) show ?thesis by blast
  qed
  have "\<exists>s'. run_threads ?k (grid_threads (gx, gy) (B_X, B_Y)) (t0, t1, t2) = Some s' \<and> ?I s' \<and>
          (\<forall>u\<in>{} \<union> ?T. ?P u s')"
    by (rule run_threads_post [where T = ?T and I = ?I and Q = "\<lambda>c s. True" and P = ?P, OF step])
       (simp_all add: grid_threads_distinct len bufs3_len_def)
  then obtain s' where s': "run_threads ?k (grid_threads (gx, gy) (B_X, B_Y)) (t0, t1, t2) = Some s'"
    "?I s'" "\<forall>u\<in>?T. ?P u s'" by auto
  have "?W (y * strd + x) s'" if "y < imgPixels" "x < numCases" for y x
  proof -
    have "x mod ?Sx < gx * B_X" "y mod ?Sy < gy * B_Y" using Spos by simp_all
    from grid_threads_cover [OF this] obtain c where
      "c \<in> ?T" "thr_x B_X c = x mod ?Sx" "thr_y B_Y c = y mod ?Sy" by blast
    with s'(3) that show ?thesis by auto
  qed
  with s' show ?thesis by (auto simp: launch_def)
qed

lemma fmaxf_deriv:
  assumes "x \<noteq> 0"
  shows "((\<lambda>u. fmaxf u 0) has_real_derivative b2f (x > 0)) (at x)"
proof (cases "x > 0")
  case True
  have "eventually (\<lambda>u. u \<in> {0<..}) (nhds x)"
    by (rule eventually_nhds_in_open) (use True in auto)
  then have ev: "eventually (\<lambda>u. fmaxf u 0 = u) (nhds x)"
    by (rule eventually_mono) (simp add: fmaxf_def)
  have "((\<lambda>u. u) has_real_derivative 1) (at x)" by (rule DERIV_ident)
  with DERIV_cong_ev [OF refl ev refl, of 1] True show ?thesis by (simp add: b2f_def)
next
  case False
  with assms have neg: "x < 0" by simp
  have "eventually (\<lambda>u. u \<in> {..<0}) (nhds x)"
    by (rule eventually_nhds_in_open) (use neg in auto)
  then have ev: "eventually (\<lambda>u. fmaxf u 0 = 0) (nhds x)"
    by (rule eventually_mono) (simp add: fmaxf_def)
  have "((\<lambda>u. 0::real) has_real_derivative 0) (at x)" by (rule DERIV_const)
  with DERIV_cong_ev [OF refl ev refl, of 0] False show ?thesis by (simp add: b2f_def)
qed

lemma EltwiseFuncAct_val_deriv:
  shows "in0 \<noteq> 0 \<Longrightarrow>
      ((\<lambda>u. EltwiseFuncAct_val p0 p1 p2 p3 p4 u in1 in2) has_real_derivative
         (1 + p3 * b2f (in0 > 0))) (at in0)"
    and "in1 \<noteq> 0 \<Longrightarrow>
      ((\<lambda>u. EltwiseFuncAct_val p0 p1 p2 p3 p4 in0 u in2) has_real_derivative
         (p0 + p4 * b2f (in1 > 0))) (at in1)"
    and "in2 \<noteq> 0 \<Longrightarrow>
      ((\<lambda>u. EltwiseFuncAct_val p0 p1 p2 p3 p4 in0 in1 u) has_real_derivative
         (p1 + p2 * b2f (in2 > 0))) (at in2)"
  unfolding EltwiseFuncAct_val_def Let_def
  by (auto intro!: derivative_eq_intros fmaxf_deriv)

lemma stride_next:
  fixes S :: nat
  assumes "x \<le> x'" "S dvd (x' - x)" "x' \<noteq> x"
  shows "x + S \<le> x' \<and> S dvd (x' - (x + S))"
proof -
  from assms(1,3) have "0 < x' - x" by simp
  from assms(2) obtain k where k: "x' - x = S * k" by (auto simp: dvd_def)
  with \<open>0 < x' - x\<close> obtain k' where k': "k = Suc k'" by (cases k) auto
  from k have e: "x' - x = S * k' + S" unfolding k' by simp
  with assms(1) have le: "x + S \<le> x'" by linarith
  from e le have "x' - (x + S) = S * k'" by linarith
  then have "S dvd (x' - (x + S))" by simp
  with le show ?thesis by simp
qed

lemma kEltwiseFuncAct_x_result:
  assumes S: "0 < gridDim_x c * B_X"
    and len: "length input0 = n" "length input1 = n" "length input2 = n"
    and row: "y * strd + numCases \<le> n"
  shows "length s = n \<Longrightarrow>
    \<exists>s'. kEltwiseFuncAct_x B_X c input0 input1 input2 p0 p1 p2 p3 p4
            numCases strd y x s = Some s' \<and> length s' = n \<and>
         (\<forall>i. act_cell_ok input0 input1 input2 p0 p1 p2 p3 p4 i s \<longrightarrow>
               act_cell_ok input0 input1 input2 p0 p1 p2 p3 p4 i s') \<and>
         (\<forall>x'. x \<le> x' \<and> x' < numCases \<and> (gridDim_x c * B_X) dvd (x' - x) \<longrightarrow>
               act_cell_ok input0 input1 input2 p0 p1 p2 p3 p4 (y * strd + x') s')"
proof (induction "numCases - x" arbitrary: x s rule: less_induct)
  case less
  let ?S = "gridDim_x c * B_X"
  let ?W = "act_cell_ok input0 input1 input2 p0 p1 p2 p3 p4"
  show ?case
  proof (cases "x < numCases")
    case False
    then show ?thesis
      using less.prems by (subst kEltwiseFuncAct_x.simps) auto
  next
    case True
    let ?o = "y * strd + x"
    have o: "?o < n" using True row by simp
    let ?s1 = "s[?o := EltwiseFuncAct_val p0 p1 p2 p3 p4 (input0 ! ?o) (input1 ! ?o) (input2 ! ?o)]"
    have unfold: "kEltwiseFuncAct_x B_X c input0 input1 input2 p0 p1 p2 p3 p4
            numCases strd y x s =
        kEltwiseFuncAct_x B_X c input0 input1 input2 p0 p1 p2 p3 p4
            numCases strd y (x + ?S) ?s1"
      apply (subst kEltwiseFuncAct_x.simps)
      using True o len less.prems
      by (simp add: rd_vec wr_vec Let_def del: of_nat_add of_nat_mult)
    have l1: "length ?s1 = n" using less.prems by simp
    have w1: "?W ?o ?s1" using o less.prems by (simp add: act_cell_ok_def)
    have keep: "?W i s \<longrightarrow> ?W i ?s1" for i
      using o less.prems by (cases "i = ?o") (simp_all add: act_cell_ok_def)
    have dec: "numCases - (x + ?S) < numCases - x" using True S by linarith
    from less.hyps [OF dec l1]
    obtain s' where s': "kEltwiseFuncAct_x B_X c input0 input1 input2 p0 p1 p2 p3 p4
            numCases strd y (x + ?S) ?s1 = Some s'" "length s' = n"
      "\<forall>i. ?W i ?s1 \<longrightarrow> ?W i s'"
      "\<forall>x'. x + ?S \<le> x' \<and> x' < numCases \<and> ?S dvd (x' - (x + ?S)) \<longrightarrow> ?W (y * strd + x') s'"
      by blast
    have "?W (y * strd + x') s'" if x': "x \<le> x'" "x' < numCases" "?S dvd (x' - x)" for x'
    proof (cases "x' = x")
      case True
      with w1 s'(3) show ?thesis by simp
    next
      case False
      from stride_next [OF x'(1,3) False] s'(4) x'(2) show ?thesis by simp
    qed
    with s'(1,2,3) keep unfold show ?thesis by simp
  qed
qed

lemma kEltwiseFuncAct_y_result:
  assumes Sx: "0 < gridDim_x c * B_X" and Sy: "0 < gridDim_y c * B_Y"
    and len: "length input0 = n" "length input1 = n" "length input2 = n"
    and rows: "imgPixels * strd \<le> n" "numCases \<le> strd"
  shows "length s = n \<Longrightarrow>
    \<exists>s'. kEltwiseFuncAct_y B_X B_Y c input0 input1 input2 p0 p1 p2 p3 p4
            imgPixels numCases strd idxX y s = Some s' \<and> length s' = n \<and>
         (\<forall>i. act_cell_ok input0 input1 input2 p0 p1 p2 p3 p4 i s \<longrightarrow>
               act_cell_ok input0 input1 input2 p0 p1 p2 p3 p4 i s') \<and>
         (\<forall>y' x'. y \<le> y' \<and> y' < imgPixels \<and> (gridDim_y c * B_Y) dvd (y' - y) \<and>
                   idxX \<le> x' \<and> x' < numCases \<and> (gridDim_x c * B_X) dvd (x' - idxX) \<longrightarrow>
               act_cell_ok input0 input1 input2 p0 p1 p2 p3 p4 (y' * strd + x') s')"
proof (induction "imgPixels - y" arbitrary: y s rule: less_induct)
  case less
  let ?Sx = "gridDim_x c * B_X"
  let ?Sy = "gridDim_y c * B_Y"
  let ?W = "act_cell_ok input0 input1 input2 p0 p1 p2 p3 p4"
  show ?case
  proof (cases "y < imgPixels")
    case False
    then show ?thesis
      using less.prems by (subst kEltwiseFuncAct_y.simps) auto
  next
    case True
    have "y * strd + numCases \<le> y * strd + strd" using rows(2) by simp
    also have "\<dots> = Suc y * strd" by simp
    also have "\<dots> \<le> imgPixels * strd" using True by (intro mult_le_mono1) simp
    finally have row: "y * strd + numCases \<le> n" using rows(1) by simp
    from kEltwiseFuncAct_x_result [OF Sx len row less.prems, of p0 p1 p2 p3 p4 idxX]
    obtain s1 where s1: "kEltwiseFuncAct_x B_X c input0 input1 input2 p0 p1 p2 p3 p4
            numCases strd y idxX s = Some s1" "length s1 = n"
      "\<forall>i. ?W i s \<longrightarrow> ?W i s1"
      "\<forall>x'. idxX \<le> x' \<and> x' < numCases \<and> ?Sx dvd (x' - idxX) \<longrightarrow> ?W (y * strd + x') s1"
      by blast
    have unfold: "kEltwiseFuncAct_y B_X B_Y c input0 input1 input2 p0 p1 p2 p3 p4
            imgPixels numCases strd idxX y s =
        kEltwiseFuncAct_y B_X B_Y c input0 input1 input2 p0 p1 p2 p3 p4
            imgPixels numCases strd idxX (y + ?Sy) s1"
      apply (subst kEltwiseFuncAct_y.simps)
      using True s1(1) by simp
    have dec: "imgPixels - (y + ?Sy) < imgPixels - y" using True Sy by linarith
    from less.hyps [OF dec s1(2)]
    obtain s' where s': "kEltwiseFuncAct_y B_X B_Y c input0 input1 input2 p0 p1 p2 p3 p4
            imgPixels numCases strd idxX (y + ?Sy) s1 = Some s'" "length s' = n"
      "\<forall>i. ?W i s1 \<longrightarrow> ?W i s'"
      "\<forall>y' x'. y + ?Sy \<le> y' \<and> y' < imgPixels \<and> ?Sy dvd (y' - (y + ?Sy)) \<and>
                   idxX \<le> x' \<and> x' < numCases \<and> ?Sx dvd (x' - idxX) \<longrightarrow>
               ?W (y' * strd + x') s'"
      by blast
    have "?W (y' * strd + x') s'"
      if y': "y \<le> y'" "y' < imgPixels" "?Sy dvd (y' - y)"
        and x': "idxX \<le> x'" "x' < numCases" "?Sx dvd (x' - idxX)" for y' x'
    proof (cases "y' = y")
      case True
      with s1(4) x' s'(3) show ?thesis by simp
    next
      case False
      from stride_next [OF y'(1,3) False] s'(4) y'(2) x' show ?thesis by simp
    qed
    with s'(1,2,3) s1(3) unfold show ?thesis by simp
  qed
qed

lemma kEltwiseFuncAct_launch:
  assumes len: "length input0 = n" "length input1 = n" "length input2 = n" "length t0 = n"
    and rows: "imgPixels * strd \<le> n" "numCases \<le> strd"
    and pos: "0 < gx" "0 < gy" "0 < B_X" "0 < B_Y"
  shows "\<exists>s'. launch (\<lambda>c t. kEltwiseFuncAct B_X B_Y c input0 input1 input2 t
                           p0 p1 p2 p3 p4 imgPixels numCases strd)
                 (gx, gy) (B_X, B_Y) t0 = Some s' \<and> length s' = n \<and>
           (\<forall>y<imgPixels. \<forall>x<numCases.
              act_cell_ok input0 input1 input2 p0 p1 p2 p3 p4 (y * strd + x) s')"
proof -
  let ?k = "\<lambda>c t. kEltwiseFuncAct B_X B_Y c input0 input1 input2 t
                           p0 p1 p2 p3 p4 imgPixels numCases strd"
  let ?T = "set (grid_threads (gx, gy) (B_X, B_Y))"
  let ?Sx = "gx * B_X"
  let ?Sy = "gy * B_Y"
  let ?W = "act_cell_ok input0 input1 input2 p0 p1 p2 p3 p4"
  let ?I = "\<lambda>s. length s = n"
  let ?P = "\<lambda>c s. \<forall>y x. y < imgPixels \<and> x < numCases \<and> y mod ?Sy = thr_y B_Y c \<and>
                        x mod ?Sx = thr_x B_X c \<longrightarrow> ?W (y * strd + x) s"
  have Spos: "0 < ?Sx" "0 < ?Sy" using pos by simp_all
  have step: "\<exists>s'. ?k t s = Some s' \<and> ?I s' \<and> ?P t s' \<and>
           (\<forall>u\<in>?T. u \<noteq> t \<longrightarrow> (?P u s \<longrightarrow> ?P u s') \<and> (True \<longrightarrow> True))"
    if t: "t \<in> ?T" and I: "?I s" for t s
  proof -
    from t have g: "gridDim_x t = gx" "gridDim_y t = gy"
      and b: "blockIdx_x t < gx" "threadIdx_x t < B_X" "blockIdx_y t < gy" "threadIdx_y t < B_Y"
      by (simp_all add: grid_threads_set)
    have lt: "thr_x B_X t < ?Sx" "thr_y B_Y t < ?Sy"
      using thr_lt_grid [OF b(1,2)] thr_lt_grid [OF b(3,4)] by (simp_all add: thr_x_def thr_y_def)
    have S': "0 < gridDim_x t * B_X" "0 < gridDim_y t * B_Y" using Spos g by simp_all
    from kEltwiseFuncAct_y_result [OF S' len(1-3) rows I, of p0 p1 p2 p3 p4 "thr_x B_X t" "thr_y B_Y t"]
    obtain s' where s': "?k t s = Some s'" "?I s'" "\<forall>i. ?W i s \<longrightarrow> ?W i s'"
      "\<forall>y' x'. thr_y B_Y t \<le> y' \<and> y' < imgPixels \<and> ?Sy dvd (y' - thr_y B_Y t) \<and>
                   thr_x B_X t \<le> x' \<and> x' < numCases \<and> ?Sx dvd (x' - thr_x B_X t) \<longrightarrow>
               ?W (y' * strd + x') s'"
      unfolding g by (auto simp: kEltwiseFuncAct_def thr_x_def thr_y_def Let_def)
    have "?P t s'"
      using s'(4) stride_class [OF lt(1)] stride_class [OF lt(2)] by blast
    with s'(1,2,3) show ?thesis by blast
  qed
  have "\<exists>s'. run_threads ?k (grid_threads (gx, gy) (B_X, B_Y)) t0 = Some s' \<and> ?I s' \<and>
          (\<forall>u\<in>{} \<union> ?T. ?P u s')"
    by (rule run_threads_post [where T = ?T and I = ?I and Q = "\<lambda>c s. True" and P = ?P, OF step])
       (simp_all add: grid_threads_distinct len)
  then obtain s' where s': "run_threads ?k (grid_threads (gx, gy) (B_X, B_Y)) t0 = Some s'"
    "?I s'" "\<forall>u\<in>?T. ?P u s'" by auto
  have "?W (y * strd + x) s'" if "y < imgPixels" "x < numCases" for y x
  proof -
    have "x mod ?Sx < gx * B_X" "y mod ?Sy < gy * B_Y" using Spos by simp_all
    from grid_threads_cover [OF this] obtain c where
      "c \<in> ?T" "thr_x B_X c = x mod ?Sx" "thr_y B_Y c = y mod ?Sy" by blast
    with s'(3) that show ?thesis by auto
  qed
  with s' show ?thesis by (auto simp: launch_def)
qed

lemma EltwiseFuncAct_val_formula:
  "EltwiseFuncAct_val p0 p1 p2 p3 p4 a b c =
     p0 * b + p1 * c + p2 * max c 0 + p3 * max a 0 + p4 * max b 0 + a"
  by (simp add: EltwiseFuncAct_val_def fmaxf_def max_def Let_def)

section \<open>Cost kernels: correctness credit and hinge cost\<close>

text \<open>
  C1. Launched on a grid that covers all cases, with every label in range, each of
  \<^verbatim>\<open>kLogregCost\<close>, \<^verbatim>\<open>kRLogCost\<close> and \<^verbatim>\<open>kL2SVMCost\<close> returns without a fault, and its
  correctness output at a case \<open>c\<close> is 0 where the value of the true label in column \<open>c\<close>
  differs from the precomputed maximum of that column, and \<open>1 / k\<close> otherwise, \<open>k\<close> being
  the number of classes whose value in column \<open>c\<close> equals that maximum. The output
  therefore lies in \<open>{0} \<union> {1 / k | 1 \<le> k \<le> numOut}\<close>.
\<close>

theorem cost_kernels_tie_credit:
  assumes "length labels = nC" "length maxProbs = nC" "length probs = nO * nC"
      "length l0 = nC" "length p0 = nC" "length w0 = nC"
    and "\<forall>c<nC. valid_label labels nO c" and "nC \<le> gx * ERR_X"
  shows
    "(\<exists>l p. launch (\<lambda>c (l, p). kLogregCost ERR_X c probs labels maxProbs l p (int nC) (int nO))
               (gx, 1) (ERR_X, 1) (l0, p0) = Some (l, p) \<and>
        (\<forall>c<nC.
           (probs ! (label_of labels c * nC + c) \<noteq> maxProbs ! c \<longrightarrow> p ! c = 0) \<and>
           (probs ! (label_of labels c * nC + c) = maxProbs ! c \<longrightarrow>
              p ! c = 1 / real (card {i. i < nO \<and> probs ! (i * nC + c) = maxProbs ! c})) \<and>
           p ! c \<in> {0} \<union> {1 / real k |k. 1 \<le> k \<and> k \<le> nO})) \<and>
     (\<exists>l p w. launch (\<lambda>c (l, p, w). kRLogCost ERR_X c probs labels maxProbs l p w p_pow
                                      (int nC) (int nO))
               (gx, 1) (ERR_X, 1) (l0, p0, w0) = Some (l, p, w) \<and>
        (\<forall>c<nC.
           (probs ! (label_of labels c * nC + c) \<noteq> maxProbs ! c \<longrightarrow> p ! c = 0) \<and>
           (probs ! (label_of labels c * nC + c) = maxProbs ! c \<longrightarrow>
              p ! c = 1 / real (card {i. i < nO \<and> probs ! (i * nC + c) = maxProbs ! c})) \<and>
           p ! c \<in> {0} \<union> {1 / real k |k. 1 \<le> k \<and> k \<le> nO})) \<and>
     (\<exists>a p. launch (\<lambda>c (a, p). kL2SVMCost ERR_X c probs labels maxProbs a p (int nC) (int nO))
               (gx, 1) (ERR_X, 1) (l0, p0) = Some (a, p) \<and>
        (\<forall>c<nC.
           (probs ! (label_of labels c * nC + c) \<noteq> maxProbs ! c \<longrightarrow> p ! c = 0) \<and>
           (probs ! (label_of labels c * nC + c) = maxProbs ! c \<longrightarrow>
              p ! c = 1 / real (card {i. i < nO \<and> probs ! (i * nC + c) = maxProbs ! c})) \<and>
           p ! c \<in> {0} \<union> {1 / real k |k. 1 \<le> k \<and> k \<le> nO}))"
proof -
  have credit: "(probs ! (label_of labels c * nC + c) \<noteq> maxProbs ! c \<longrightarrow> p ! c = 0) \<and>
           (probs ! (label_of labels c * nC + c) = maxProbs ! c \<longrightarrow>
              p ! c = 1 / real (card {i. i < nO \<and> probs ! (i * nC + c) = maxProbs ! c})) \<and>
           p ! c \<in> {0} \<union> {1 / real k |k. 1 \<le> k \<and> k \<le> nO}"
    if "c < nC" "p ! c = tie_credit probs labels maxProbs nC nO c" for p c
  proof -
    from that(1) assms(7) have "valid_label labels nO c" by simp
    from tie_credit_range [OF this, of probs maxProbs nC] that(2)
    show ?thesis by (simp add: tie_credit_def)
  qed
  from kLogregCost_launch [OF assms(1-5) assms(7,8)]
  obtain l1 p1 where r1:
    "launch (\<lambda>c (l, p). kLogregCost ERR_X c probs labels maxProbs l p (int nC) (int nO))
        (gx, 1) (ERR_X, 1) (l0, p0) = Some (l1, p1)"
    "\<forall>c<nC. p1 ! c = tie_credit probs labels maxProbs nC nO c"
    by auto
  from kRLogCost_launch [OF assms(1-8), of p_pow]
  obtain l2 p2 w2 where r2:
    "launch (\<lambda>c (l, p, w). kRLogCost ERR_X c probs labels maxProbs l p w p_pow (int nC) (int nO))
        (gx, 1) (ERR_X, 1) (l0, p0, w0) = Some (l2, p2, w2)"
    "\<forall>c<nC. p2 ! c = tie_credit probs labels maxProbs nC nO c"
    by auto
  from kL2SVMCost_launch [OF assms(1-5) assms(7,8)]
  obtain l3 p3 where r3:
    "launch (\<lambda>c (a, p). kL2SVMCost ERR_X c probs labels maxProbs a p (int nC) (int nO))
        (gx, 1) (ERR_X, 1) (l0, p0) = Some (l3, p3)"
    "\<forall>c<nC. p3 ! c = tie_credit probs labels maxProbs nC nO c"
    by auto
  have c1: "\<forall>c<nC.
           (probs ! (label_of labels c * nC + c) \<noteq> maxProbs ! c \<longrightarrow> p1 ! c = 0) \<and>
           (probs ! (label_of labels c * nC + c) = maxProbs ! c \<longrightarrow>
              p1 ! c = 1 / real (card {i. i < nO \<and> probs ! (i * nC + c) = maxProbs ! c})) \<and>
           p1 ! c \<in> {0} \<union> {1 / real k |k. 1 \<le> k \<and> k \<le> nO}"
    using credit r1(2) by blast
  have c2: "\<forall>c<nC.
           (probs ! (label_of labels c * nC + c) \<noteq> maxProbs ! c \<longrightarrow> p2 ! c = 0) \<and>
           (probs ! (label_of labels c * nC + c) = maxProbs ! c \<longrightarrow>
              p2 ! c = 1 / real (card {i. i < nO \<and> probs ! (i * nC + c) = maxProbs ! c})) \<and>
           p2 ! c \<in> {0} \<union> {1 / real k |k. 1 \<le> k \<and> k \<le> nO}"
    using credit r2(2) by blast
  have c3: "\<forall>c<nC.
           (probs ! (label_of labels c * nC + c) \<noteq> maxProbs ! c \<longrightarrow> p3 ! c = 0) \<and>
           (probs ! (label_of labels c * nC + c) = maxProbs ! c \<longrightarrow>
              p3 ! c = 1 / real (card {i. i < nO \<and> probs ! (i * nC + c) = maxProbs ! c})) \<and>
           p3 ! c \<in> {0} \<union> {1 / real k |k. 1 \<le> k \<and> k \<le> nO}"
    using credit r3(2) by blast
  from r1(1) c1 r2(1) c2 r3(1) c3 show ?thesis by blast
qed

theorem cost_kernels_tie_credit_witness:
  "(\<exists>l p. launch (\<lambda>c (l, p). kLogregCost 1 c [1 / 2, 1 / 2] [0] [1 / 2] l p (int 1) (int 2))
               (1, 1) (1, 1) ([0], [0]) = Some (l, p) \<and> p ! 0 = 1 / 2) \<and>
   (\<exists>l p w. launch (\<lambda>c (l, p, w). kRLogCost 1 c [1 / 2, 1 / 2] [0] [1 / 2] l p w 2 (int 1) (int 2))
               (1, 1) (1, 1) ([0], [0], [0]) = Some (l, p, w) \<and> p ! 0 = 1 / 2) \<and>
   (\<exists>a p. launch (\<lambda>c (a, p). kL2SVMCost 1 c [1 / 2, 1 / 2] [0] [1 / 2] a p (int 1) (int 2))
               (1, 1) (1, 1) ([0], [0]) = Some (a, p) \<and> p ! 0 = 1 / 2)"
proof -
  have v: "\<forall>c<1. valid_label [0] 2 c"
    by (simp add: valid_label_def float2int_def)
  have card: "card {i. i < 2 \<and> [1 / 2, 1 / 2 :: real] ! i * 2 = 1} = 2"
  proof -
    have "{i. i < 2 \<and> [1 / 2, 1 / 2 :: real] ! i * 2 = 1} = {0, 1}"
      by (auto simp: less_Suc_eq numeral_2_eq_2)
    then show ?thesis by simp
  qed
  have lab: "label_of [0] 0 = 0" by (simp add: label_of_def float2int_def)
  note t = cost_kernels_tie_credit [of "[0]" 1 "[1 / 2]" "[1 / 2, 1 / 2]" 2 "[0]" "[0]" "[0]" 1 1 2,
      OF _ _ _ _ _ _ v]
  show ?thesis using t by (simp add: lab card) blast
qed

text \<open>
  C4. Launched on a grid that covers all cases, with every label in range,
  \<^verbatim>\<open>kL2SVMCost\<close> returns without a fault and leaves in \<open>acts_out[c]\<close> the square of
  \<open>max(1 - acts[label[c], c], 0)\<close>: exactly 0 where the activation of the true class is
  at least 1, and \<open>(1 - acts[label[c], c])\<^sup>2\<close> where it is below 1.
\<close>

theorem kL2SVMCost_squared_hinge:
  assumes "length labels = nC" "length maxActs = nC" "length acts = nO * nC"
      "length acts_out = nC" "length correctPreds = nC"
    and "\<forall>c<nC. valid_label labels nO c" and "nC \<le> gx * ERR_X"
  shows "\<exists>out cp. launch (\<lambda>c (a, p). kL2SVMCost ERR_X c acts labels maxActs a p (int nC) (int nO))
                     (gx, 1) (ERR_X, 1) (acts_out, correctPreds) = Some (out, cp) \<and>
           length out = nC \<and>
           (\<forall>c<nC. let a = acts ! (label_of labels c * nC + c) in
                      out ! c = (max (1 - a) 0)\<^sup>2 \<and>
                      (1 \<le> a \<longrightarrow> out ! c = 0) \<and>
                      (a < 1 \<longrightarrow> out ! c = (1 - a)\<^sup>2))"
proof -
  from kL2SVMCost_launch [OF assms]
  obtain out cp where r:
    "launch (\<lambda>c (a, p). kL2SVMCost ERR_X c acts labels maxActs a p (int nC) (int nO))
        (gx, 1) (ERR_X, 1) (acts_out, correctPreds) = Some (out, cp)"
    "length out = nC"
    "\<forall>c<nC. out ! c = fmaxf (1 - acts ! (label_of labels c * nC + c)) 0 *
                       fmaxf (1 - acts ! (label_of labels c * nC + c)) 0"
    by auto
  show ?thesis
    apply (rule exI [of _ out], rule exI [of _ cp])
    using r by (simp add: fmaxf_def max_def power2_eq_square Let_def)
qed

theorem kL2SVMCost_squared_hinge_witness:
  "\<exists>out cp. launch (\<lambda>c (a, p). kL2SVMCost 2 c [3, 1 / 2, 0, - 3] [0, 1] [3, 1 / 2] a p (int 2) (int 2))
              (1, 1) (2, 1) ([9, 9], [9, 9]) = Some (out, cp) \<and> out ! 0 = 0 \<and> out ! 1 = 16"
proof -
  have v: "\<forall>c<2. valid_label [0, 1] 2 c"
    by (simp add: valid_label_def float2int_def less_Suc_eq numeral_2_eq_2)
  from kL2SVMCost_squared_hinge [of "[0, 1]" 2 "[3, 1 / 2]" "[3, 1 / 2, 0, - 3]" 2 "[9, 9]" "[9, 9]" 1 2, OF _ _ _ _ _ v]
  obtain out cp where r:
    "launch (\<lambda>c (a, p). kL2SVMCost 2 c [3, 1 / 2, 0, - 3] [0, 1] [3, 1 / 2] a p (int 2) (int 2))
        (1, 1) (2, 1) ([9, 9], [9, 9]) = Some (out, cp)"
    and cells: "\<forall>c<2. let a = [3, 1 / 2, 0, - 3] ! (label_of [0, 1] c * 2 + c) in
                      out ! c = (max (1 - a) 0)\<^sup>2 \<and>
                      (1 \<le> a \<longrightarrow> out ! c = 0) \<and>
                      (a < 1 \<longrightarrow> out ! c = (1 - a)\<^sup>2)"
    by auto
  from cells [rule_format, of 0] cells [rule_format, of 1]
  have "out ! 0 = 0" "out ! 1 = 16" by (simp_all add: label_of_def float2int_def Let_def)
  with r show ?thesis by blast
qed

section \<open>Gradient kernels: the fused path and accumulation\<close>

text \<open>
  C2. Let every entry of the probability matrix be positive and every label be in range.
  Running \<^verbatim>\<open>kLogregCostGrad\<close> with \<open>add = false\<close> and then \<^verbatim>\<open>kSoftmaxGrad\<close> with
  \<open>add = false\<close> on its output yields, in exact arithmetic, the very buffer that the fused
  kernel \<^verbatim>\<open>kLogregSoftmaxGrad\<close> with \<open>add = false\<close> yields on the same probabilities,
  labels and coefficient; all three launches return without a fault.
\<close>

theorem fused_grad_equals_unfused_composition:
  assumes "length labels = nC" "length y_l = nO * nC"
      "length dE_dy_l = nO * nC" "length dE_dx_l = nO * nC" "length fused = nO * nC"
    and "\<forall>c<nC. valid_label labels nO c"
    and "\<forall>i<nO * nC. 0 < y_l ! i"
    and "nC \<le> gx * GRAD_X" "nO \<le> gy * GRAD_Y"
  shows "\<exists>d x f.
      launch (\<lambda>c t. kLogregCostGrad False GRAD_X GRAD_Y c y_l labels t (int nC) (int nO) gradCoeff)
        (gx, gy) (GRAD_X, GRAD_Y) dE_dy_l = Some d \<and>
      launch (\<lambda>c t. kSoftmaxGrad False GRAD_X GRAD_Y c d y_l t (int nC) (int nO))
        (gx, gy) (GRAD_X, GRAD_Y) dE_dx_l = Some x \<and>
      launch (\<lambda>c t. kLogregSoftmaxGrad False GRAD_X GRAD_Y c y_l labels t (int nC) (int nO) gradCoeff)
        (gx, gy) (GRAD_X, GRAD_Y) fused = Some f \<and>
      x = f"
proof -
  note cov = assms(8,9)
  from kLogregCostGrad_launch [OF assms(1,2,3) cov, of False gradCoeff]
  obtain d where d:
    "launch (\<lambda>c t. kLogregCostGrad False GRAD_X GRAD_Y c y_l labels t (int nC) (int nO) gradCoeff)
        (gx, gy) (GRAD_X, GRAD_Y) dE_dy_l = Some d"
    "length d = nO * nC"
    "\<forall>cls<nO. \<forall>cas<nC. d ! (cls * nC + cas) =
        fdividef (gradCoeff * b2f (float2int (labels ! cas) = int cls)) (y_l ! (cls * nC + cas))"
    by auto
  from kSoftmaxGrad_launch [OF d(2) assms(2,4) cov, of False]
  obtain x where x:
    "launch (\<lambda>c t. kSoftmaxGrad False GRAD_X GRAD_Y c d y_l t (int nC) (int nO))
        (gx, gy) (GRAD_X, GRAD_Y) dE_dx_l = Some x"
    "length x = nO * nC"
    "\<forall>cls<nO. \<forall>cas<nC. x ! (cls * nC + cas) =
        (\<Sum>j = 0..<nO. d ! (j * nC + cas) * (b2f (j = cls) - y_l ! (j * nC + cas))) *
        y_l ! (cls * nC + cas)"
    by auto
  from kLogregSoftmaxGrad_launch [OF assms(1,2,5) cov, of False gradCoeff]
  obtain f where f:
    "launch (\<lambda>c t. kLogregSoftmaxGrad False GRAD_X GRAD_Y c y_l labels t (int nC) (int nO) gradCoeff)
        (gx, gy) (GRAD_X, GRAD_Y) fused = Some f"
    "length f = nO * nC"
    "\<forall>cls<nO. \<forall>cas<nC. f ! (cls * nC + cas) =
        gradCoeff * (b2f (float2int (labels ! cas) = int cls) - y_l ! (cls * nC + cas))"
    by auto
  have "x = f"
  proof (rule cells_eqI [OF x(2) f(2)])
    fix cls cas assume cls: "cls < nO" and cas: "cas < nC"
    from assms(6) cas have v: "valid_label labels nO cas" by simp
    note lab = valid_label_nat [OF v]
    let ?L = "label_of labels cas"
    have "?L * nC + cas < nO * nC" using lab(2) cas by (simp add: cell_bound)
    with assms(7) have yL: "y_l ! (?L * nC + cas) \<noteq> 0" by fastforce
    have "(\<Sum>j = 0..<nO. d ! (j * nC + cas) * (b2f (j = cls) - y_l ! (j * nC + cas))) =
          (\<Sum>j = 0..<nO. fdividef (gradCoeff * b2f (int ?L = int j)) (y_l ! (j * nC + cas)) *
                              (b2f (j = cls) - y_l ! (j * nC + cas)))"
      by (rule sum.cong) (use d(3) cas lab(1) in auto)
    with x(3) [rule_format, OF cls cas]
      softmax_of_logreg_cell [of ?L nO "\<lambda>j. y_l ! (j * nC + cas)" gradCoeff cls, OF lab(2) yL]
      f(3) [rule_format, OF cls cas] lab(1)
    show "x ! (cls * nC + cas) = f ! (cls * nC + cas)" by simp
  qed
  with d(1) x(1) f(1) show ?thesis by blast
qed

theorem fused_grad_equals_unfused_composition_witness:
  "\<exists>d x f.
      launch (\<lambda>c t. kLogregCostGrad False 1 2 c [1 / 4, 3 / 4] [1] t (int 1) (int 2) 1)
        (1, 1) (1, 2) [0, 0] = Some d \<and>
      launch (\<lambda>c t. kSoftmaxGrad False 1 2 c d [1 / 4, 3 / 4] t (int 1) (int 2))
        (1, 1) (1, 2) [0, 0] = Some x \<and>
      launch (\<lambda>c t. kLogregSoftmaxGrad False 1 2 c [1 / 4, 3 / 4] [1] t (int 1) (int 2) 1)
        (1, 1) (1, 2) [0, 0] = Some f \<and>
      x = f"
  using fused_grad_equals_unfused_composition
    [of "[1]" 1 "[1 / 4, 3 / 4]" 2 "[0, 0]" "[0, 0]" "[0, 0]" 1 1 1 2 1]
  by (simp add: valid_label_def float2int_def less_Suc_eq numeral_2_eq_2)

text \<open>
  C3. For each of the seven gradient kernels that take the \<open>add\<close> flag, launched twice on
  identical inputs and the same target buffer: both launches return without a fault,
  and every element of the target after the \<open>add = true\<close> launch is its previous
  content plus the value the \<open>add = false\<close> launch writes to that element.
\<close>

theorem add_launch_accumulates_overwrite_launch:
  assumes "length labels = nC" "length weights = nC" "length y_l = nO * nC"
      "length dE_dy_l = nO * nC" "length target = nO * nC"
    and "nC \<le> gx * GRAD_X" "nO \<le> gy * GRAD_Y"
    and "length actGrad = n" "length input = n" "length output = n" "length etarget = n"
    and "0 < ex" "0 < B_X"
  shows
    "(\<exists>ta tn.
        launch (\<lambda>c t. kLogregCostGrad True GRAD_X GRAD_Y c y_l labels t (int nC) (int nO) gradCoeff)
          (gx, gy) (GRAD_X, GRAD_Y) target = Some ta \<and>
        launch (\<lambda>c t. kLogregCostGrad False GRAD_X GRAD_Y c y_l labels t (int nC) (int nO) gradCoeff)
          (gx, gy) (GRAD_X, GRAD_Y) target = Some tn \<and>
        length ta = length target \<and> length tn = length target \<and>
        (\<forall>i<length target. ta ! i = target ! i + tn ! i)) \<and>
     (\<exists>ta tn.
        launch (\<lambda>c t. kRLogCostGrad True GRAD_X GRAD_Y c y_l labels t weights (int nC) (int nO)
                        gradCoeff)
          (gx, gy) (GRAD_X, GRAD_Y) target = Some ta \<and>
        launch (\<lambda>c t. kRLogCostGrad False GRAD_X GRAD_Y c y_l labels t weights (int nC) (int nO)
                        gradCoeff)
          (gx, gy) (GRAD_X, GRAD_Y) target = Some tn \<and>
        length ta = length target \<and> length tn = length target \<and>
        (\<forall>i<length target. ta ! i = target ! i + tn ! i)) \<and>
     (\<exists>ta tn.
        launch (\<lambda>c t. kSoftmaxGrad True GRAD_X GRAD_Y c dE_dy_l y_l t (int nC) (int nO))
          (gx, gy) (GRAD_X, GRAD_Y) target = Some ta \<and>
        launch (\<lambda>c t. kSoftmaxGrad False GRAD_X GRAD_Y c dE_dy_l y_l t (int nC) (int nO))
          (gx, gy) (GRAD_X, GRAD_Y) target = Some tn \<and>
        length ta = length target \<and> length tn = length target \<and>
        (\<forall>i<length target. ta ! i = target ! i + tn ! i)) \<and>
     (\<exists>ta tn.
        launch (\<lambda>c t. kL2SVMGrad True GRAD_X GRAD_Y c y_l labels t (int nC) (int nO) gradCoeff)
          (gx, gy) (GRAD_X, GRAD_Y) target = Some ta \<and>
        launch (\<lambda>c t. kL2SVMGrad False GRAD_X GRAD_Y c y_l labels t (int nC) (int nO) gradCoeff)
          (gx, gy) (GRAD_X, GRAD_Y) target = Some tn \<and>
        length ta = length target \<and> length tn = length target \<and>
        (\<forall>i<length target. ta ! i = target ! i + tn ! i)) \<and>
     (\<exists>ta tn.
        launch (\<lambda>c t. kLogregSoftmaxGrad True GRAD_X GRAD_Y c y_l labels t (int nC) (int nO)
                        gradCoeff)
          (gx, gy) (GRAD_X, GRAD_Y) target = Some ta \<and>
        launch (\<lambda>c t. kLogregSoftmaxGrad False GRAD_X GRAD_Y c y_l labels t (int nC) (int nO)
                        gradCoeff)
          (gx, gy) (GRAD_X, GRAD_Y) target = Some tn \<and>
        length ta = length target \<and> length tn = length target \<and>
        (\<forall>i<length target. ta ! i = target ! i + tn ! i)) \<and>
     (\<exists>ta tn.
        launch (\<lambda>c t. kRLogSoftmaxGrad True GRAD_X GRAD_Y c y_l labels t weights (int nC) (int nO)
                        gradCoeff)
          (gx, gy) (GRAD_X, GRAD_Y) target = Some ta \<and>
        launch (\<lambda>c t. kRLogSoftmaxGrad False GRAD_X GRAD_Y c y_l labels t weights (int nC) (int nO)
                        gradCoeff)
          (gx, gy) (GRAD_X, GRAD_Y) target = Some tn \<and>
        length ta = length target \<and> length tn = length target \<and>
        (\<forall>i<length target. ta ! i = target ! i + tn ! i)) \<and>
     (\<exists>ta tn.
        launch (\<lambda>c t. kEltwiseMaxGrad True B_X c actGrad input output t (int n))
          (ex, 1) (B_X, 1) etarget = Some ta \<and>
        launch (\<lambda>c t. kEltwiseMaxGrad False B_X c actGrad input output t (int n))
          (ex, 1) (B_X, 1) etarget = Some tn \<and>
        length ta = length etarget \<and> length tn = length etarget \<and>
        (\<forall>i<length etarget. ta ! i = etarget ! i + tn ! i))"
proof (intro conjI)
  note cov = assms(6,7)
  show "\<exists>ta tn.
        launch (\<lambda>c t. kLogregCostGrad True GRAD_X GRAD_Y c y_l labels t (int nC) (int nO) gradCoeff)
          (gx, gy) (GRAD_X, GRAD_Y) target = Some ta \<and>
        launch (\<lambda>c t. kLogregCostGrad False GRAD_X GRAD_Y c y_l labels t (int nC) (int nO) gradCoeff)
          (gx, gy) (GRAD_X, GRAD_Y) target = Some tn \<and>
        length ta = length target \<and> length tn = length target \<and>
        (\<forall>i<length target. ta ! i = target ! i + tn ! i)"
    using kLogregCostGrad_launch [OF assms(1,3,5) cov, of True gradCoeff]
      kLogregCostGrad_launch [OF assms(1,3,5) cov, of False gradCoeff]
    by (intro add_vs_overwrite [OF _ _ assms(5)]) simp_all
  show "\<exists>ta tn.
        launch (\<lambda>c t. kRLogCostGrad True GRAD_X GRAD_Y c y_l labels t weights (int nC) (int nO)
                        gradCoeff)
          (gx, gy) (GRAD_X, GRAD_Y) target = Some ta \<and>
        launch (\<lambda>c t. kRLogCostGrad False GRAD_X GRAD_Y c y_l labels t weights (int nC) (int nO)
                        gradCoeff)
          (gx, gy) (GRAD_X, GRAD_Y) target = Some tn \<and>
        length ta = length target \<and> length tn = length target \<and>
        (\<forall>i<length target. ta ! i = target ! i + tn ! i)"
    using kRLogCostGrad_launch [OF assms(1,2,3,5) cov, of True gradCoeff]
      kRLogCostGrad_launch [OF assms(1,2,3,5) cov, of False gradCoeff]
    by (intro add_vs_overwrite [OF _ _ assms(5)]) simp_all
  show "\<exists>ta tn.
        launch (\<lambda>c t. kSoftmaxGrad True GRAD_X GRAD_Y c dE_dy_l y_l t (int nC) (int nO))
          (gx, gy) (GRAD_X, GRAD_Y) target = Some ta \<and>
        launch (\<lambda>c t. kSoftmaxGrad False GRAD_X GRAD_Y c dE_dy_l y_l t (int nC) (int nO))
          (gx, gy) (GRAD_X, GRAD_Y) target = Some tn \<and>
        length ta = length target \<and> length tn = length target \<and>
        (\<forall>i<length target. ta ! i = target ! i + tn ! i)"
    using kSoftmaxGrad_launch [OF assms(4,3,5) cov, of True]
      kSoftmaxGrad_launch [OF assms(4,3,5) cov, of False]
    by (intro add_vs_overwrite [OF _ _ assms(5)]) simp_all
  show "\<exists>ta tn.
        launch (\<lambda>c t. kL2SVMGrad True GRAD_X GRAD_Y c y_l labels t (int nC) (int nO) gradCoeff)
          (gx, gy) (GRAD_X, GRAD_Y) target = Some ta \<and>
        launch (\<lambda>c t. kL2SVMGrad False GRAD_X GRAD_Y c y_l labels t (int nC) (int nO) gradCoeff)
          (gx, gy) (GRAD_X, GRAD_Y) target = Some tn \<and>
        length ta = length target \<and> length tn = length target \<and>
        (\<forall>i<length target. ta ! i = target ! i + tn ! i)"
    using kL2SVMGrad_launch [OF assms(1,3,5) cov, of True gradCoeff]
      kL2SVMGrad_launch [OF assms(1,3,5) cov, of False gradCoeff]
    by (intro add_vs_overwrite [OF _ _ assms(5)]) simp_all
  show "\<exists>ta tn.
        launch (\<lambda>c t. kLogregSoftmaxGrad True GRAD_X GRAD_Y c y_l labels t (int nC) (int nO)
                        gradCoeff)
          (gx, gy) (GRAD_X, GRAD_Y) target = Some ta \<and>
        launch (\<lambda>c t. kLogregSoftmaxGrad False GRAD_X GRAD_Y c y_l labels t (int nC) (int nO)
                        gradCoeff)
          (gx, gy) (GRAD_X, GRAD_Y) target = Some tn \<and>
        length ta = length target \<and> length tn = length target \<and>
        (\<forall>i<length target. ta ! i = target ! i + tn ! i)"
    using kLogregSoftmaxGrad_launch [OF assms(1,3,5) cov, of True gradCoeff]
      kLogregSoftmaxGrad_launch [OF assms(1,3,5) cov, of False gradCoeff]
    by (intro add_vs_overwrite [OF _ _ assms(5)]) simp_all
  show "\<exists>ta tn.
        launch (\<lambda>c t. kRLogSoftmaxGrad True GRAD_X GRAD_Y c y_l labels t weights (int nC) (int nO)
                        gradCoeff)
          (gx, gy) (GRAD_X, GRAD_Y) target = Some ta \<and>
        launch (\<lambda>c t. kRLogSoftmaxGrad False GRAD_X GRAD_Y c y_l labels t weights (int nC) (int nO)
                        gradCoeff)
          (gx, gy) (GRAD_X, GRAD_Y) target = Some tn \<and>
        length ta = length target \<and> length tn = length target \<and>
        (\<forall>i<length target. ta ! i = target ! i + tn ! i)"
    using kRLogSoftmaxGrad_launch [OF assms(1,2,3,5) cov, of True gradCoeff]
      kRLogSoftmaxGrad_launch [OF assms(1,2,3,5) cov, of False gradCoeff]
    by (intro add_vs_overwrite [OF _ _ assms(5)]) simp_all
  from kEltwiseMaxGrad_launch [OF assms(8-13), of True]
  obtain ta where ta: "launch (\<lambda>c t. kEltwiseMaxGrad True B_X c actGrad input output t (int n))
          (ex, 1) (B_X, 1) etarget = Some ta" "length ta = n"
      "\<forall>j<n. ta ! j = etarget ! j + actGrad ! j * b2f (output ! j = input ! j)"
    by auto
  from kEltwiseMaxGrad_launch [OF assms(8-13), of False]
  obtain tn where tn: "launch (\<lambda>c t. kEltwiseMaxGrad False B_X c actGrad input output t (int n))
          (ex, 1) (B_X, 1) etarget = Some tn" "length tn = n"
      "\<forall>j<n. tn ! j = actGrad ! j * b2f (output ! j = input ! j)"
    by auto
  show "\<exists>ta tn.
        launch (\<lambda>c t. kEltwiseMaxGrad True B_X c actGrad input output t (int n))
          (ex, 1) (B_X, 1) etarget = Some ta \<and>
        launch (\<lambda>c t. kEltwiseMaxGrad False B_X c actGrad input output t (int n))
          (ex, 1) (B_X, 1) etarget = Some tn \<and>
        length ta = length etarget \<and> length tn = length etarget \<and>
        (\<forall>i<length etarget. ta ! i = etarget ! i + tn ! i)"
    using ta tn assms(11) by simp
qed

theorem add_launch_accumulates_overwrite_launch_witness:
    "(\<exists>ta tn.
        launch (\<lambda>c t. kLogregCostGrad True 1 1 c [1 / 2] [0] t (int 1) (int 1) 1)
          (1, 1) (1, 1) [5] = Some ta \<and>
        launch (\<lambda>c t. kLogregCostGrad False 1 1 c [1 / 2] [0] t (int 1) (int 1) 1)
          (1, 1) (1, 1) [5] = Some tn \<and> ta ! 0 = 5 + tn ! 0) \<and>
     (\<exists>ta tn.
        launch (\<lambda>c t. kRLogCostGrad True 1 1 c [1 / 2] [0] t [2] (int 1) (int 1) 1)
          (1, 1) (1, 1) [5] = Some ta \<and>
        launch (\<lambda>c t. kRLogCostGrad False 1 1 c [1 / 2] [0] t [2] (int 1) (int 1) 1)
          (1, 1) (1, 1) [5] = Some tn \<and> ta ! 0 = 5 + tn ! 0) \<and>
     (\<exists>ta tn.
        launch (\<lambda>c t. kSoftmaxGrad True 1 1 c [3] [1 / 2] t (int 1) (int 1))
          (1, 1) (1, 1) [5] = Some ta \<and>
        launch (\<lambda>c t. kSoftmaxGrad False 1 1 c [3] [1 / 2] t (int 1) (int 1))
          (1, 1) (1, 1) [5] = Some tn \<and> ta ! 0 = 5 + tn ! 0) \<and>
     (\<exists>ta tn.
        launch (\<lambda>c t. kL2SVMGrad True 1 1 c [1 / 2] [0] t (int 1) (int 1) 1)
          (1, 1) (1, 1) [5] = Some ta \<and>
        launch (\<lambda>c t. kL2SVMGrad False 1 1 c [1 / 2] [0] t (int 1) (int 1) 1)
          (1, 1) (1, 1) [5] = Some tn \<and> ta ! 0 = 5 + tn ! 0) \<and>
     (\<exists>ta tn.
        launch (\<lambda>c t. kLogregSoftmaxGrad True 1 1 c [1 / 2] [0] t (int 1) (int 1) 1)
          (1, 1) (1, 1) [5] = Some ta \<and>
        launch (\<lambda>c t. kLogregSoftmaxGrad False 1 1 c [1 / 2] [0] t (int 1) (int 1) 1)
          (1, 1) (1, 1) [5] = Some tn \<and> ta ! 0 = 5 + tn ! 0) \<and>
     (\<exists>ta tn.
        launch (\<lambda>c t. kRLogSoftmaxGrad True 1 1 c [1 / 2] [0] t [2] (int 1) (int 1) 1)
          (1, 1) (1, 1) [5] = Some ta \<and>
        launch (\<lambda>c t. kRLogSoftmaxGrad False 1 1 c [1 / 2] [0] t [2] (int 1) (int 1) 1)
          (1, 1) (1, 1) [5] = Some tn \<and> ta ! 0 = 5 + tn ! 0) \<and>
     (\<exists>ta tn.
        launch (\<lambda>c t. kEltwiseMaxGrad True 1 c [7] [1] [1] t (int 1))
          (1, 1) (1, 1) [5] = Some ta \<and>
        launch (\<lambda>c t. kEltwiseMaxGrad False 1 c [7] [1] [1] t (int 1))
          (1, 1) (1, 1) [5] = Some tn \<and> ta ! 0 = 5 + tn ! 0)"
  using add_launch_accumulates_overwrite_launch
    [of "[0]" 1 "[2]" "[1 / 2]" 1 "[3]" "[5]" 1 1 1 1 "[7]" 1 "[1]" "[1]" "[5]" 1 1 1]
  by simp blast

section \<open>Gradient kernels: closed forms\<close>

text \<open>
  C5. Launched on a grid that covers the matrix, \<^verbatim>\<open>kL2SVMGrad\<close> returns without a fault.
  With \<open>t = +1\<close> where the class is the label of the case and \<open>t = -1\<close> elsewhere, and
  \<open>act' = 1 - t \<cdot> y[class, case]\<close>, the gradient of a cell is
  \<open>gradCoeff \<cdot> t \<cdot> (max(act', 0) + 0.3 \<cdot> 1[act' > 0])\<close>; with \<open>add = false\<close> the cell holds
  it afterwards, with \<open>add = true\<close> the cell holds its old value plus it.
\<close>

theorem kL2SVMGrad_hinge_gradient:
  assumes "length labels = nC" "length y_l = nO * nC" "length dE_dx_l = nO * nC"
    and "nC \<le> gx * GRAD_X" "nO \<le> gy * GRAD_Y"
  shows "\<exists>d'. launch (\<lambda>c d. kL2SVMGrad add GRAD_X GRAD_Y c y_l labels d
                          (int nC) (int nO) gradCoeff)
                 (gx, gy) (GRAD_X, GRAD_Y) dE_dx_l = Some d' \<and>
           length d' = nO * nC \<and>
           (\<forall>cls<nO. \<forall>cas<nC.
              let t = (if float2int (labels ! cas) = int cls then 1 else - 1);
                  act' = 1 - t * y_l ! (cls * nC + cas);
                  grad = gradCoeff * t * (max act' 0 + (3 / 10) * (if act' > 0 then 1 else 0))
              in d' ! (cls * nC + cas) =
                   (if add then dE_dx_l ! (cls * nC + cas) + grad else grad))"
proof -
  let ?k = "\<lambda>c d. kL2SVMGrad add GRAD_X GRAD_Y c y_l labels d (int nC) (int nO) gradCoeff"
  let ?w = "\<lambda>cls cas (old::real). (if add then old else 0) +
      (let t = (if float2int (labels ! cas) = int cls then 1 else - 1);
           act = 1 - t * y_l ! (cls * nC + cas)
       in gradCoeff * t * (fmaxf act 0 + (3 / 10) * b2f (act > 0)))"
  have body: "?k c s = Some (if thr_y GRAD_Y c < nO \<and> thr_x GRAD_X c < nC
                    then s[thr_y GRAD_Y c * nC + thr_x GRAD_X c :=
                           ?w (thr_y GRAD_Y c) (thr_x GRAD_X c)
                              (s ! (thr_y GRAD_Y c * nC + thr_x GRAD_X c))]
                    else s)" if "length s = nO * nC" for c s
    using kL2SVMGrad_body [of nC labels nO y_l s add GRAD_X GRAD_Y c gradCoeff] assms that
    by simp
  from launch_cells [of "nO * nC" ?k GRAD_Y nO GRAD_X nC ?w dE_dx_l gx gy, OF body] assms
  obtain d' where d': "launch ?k (gx, gy) (GRAD_X, GRAD_Y) dE_dx_l = Some d'"
    "length d' = nO * nC"
    "\<forall>cls<nO. \<forall>cas<nC. d' ! (cls * nC + cas) = ?w cls cas (dE_dx_l ! (cls * nC + cas))"
    by auto
  have fm: "fmaxf a 0 = max a 0" for a by (simp add: fmaxf_def max_def)
  show ?thesis
    by (rule exI [of _ d']) (simp add: d' fm b2f_def Let_def)
qed

theorem kL2SVMGrad_hinge_gradient_witness:
  "\<exists>d'. launch (\<lambda>c d. kL2SVMGrad True 1 2 c [2, 1 / 2] [0] d (int 1) (int 2) 1)
            (1, 1) (1, 2) [5, 7] = Some d' \<and> d' ! 0 = 5 \<and> d' ! 1 = 26 / 5"
proof -
  from kL2SVMGrad_hinge_gradient [of "[0]" 1 "[2, 1 / 2]" 2 "[5, 7]" 1 1 1 2 True 1]
  obtain d' where d': "launch (\<lambda>c d. kL2SVMGrad True 1 2 c [2, 1 / 2] [0] d (int 1) (int 2) 1)
            (1, 1) (1, 2) [5, 7] = Some d'"
    and cells: "\<forall>cls<2. \<forall>cas<1.
              let t = (if float2int ([0] ! cas) = int cls then 1 else - 1);
                  act' = 1 - t * [2, 1 / 2] ! (cls * 1 + cas);
                  grad = 1 * t * (max act' 0 + (3 / 10) * (if act' > 0 then 1 else 0))
              in d' ! (cls * 1 + cas) =
                   (if True then [5, 7] ! (cls * 1 + cas) + grad else grad)"
    by auto
  from cells [rule_format, of 0 0] cells [rule_format, of 1 0]
  have "d' ! 0 = 5" "d' ! 1 = 26 / 5" by (simp_all add: float2int_def Let_def)
  with d' show ?thesis by blast
qed

text \<open>
  C6. Launched with \<open>add = false\<close> on a grid that covers the matrix, \<^verbatim>\<open>kLogregCostGrad\<close>
  returns without a fault. Every cell (class, case) whose probability is not zero then
  holds \<open>gradCoeff \<cdot> 1[class = label[case]] / y[class, case]\<close>, and such a cell holds
  zero when its class is not the label of its case. A cell whose probability is zero
  holds no real number: the kernel divides by the probability whatever the class (line
  156), so that off the label's row it computes \<open>0 / 0\<close>. The label is read as the
  truncation of the stored float, and no condition on it is needed.
\<close>

theorem kLogregCostGrad_indicator_over_nonzero_prob:
  assumes "length labels = nC" "length y_l = nO * nC" "length dE_dy_l = nO * nC"
    and "nC \<le> gx * GRAD_X" "nO \<le> gy * GRAD_Y"
  shows "\<exists>d'. launch (\<lambda>c d. kLogregCostGrad_ext False GRAD_X GRAD_Y c y_l labels d
                          (int nC) (int nO) gradCoeff)
                 (gx, gy) (GRAD_X, GRAD_Y) dE_dy_l = Some d' \<and>
           length d' = nO * nC \<and>
           (\<forall>cls<nO. \<forall>cas<nC.
              (y_l ! (cls * nC + cas) \<noteq> 0 \<longrightarrow>
                 d' ! (cls * nC + cas) =
                   Some (gradCoeff * (if float2int (labels ! cas) = int cls then 1 else 0)
                           / y_l ! (cls * nC + cas)) \<and>
                 (float2int (labels ! cas) \<noteq> int cls \<longrightarrow> d' ! (cls * nC + cas) = Some 0)) \<and>
              (y_l ! (cls * nC + cas) = 0 \<longrightarrow> d' ! (cls * nC + cas) = None))"
proof -
  from kLogregCostGrad_ext_launch [of labels nC y_l nO dE_dy_l gx GRAD_X gy GRAD_Y False gradCoeff]
    assms
  obtain d' where d': "launch (\<lambda>c d. kLogregCostGrad_ext False GRAD_X GRAD_Y c y_l labels d
                          (int nC) (int nO) gradCoeff)
                 (gx, gy) (GRAD_X, GRAD_Y) dE_dy_l = Some d'"
    "length d' = nO * nC"
    "\<forall>cls<nO. \<forall>cas<nC. d' ! (cls * nC + cas) =
        fdividef_ext (gradCoeff * b2f (float2int (labels ! cas) = int cls)) (y_l ! (cls * nC + cas))"
    by (auto simp: Let_def)
  show ?thesis
    by (rule exI [of _ d']) (simp add: d' fdividef_ext_def b2f_def)
qed

theorem kLogregCostGrad_indicator_over_nonzero_prob_witness:
  "\<exists>d'. launch (\<lambda>c d. kLogregCostGrad_ext False 2 2 c [1 / 4, 0, 3 / 4, 1] [1, 1] d (int 2) (int 2) 1)
            (1, 1) (2, 2) [None, Some 7, Some 7, None] = Some d' \<and>
         d' ! 0 = Some 0 \<and> d' ! 1 = None \<and> d' ! 2 = Some (4 / 3) \<and> d' ! 3 = Some 1"
proof -
  from kLogregCostGrad_indicator_over_nonzero_prob
         [of "[1, 1]" 2 "[1 / 4, 0, 3 / 4, 1]" 2 "[None, Some 7, Some 7, None]" 1 2 1 2 1]
  obtain d' where d': "launch (\<lambda>c d. kLogregCostGrad_ext False 2 2 c [1 / 4, 0, 3 / 4, 1] [1, 1] d
                                 (int 2) (int 2) 1)
            (1, 1) (2, 2) [None, Some 7, Some 7, None] = Some d'"
    and cells: "\<forall>cls<2. \<forall>cas<2.
              ([1 / 4, 0, 3 / 4, 1] ! (cls * 2 + cas) \<noteq> (0::real) \<longrightarrow>
                 d' ! (cls * 2 + cas) =
                   Some (1 * (if float2int ([1, 1] ! cas) = int cls then 1 else 0)
                           / [1 / 4, 0, 3 / 4, 1] ! (cls * 2 + cas)) \<and>
                 (float2int ([1, 1] ! cas) \<noteq> int cls \<longrightarrow> d' ! (cls * 2 + cas) = Some 0)) \<and>
              ([1 / 4, 0, 3 / 4, 1] ! (cls * 2 + cas) = (0::real) \<longrightarrow> d' ! (cls * 2 + cas) = None)"
    by auto
  from cells [rule_format, of 0 0] cells [rule_format, of 0 1]
    cells [rule_format, of 1 0] cells [rule_format, of 1 1]
  have "d' ! 0 = Some 0" "d' ! 1 = None" "d' ! 2 = Some (4 / 3)" "d' ! 3 = Some 1"
    by (simp_all add: float2int_def)
  with d' show ?thesis by blast
qed

text \<open>
  Without the condition on the probability the statement fails. With the probabilities
  \<open>[0, 1]\<close> of one case whose label is \<open>1\<close>, the cell of class \<open>0\<close>, which is not the
  label, is written with \<open>0 / 0\<close> and not with zero.
\<close>

theorem kLogregCostGrad_zero_prob_counterexample:
  "launch (\<lambda>c d. kLogregCostGrad_ext False 1 2 c [0, 1] [1] d (int 1) (int 2) 1)
          (1, 1) (1, 2) [Some 0, Some 0] = Some [None, Some 1]"
proof -
  from kLogregCostGrad_ext_launch [of "[1]" 1 "[0, 1]" 2 "[Some 0, Some 0]" 1 1 1 2 False 1]
  obtain d' where d': "launch (\<lambda>c d. kLogregCostGrad_ext False 1 2 c [0, 1] [1] d (int 1) (int 2) 1)
          (1, 1) (1, 2) [Some 0, Some 0] = Some d'" "length d' = 2"
    and cells: "\<forall>cls<2. \<forall>cas<1. d' ! (cls * 1 + cas) =
        fdividef_ext (1 * b2f (float2int ([1] ! cas) = int cls)) ([0, 1] ! (cls * 1 + cas))"
    by (auto simp: Let_def)
  from cells [rule_format, of 0 0] cells [rule_format, of 1 0]
  have "d' ! 0 = None" "d' ! 1 = Some 1"
    by (simp_all add: float2int_def fdividef_ext_def b2f_def)
  with list2_nth [OF d'(2)] have "d' = [None, Some 1]" by simp
  with d'(1) show ?thesis by simp
qed

section \<open>Composite elementwise kernels: forward value and input gradients\<close>

text \<open>
  C7. Launched on a grid with at least one block and one thread per block, over inputs
  whose rows fit the stride, \<^verbatim>\<open>kEltwiseFuncAct\<close> and \<^verbatim>\<open>kEltwiseFuncGrad\<close> return without a
  fault. At every element the forward kernel leaves
  \<open>out = p0\<cdot>in1 + p1\<cdot>in2 + p2\<cdot>relu(in2) + p3\<cdot>relu(in0) + p4\<cdot>relu(in1) + in0\<close>, and the
  three outputs of the gradient kernel are the incoming gradient times
  \<open>1 + p3\<cdot>1[in0 > 0]\<close>, \<open>p0 + p4\<cdot>1[in1 > 0]\<close> and \<open>p1 + p2\<cdot>1[in2 > 0]\<close>. Each factor is
  the partial derivative of the forward formula in its channel wherever that input is
  not zero; at zero, where the rectifier has no derivative, the factor follows the
  convention that its derivative is the indicator of strict positivity.
\<close>

theorem kEltwiseFuncGrad_scales_by_forward_partials:
  assumes "length actGrad = n" "length input0 = n" "length input1 = n" "length input2 = n"
      "length target0 = n" "length target1 = n" "length target2 = n" "length target = n"
    and "imgPixels * strd \<le> n" "numCases \<le> strd"
    and "0 < gx" "0 < gy" "0 < B_X" "0 < B_Y"
  shows "\<exists>out g0 g1 g2.
      launch (\<lambda>c t. kEltwiseFuncAct B_X B_Y c input0 input1 input2 t
                       p0 p1 p2 p3 p4 imgPixels numCases strd)
        (gx, gy) (B_X, B_Y) target = Some out \<and>
      launch (\<lambda>c (a, b, d). kEltwiseFuncGrad B_X B_Y c actGrad input0 input1 input2 a b d
                       p0 p1 p2 p3 p4 imgPixels numCases strd)
        (gx, gy) (B_X, B_Y) (target0, target1, target2) = Some (g0, g1, g2) \<and>
      (\<forall>y<imgPixels. \<forall>x<numCases.
         let i = y * strd + x;
             in0 = input0 ! i; in1 = input1 ! i; in2 = input2 ! i;
             F = (\<lambda>a b c. p0 * b + p1 * c + p2 * max c 0 + p3 * max a 0 + p4 * max b 0 + a);
             d0 = 1 + p3 * (if in0 > 0 then 1 else 0);
             d1 = p0 + p4 * (if in1 > 0 then 1 else 0);
             d2 = p1 + p2 * (if in2 > 0 then 1 else 0)
         in out ! i = F in0 in1 in2 \<and>
            g0 ! i = actGrad ! i * d0 \<and>
            g1 ! i = actGrad ! i * d1 \<and>
            g2 ! i = actGrad ! i * d2 \<and>
            (in0 \<noteq> 0 \<longrightarrow> ((\<lambda>u. F u in1 in2) has_real_derivative d0) (at in0)) \<and>
            (in1 \<noteq> 0 \<longrightarrow> ((\<lambda>u. F in0 u in2) has_real_derivative d1) (at in1)) \<and>
            (in2 \<noteq> 0 \<longrightarrow> ((\<lambda>u. F in0 in1 u) has_real_derivative d2) (at in2)))"
proof -
  from kEltwiseFuncAct_launch [OF assms(2,3,4,8,9,10,11,12,13,14), of p0 p1 p2 p3 p4]
  obtain out where out:
    "launch (\<lambda>c t. kEltwiseFuncAct B_X B_Y c input0 input1 input2 t
                       p0 p1 p2 p3 p4 imgPixels numCases strd)
        (gx, gy) (B_X, B_Y) target = Some out"
    "\<forall>y<imgPixels. \<forall>x<numCases.
        act_cell_ok input0 input1 input2 p0 p1 p2 p3 p4 (y * strd + x) out"
    by blast
  from kEltwiseFuncGrad_launch [OF assms(1-7) assms(9-14), of p0 p1 p2 p3 p4]
  obtain s where s:
    "launch (\<lambda>c (a, b, d). kEltwiseFuncGrad B_X B_Y c actGrad input0 input1 input2 a b d
                       p0 p1 p2 p3 p4 imgPixels numCases strd)
        (gx, gy) (B_X, B_Y) (target0, target1, target2) = Some s"
    "\<forall>y<imgPixels. \<forall>x<numCases.
        grad_cell_ok actGrad input0 input1 input2 p0 p1 p2 p3 p4 (y * strd + x) s"
    by blast
  obtain g0 g1 g2 where g: "s = (g0, g1, g2)" by (cases s) auto
  have cell: "let i = y * strd + x;
             in0 = input0 ! i; in1 = input1 ! i; in2 = input2 ! i;
             F = (\<lambda>a b c. p0 * b + p1 * c + p2 * max c 0 + p3 * max a 0 + p4 * max b 0 + a);
             d0 = 1 + p3 * (if in0 > 0 then 1 else 0);
             d1 = p0 + p4 * (if in1 > 0 then 1 else 0);
             d2 = p1 + p2 * (if in2 > 0 then 1 else 0)
         in out ! i = F in0 in1 in2 \<and>
            g0 ! i = actGrad ! i * d0 \<and>
            g1 ! i = actGrad ! i * d1 \<and>
            g2 ! i = actGrad ! i * d2 \<and>
            (in0 \<noteq> 0 \<longrightarrow> ((\<lambda>u. F u in1 in2) has_real_derivative d0) (at in0)) \<and>
            (in1 \<noteq> 0 \<longrightarrow> ((\<lambda>u. F in0 u in2) has_real_derivative d1) (at in1)) \<and>
            (in2 \<noteq> 0 \<longrightarrow> ((\<lambda>u. F in0 in1 u) has_real_derivative d2) (at in2))"
    if yx: "y < imgPixels" "x < numCases" for y x
  proof -
    let ?i = "y * strd + x"
    note d = EltwiseFuncAct_val_deriv [unfolded EltwiseFuncAct_val_formula b2f_def]
    have d0: "((\<lambda>u. p0 * input1 ! ?i + p1 * input2 ! ?i + p2 * max (input2 ! ?i) 0 +
                  p3 * max u 0 + p4 * max (input1 ! ?i) 0 + u) has_real_derivative
               1 + p3 * (if input0 ! ?i > 0 then 1 else 0)) (at (input0 ! ?i))"
      if "input0 ! ?i \<noteq> 0" using that by (rule d(1))
    have d1: "((\<lambda>u. p0 * u + p1 * input2 ! ?i + p2 * max (input2 ! ?i) 0 +
                  p3 * max (input0 ! ?i) 0 + p4 * max u 0 + input0 ! ?i) has_real_derivative
               p0 + p4 * (if input1 ! ?i > 0 then 1 else 0)) (at (input1 ! ?i))"
      if "input1 ! ?i \<noteq> 0" using that by (rule d(2))
    have d2: "((\<lambda>u. p0 * input1 ! ?i + p1 * u + p2 * max u 0 +
                  p3 * max (input0 ! ?i) 0 + p4 * max (input1 ! ?i) 0 + input0 ! ?i) has_real_derivative
               p1 + p2 * (if input2 ! ?i > 0 then 1 else 0)) (at (input2 ! ?i))"
      if "input2 ! ?i \<noteq> 0" using that by (rule d(3))
    have a: "out ! ?i = p0 * input1 ! ?i + p1 * input2 ! ?i + p2 * max (input2 ! ?i) 0 +
        p3 * max (input0 ! ?i) 0 + p4 * max (input1 ! ?i) 0 + input0 ! ?i"
      using out(2) yx by (simp add: act_cell_ok_def EltwiseFuncAct_val_formula)
    have b: "g0 ! ?i = actGrad ! ?i * (1 + p3 * (if input0 ! ?i > 0 then 1 else 0))"
      "g1 ! ?i = actGrad ! ?i * (p0 + p4 * (if input1 ! ?i > 0 then 1 else 0))"
      "g2 ! ?i = actGrad ! ?i * (p1 + p2 * (if input2 ! ?i > 0 then 1 else 0))"
      using s(2) [rule_format, OF yx] unfolding g
      by (simp_all only: grad_cell_ok_def b2f_def fst_conv snd_conv mult.commute [of "actGrad ! ?i"])
    show ?thesis
      unfolding Let_def using a b d0 d1 d2
      by (intro conjI impI) assumption+
  qed
  show ?thesis
    apply (rule exI [of _ out], rule exI [of _ g0], rule exI [of _ g1], rule exI [of _ g2])
    using out(1) s(1) cell unfolding g by blast
qed

theorem kEltwiseFuncGrad_scales_by_forward_partials_witness:
  "\<exists>out g0 g1 g2.
      launch (\<lambda>c t. kEltwiseFuncAct 1 1 c [3] [- 1] [4] t 1 2 3 4 5 1 1 1)
        (1, 1) (1, 1) [0] = Some out \<and>
      launch (\<lambda>c (a, b, d). kEltwiseFuncGrad 1 1 c [2] [3] [- 1] [4] a b d 1 2 3 4 5 1 1 1)
        (1, 1) (1, 1) ([0], [0], [0]) = Some (g0, g1, g2) \<and>
      out ! 0 = 34 \<and> g0 ! 0 = 10 \<and> g1 ! 0 = 2 \<and> g2 ! 0 = 10"
proof -
  from kEltwiseFuncGrad_scales_by_forward_partials
    [of "[2]" 1 "[3]" "[- 1]" "[4]" "[0]" "[0]" "[0]" "[0]" 1 1 1 1 1 1 1 1 2 3 4 5]
  obtain out g0 g1 g2 where r:
    "launch (\<lambda>c t. kEltwiseFuncAct 1 1 c [3] [- 1] [4] t 1 2 3 4 5 1 1 1)
        (1, 1) (1, 1) [0] = Some out"
    "launch (\<lambda>c (a, b, d). kEltwiseFuncGrad 1 1 c [2] [3] [- 1] [4] a b d 1 2 3 4 5 1 1 1)
        (1, 1) (1, 1) ([0], [0], [0]) = Some (g0, g1, g2)"
    and cells: "\<forall>y<1. \<forall>x<1.
         let i = y * 1 + x;
             in0 = [3] ! i; in1 = [- 1] ! i; in2 = [4] ! i;
             F = (\<lambda>a b c. 1 * b + 2 * c + 3 * max c 0 + 4 * max a 0 + 5 * max b 0 + a);
             d0 = 1 + 4 * (if in0 > 0 then 1 else 0);
             d1 = 1 + 5 * (if in1 > 0 then 1 else 0);
             d2 = 2 + 3 * (if in2 > 0 then 1 else 0)
         in out ! i = F in0 in1 in2 \<and>
            g0 ! i = [2] ! i * d0 \<and>
            g1 ! i = [2] ! i * d1 \<and>
            g2 ! i = [2] ! i * d2 \<and>
            (in0 \<noteq> 0 \<longrightarrow> ((\<lambda>u. F u in1 in2) has_real_derivative d0) (at in0)) \<and>
            (in1 \<noteq> 0 \<longrightarrow> ((\<lambda>u. F in0 u in2) has_real_derivative d1) (at in1)) \<and>
            (in2 \<noteq> 0 \<longrightarrow> ((\<lambda>u. F in0 in1 u) has_real_derivative d2) (at in2))"
    by auto
  from cells [rule_format, of 0 0]
  have "out ! 0 = 34 \<and> g0 ! 0 = 10 \<and> g1 ! 0 = 2 \<and> g2 ! 0 = 10"
    unfolding Let_def by simp
  with r show ?thesis by blast
qed

section \<open>Host dispatch\<close>

text \<open>
  C8. \<^verbatim>\<open>computeL2SVMGrad\<close> launches its kernel and returns; unlike its siblings it never
  queries the device-execution status. With the block sizes 32 and 4, one case, two
  classes and a device that reports error 4 after the launch, it hands the accumulated
  target back to its caller as if the launch had succeeded, where \<^verbatim>\<open>computeLogregGrad\<close>
  and \<^verbatim>\<open>computeSoftmaxGrad\<close> terminate with their message. \<^verbatim>\<open>computeRLogGrad\<close> does
  terminate, under the name of \<^verbatim>\<open>computeLogregGrad\<close>.
\<close>

theorem computeL2SVMGrad_ignores_device_error:
  "computeL2SVMGrad 32 4
     \<lparr>numRows = 1, numCols = 1, isTrans = False, stride = 1, devData = [0]\<rparr>
     \<lparr>numRows = 1, numCols = 2, isTrans = True, stride = 1, devData = [2, 1 / 2]\<rparr>
     \<lparr>numRows = 1, numCols = 2, isTrans = True, stride = 1, devData = [5, 7]\<rparr>
     True 1 (cudaErrorCode 4) =
       Inr \<lparr>numRows = 1, numCols = 2, isTrans = True, stride = 1, devData = [5, 26 / 5]\<rparr> \<and>
   computeLogregGrad 32 4
     \<lparr>numRows = 1, numCols = 1, isTrans = False, stride = 1, devData = [0]\<rparr>
     \<lparr>numRows = 2, numCols = 1, isTrans = False, stride = 1, devData = [1 / 4, 3 / 4]\<rparr>
     \<lparr>numRows = 2, numCols = 1, isTrans = False, stride = 1, devData = [5, 7]\<rparr>
     True 1 (cudaErrorCode 4) =
       Inl (KernelExecutionFailed ''computeLogregGrad: Kernel execution failed'') \<and>
   computeSoftmaxGrad 32 4
     \<lparr>numRows = 1, numCols = 2, isTrans = True, stride = 1, devData = [1 / 4, 3 / 4]\<rparr>
     \<lparr>numRows = 1, numCols = 2, isTrans = True, stride = 1, devData = [7, 8]\<rparr>
     \<lparr>numRows = 1, numCols = 2, isTrans = True, stride = 1, devData = [5, 7]\<rparr>
     True (cudaErrorCode 4) =
       Inl (KernelExecutionFailed ''computeSoftmaxGrad: Kernel execution failed'') \<and>
   computeRLogGrad 32 4
     \<lparr>numRows = 1, numCols = 1, isTrans = False, stride = 1, devData = [0]\<rparr>
     \<lparr>numRows = 2, numCols = 1, isTrans = False, stride = 1, devData = [1 / 4, 3 / 4]\<rparr>
     \<lparr>numRows = 2, numCols = 1, isTrans = False, stride = 1, devData = [5, 7]\<rparr>
     \<lparr>numRows = 1, numCols = 1, isTrans = False, stride = 1, devData = [2]\<rparr>
     True 1 (cudaErrorCode 4) =
       Inl (KernelExecutionFailed ''computeLogregGrad: Kernel execution failed'')"
proof (intro conjI)
  have div: "DIVUP (Suc 0) 32 = Suc 0" "DIVUP 2 4 = Suc 0" by (simp_all add: DIVUP_def)
  from kL2SVMGrad_launch [of "[0]" 1 "[2, 1 / 2]" 2 "[5, 7]" 1 32 1 4 True 1]
  obtain t where t: "launch (\<lambda>c t. kL2SVMGrad True 32 4 c [2, 1 / 2] [0] t (int 1) (int 2) 1)
      (1, 1) (32, 4) [5, 7] = Some t" "length t = 2"
    and cells: "\<forall>cls<2. \<forall>cas<1. t ! (cls * 1 + cas) =
                (if True then [5, 7] ! (cls * 1 + cas) else 0) +
                (let s = (if float2int ([0] ! cas) = int cls then 1 else - 1);
                     act = 1 - s * [2, 1 / 2] ! (cls * 1 + cas)
                 in 1 * s * (fmaxf act 0 + (3 / 10) * b2f (act > 0)))"
    by auto
  from cells [rule_format, of 0 0] cells [rule_format, of 1 0]
  have "t ! 0 = 5" "t ! 1 = 26 / 5"
    by (simp_all add: float2int_def Let_def fmaxf_def b2f_def)
  then have "[t ! 0, t ! 1] = [5, 26 / 5]" by (simp only:)
  with list2_nth [OF t(2)] have "t = [5, 26 / 5]" by (simp only:)
  with t(1) show "computeL2SVMGrad 32 4
     \<lparr>numRows = 1, numCols = 1, isTrans = False, stride = 1, devData = [0]\<rparr>
     \<lparr>numRows = 1, numCols = 2, isTrans = True, stride = 1, devData = [2, 1 / 2]\<rparr>
     \<lparr>numRows = 1, numCols = 2, isTrans = True, stride = 1, devData = [5, 7]\<rparr>
     True 1 (cudaErrorCode 4) =
       Inr \<lparr>numRows = 1, numCols = 2, isTrans = True, stride = 1, devData = [5, 26 / 5]\<rparr>"
    by (simp add: computeL2SVMGrad_def getNumElements_def isContiguous_def getLeadingDim_def
        getFollowingDim_def div Let_def)
  from kLogregCostGrad_launch [of "[0]" 1 "[1 / 4, 3 / 4]" 2 "[5, 7]" 1 32 1 4 True 1]
  obtain t' where
    "launch (\<lambda>c t. kLogregCostGrad True 32 4 c [1 / 4, 3 / 4] [0] t (int 1) (int 2) 1)
      (1, 1) (32, 4) [5, 7] = Some t'"
    by auto
  then show "computeLogregGrad 32 4
     \<lparr>numRows = 1, numCols = 1, isTrans = False, stride = 1, devData = [0]\<rparr>
     \<lparr>numRows = 2, numCols = 1, isTrans = False, stride = 1, devData = [1 / 4, 3 / 4]\<rparr>
     \<lparr>numRows = 2, numCols = 1, isTrans = False, stride = 1, devData = [5, 7]\<rparr>
     True 1 (cudaErrorCode 4) =
       Inl (KernelExecutionFailed ''computeLogregGrad: Kernel execution failed'')"
    by (simp add: computeLogregGrad_def getNumElements_def isContiguous_def getLeadingDim_def
        getFollowingDim_def div Let_def cutilCheckMsg_def)
  from kSoftmaxGrad_launch [of "[7, 8]" 2 1 "[1 / 4, 3 / 4]" "[5, 7]" 1 32 1 4 True]
  obtain t'' where
    "launch (\<lambda>c t. kSoftmaxGrad True 32 4 c [7, 8] [1 / 4, 3 / 4] t (int 1) (int 2))
      (1, 1) (32, 4) [5, 7] = Some t''"
    by auto
  then show "computeSoftmaxGrad 32 4
     \<lparr>numRows = 1, numCols = 2, isTrans = True, stride = 1, devData = [1 / 4, 3 / 4]\<rparr>
     \<lparr>numRows = 1, numCols = 2, isTrans = True, stride = 1, devData = [7, 8]\<rparr>
     \<lparr>numRows = 1, numCols = 2, isTrans = True, stride = 1, devData = [5, 7]\<rparr>
     True (cudaErrorCode 4) =
       Inl (KernelExecutionFailed ''computeSoftmaxGrad: Kernel execution failed'')"
    by (simp add: computeSoftmaxGrad_def getNumElements_def isContiguous_def getLeadingDim_def
        getFollowingDim_def isSameDims_def div Let_def cutilCheckMsg_def)
  from kRLogCostGrad_launch [of "[0]" 1 "[2]" "[1 / 4, 3 / 4]" 2 "[5, 7]" 1 32 1 4 True 1]
  obtain t3 where
    "launch (\<lambda>c t. kRLogCostGrad True 32 4 c [1 / 4, 3 / 4] [0] t [2] (int 1) (int 2) 1)
      (1, 1) (32, 4) [5, 7] = Some t3"
    by auto
  then show "computeRLogGrad 32 4
     \<lparr>numRows = 1, numCols = 1, isTrans = False, stride = 1, devData = [0]\<rparr>
     \<lparr>numRows = 2, numCols = 1, isTrans = False, stride = 1, devData = [1 / 4, 3 / 4]\<rparr>
     \<lparr>numRows = 2, numCols = 1, isTrans = False, stride = 1, devData = [5, 7]\<rparr>
     \<lparr>numRows = 1, numCols = 1, isTrans = False, stride = 1, devData = [2]\<rparr>
     True 1 (cudaErrorCode 4) =
       Inl (KernelExecutionFailed ''computeLogregGrad: Kernel execution failed'')"
    by (simp add: computeRLogGrad_def getNumElements_def isContiguous_def getLeadingDim_def
        getFollowingDim_def div Let_def cutilCheckMsg_def)
qed

text \<open>
  C9. \<^verbatim>\<open>computeRLogCost\<close> resizes \<open>labelLogProbs_out\<close> and \<open>correctProbs_out\<close> but never
  \<open>probWeights_out\<close>, which \<^verbatim>\<open>kRLogCost\<close> writes once per case. Called with one case,
  one class and three empty output matrices, with the block size 128, the first thread
  writes \<open>probWeights[0]\<close> outside the empty buffer. \<^verbatim>\<open>computeLogregCost\<close>, which resizes
  every buffer its kernel fills, returns normally on the same inputs, and so does
  \<^verbatim>\<open>computeRLogCost\<close> once its caller has sized \<open>probWeights_out\<close> itself.
\<close>

theorem computeRLogCost_probWeights_not_resized:
  "computeRLogCost 128
     \<lparr>numRows = 1, numCols = 1, isTrans = False, stride = 1, devData = [0]\<rparr>
     \<lparr>numRows = 1, numCols = 1, isTrans = False, stride = 1, devData = [1]\<rparr>
     \<lparr>numRows = 0, numCols = 0, isTrans = False, stride = 0, devData = []\<rparr>
     \<lparr>numRows = 0, numCols = 0, isTrans = False, stride = 0, devData = []\<rparr>
     \<lparr>numRows = 0, numCols = 0, isTrans = False, stride = 0, devData = []\<rparr>
     2 cudaSuccess = Inl DeviceFault \<and>
   (\<exists>l p. computeLogregCost 128
     \<lparr>numRows = 1, numCols = 1, isTrans = False, stride = 1, devData = [0]\<rparr>
     \<lparr>numRows = 1, numCols = 1, isTrans = False, stride = 1, devData = [1]\<rparr>
     \<lparr>numRows = 0, numCols = 0, isTrans = False, stride = 0, devData = []\<rparr>
     \<lparr>numRows = 0, numCols = 0, isTrans = False, stride = 0, devData = []\<rparr>
     cudaSuccess =
       Inr (\<lparr>numRows = 1, numCols = 1, isTrans = False, stride = 1, devData = l\<rparr>,
            \<lparr>numRows = 1, numCols = 1, isTrans = False, stride = 1, devData = p\<rparr>)) \<and>
   (\<exists>l p w. computeRLogCost 128
     \<lparr>numRows = 1, numCols = 1, isTrans = False, stride = 1, devData = [0]\<rparr>
     \<lparr>numRows = 1, numCols = 1, isTrans = False, stride = 1, devData = [1]\<rparr>
     \<lparr>numRows = 0, numCols = 0, isTrans = False, stride = 0, devData = []\<rparr>
     \<lparr>numRows = 0, numCols = 0, isTrans = False, stride = 0, devData = []\<rparr>
     \<lparr>numRows = 1, numCols = 1, isTrans = False, stride = 1, devData = [0]\<rparr>
     2 cudaSuccess =
       Inr (\<lparr>numRows = 1, numCols = 1, isTrans = False, stride = 1, devData = l\<rparr>,
            \<lparr>numRows = 1, numCols = 1, isTrans = False, stride = 1, devData = p\<rparr>,
            \<lparr>numRows = 1, numCols = 1, isTrans = False, stride = 1, devData = w\<rparr>))"
proof (intro conjI)
  have div: "DIVUP (Suc 0) 128 = Suc 0" by (simp add: DIVUP_def)
  have fault: "launch (\<lambda>c (l, p, w). kRLogCost 128 c [1] [0] [1] l p w 2 (int 1) (int 1))
      (1, 1) (128, 1) ([0], [0], []) = None"
    by (rule launch_first_fault)
       (simp_all add: mk_thread_def kRLogCost_def rd_def wr_def float2int_def)
  show "computeRLogCost 128
     \<lparr>numRows = 1, numCols = 1, isTrans = False, stride = 1, devData = [0]\<rparr>
     \<lparr>numRows = 1, numCols = 1, isTrans = False, stride = 1, devData = [1]\<rparr>
     \<lparr>numRows = 0, numCols = 0, isTrans = False, stride = 0, devData = []\<rparr>
     \<lparr>numRows = 0, numCols = 0, isTrans = False, stride = 0, devData = []\<rparr>
     \<lparr>numRows = 0, numCols = 0, isTrans = False, stride = 0, devData = []\<rparr>
     2 cudaSuccess = Inl DeviceFault"
    using fault
    by (simp add: computeRLogCost_def getNumElements_def isContiguous_def getLeadingDim_def
        getFollowingDim_def max_axis0_def resize_def div Let_def)
  have v: "\<forall>c<1. valid_label [0] 1 c" by (simp add: valid_label_def float2int_def)
  from kLogregCost_launch [of "[0]" 1 "[1]" "[1]" 1 "[0]" "[0]" 1 128, OF _ _ _ _ _ v]
  obtain l p where
    "launch (\<lambda>c (l, p). kLogregCost 128 c [1] [0] [1] l p (int 1) (int 1))
        (1, 1) (128, 1) ([0], [0]) = Some (l, p)"
    by auto
  then show "\<exists>l p. computeLogregCost 128
     \<lparr>numRows = 1, numCols = 1, isTrans = False, stride = 1, devData = [0]\<rparr>
     \<lparr>numRows = 1, numCols = 1, isTrans = False, stride = 1, devData = [1]\<rparr>
     \<lparr>numRows = 0, numCols = 0, isTrans = False, stride = 0, devData = []\<rparr>
     \<lparr>numRows = 0, numCols = 0, isTrans = False, stride = 0, devData = []\<rparr>
     cudaSuccess =
       Inr (\<lparr>numRows = 1, numCols = 1, isTrans = False, stride = 1, devData = l\<rparr>,
            \<lparr>numRows = 1, numCols = 1, isTrans = False, stride = 1, devData = p\<rparr>)"
    by (simp add: computeLogregCost_def getNumElements_def isContiguous_def getLeadingDim_def
        getFollowingDim_def max_axis0_def resize_def div cutilCheckMsg_def Let_def)
  from kRLogCost_launch [of "[0]" 1 "[1]" "[1]" 1 "[0]" "[0]" "[0]" 1 128 2, OF _ _ _ _ _ _ v]
  obtain l' p' w' where
    "launch (\<lambda>c (l, p, w). kRLogCost 128 c [1] [0] [1] l p w 2 (int 1) (int 1))
        (1, 1) (128, 1) ([0], [0], [0]) = Some (l', p', w')"
    by auto
  then show "\<exists>l p w. computeRLogCost 128
     \<lparr>numRows = 1, numCols = 1, isTrans = False, stride = 1, devData = [0]\<rparr>
     \<lparr>numRows = 1, numCols = 1, isTrans = False, stride = 1, devData = [1]\<rparr>
     \<lparr>numRows = 0, numCols = 0, isTrans = False, stride = 0, devData = []\<rparr>
     \<lparr>numRows = 0, numCols = 0, isTrans = False, stride = 0, devData = []\<rparr>
     \<lparr>numRows = 1, numCols = 1, isTrans = False, stride = 1, devData = [0]\<rparr>
     2 cudaSuccess =
       Inr (\<lparr>numRows = 1, numCols = 1, isTrans = False, stride = 1, devData = l\<rparr>,
            \<lparr>numRows = 1, numCols = 1, isTrans = False, stride = 1, devData = p\<rparr>,
            \<lparr>numRows = 1, numCols = 1, isTrans = False, stride = 1, devData = w\<rparr>)"
    by (simp add: computeRLogCost_def getNumElements_def isContiguous_def getLeadingDim_def
        getFollowingDim_def max_axis0_def resize_def div cutilCheckMsg_def Let_def)
qed

section \<open>Memory safety of the kernel threads\<close>

text \<open>
  C10. Let the matrix buffers hold \<open>numOut \<cdot> numCases\<close> elements, the per-case vectors
  \<open>numCases\<close> elements, and every label be in range. Then every index
  \<open>class \<cdot> numCases + case\<close> with \<open>class < numOut\<close> and \<open>case < numCases\<close>, the
  label-driven index included, lies below \<open>numOut \<cdot> numCases\<close>, and no thread of a cost
  or gradient kernel, whatever its block and thread indices, leaves its buffers: each
  kernel body returns a result, never the out-of-bounds value \<open>None\<close>.
\<close>

theorem kernel_threads_stay_in_bounds:
  assumes "length labels = nC" "length maxProbs = nC" "length weights = nC"
      "length probs = nO * nC" "length grad = nO * nC" "length target = nO * nC"
      "length out1 = nC" "length out2 = nC" "length out3 = nC"
    and "\<forall>cas<nC. valid_label labels nO cas"
  shows
    "(\<forall>cas<nC. label_of labels cas * nC + cas < nO * nC) \<and>
     (\<forall>cls<nO. \<forall>cas<nC. cls * nC + cas < nO * nC) \<and>
     (\<exists>r. kLogregCost ERR_X c probs labels maxProbs out1 out2 (int nC) (int nO) = Some r) \<and>
     (\<exists>r. kL2SVMCost ERR_X c probs labels maxProbs out1 out2 (int nC) (int nO) = Some r) \<and>
     (\<exists>r. kRLogCost ERR_X c probs labels maxProbs out1 out2 out3 p_pow (int nC) (int nO) = Some r) \<and>
     (\<exists>r. kLogregCostGrad add GRAD_X GRAD_Y c probs labels target (int nC) (int nO) gradCoeff
             = Some r) \<and>
     (\<exists>r. kRLogCostGrad add GRAD_X GRAD_Y c probs labels target weights (int nC) (int nO) gradCoeff
             = Some r) \<and>
     (\<exists>r. kSoftmaxGrad add GRAD_X GRAD_Y c grad probs target (int nC) (int nO) = Some r) \<and>
     (\<exists>r. kL2SVM_G GRAD_X GRAD_Y c grad probs labels weights target (int nC) (int nO)
             C1 C2 eps_w eps_b = Some r) \<and>
     (\<exists>r. kL2SVM_U GRAD_X GRAD_Y c probs labels target (int nC) (int nO) C1eps C2eps = Some r) \<and>
     (\<exists>r. kL2SVMGrad add GRAD_X GRAD_Y c probs labels target (int nC) (int nO) gradCoeff
             = Some r) \<and>
     (\<exists>r. kLogregSoftmaxGrad add GRAD_X GRAD_Y c probs labels target (int nC) (int nO) gradCoeff
             = Some r) \<and>
     (\<exists>r. kRLogSoftmaxGrad add GRAD_X GRAD_Y c probs labels target weights (int nC) (int nO)
             gradCoeff = Some r)"
proof (intro conjI)
  have v: "thr_x ERR_X c < nC \<longrightarrow> valid_label labels nO (thr_x ERR_X c)"
    using assms(10) by simp
  show "\<forall>cas<nC. label_of labels cas * nC + cas < nO * nC"
    using assms(10) by (auto intro!: cell_bound dest: valid_label_nat(2))
  show "\<forall>cls<nO. \<forall>cas<nC. cls * nC + cas < nO * nC"
    by (auto intro!: cell_bound)
  show "\<exists>r. kLogregCost ERR_X c probs labels maxProbs out1 out2 (int nC) (int nO) = Some r"
    using kLogregCost_body [OF v, of maxProbs probs out1 out2] assms by simp
  show "\<exists>r. kL2SVMCost ERR_X c probs labels maxProbs out1 out2 (int nC) (int nO) = Some r"
    using kL2SVMCost_body [OF v, of maxProbs probs out1 out2] assms by simp
  show "\<exists>r. kRLogCost ERR_X c probs labels maxProbs out1 out2 out3 p_pow (int nC) (int nO) = Some r"
    using kRLogCost_body [OF v, of maxProbs probs out1 out2 out3] assms by simp
  show "\<exists>r. kLogregCostGrad add GRAD_X GRAD_Y c probs labels target (int nC) (int nO) gradCoeff
             = Some r"
    using kLogregCostGrad_body [of nC labels nO probs target] assms by simp
  show "\<exists>r. kRLogCostGrad add GRAD_X GRAD_Y c probs labels target weights (int nC) (int nO)
             gradCoeff = Some r"
    using kRLogCostGrad_body [of nC labels weights nO probs target] assms by simp
  show "\<exists>r. kSoftmaxGrad add GRAD_X GRAD_Y c grad probs target (int nC) (int nO) = Some r"
    using kSoftmaxGrad_body [of nO nC grad probs target] assms by simp
  show "\<exists>r. kL2SVM_G GRAD_X GRAD_Y c grad probs labels weights target (int nC) (int nO)
             C1 C2 eps_w eps_b = Some r"
    using kL2SVM_G_body [of nC labels weights nO grad probs target] assms by simp
  show "\<exists>r. kL2SVM_U GRAD_X GRAD_Y c probs labels target (int nC) (int nO) C1eps C2eps = Some r"
    using kL2SVM_U_body [of nC labels nO probs target] assms by simp
  show "\<exists>r. kL2SVMGrad add GRAD_X GRAD_Y c probs labels target (int nC) (int nO) gradCoeff
             = Some r"
    using kL2SVMGrad_body [of nC labels nO probs target] assms by simp
  show "\<exists>r. kLogregSoftmaxGrad add GRAD_X GRAD_Y c probs labels target (int nC) (int nO)
             gradCoeff = Some r"
    using kLogregSoftmaxGrad_body [of nC labels nO probs target] assms by simp
  show "\<exists>r. kRLogSoftmaxGrad add GRAD_X GRAD_Y c probs labels target weights (int nC) (int nO)
             gradCoeff = Some r"
    using kRLogSoftmaxGrad_body [of nC labels weights nO probs target] assms by simp
qed

theorem kernel_threads_stay_in_bounds_witness:
  "(\<exists>r. kLogregCost 1 \<lparr>gridDim_x = 1, gridDim_y = 1, blockIdx_x = 0, blockIdx_y = 0,
            threadIdx_x = 0, threadIdx_y = 1\<rparr>
          [1 / 4, 3 / 4] [1] [3 / 4] [0] [0] (int 1) (int 2) = Some r) \<and>
   (\<exists>r. kL2SVMCost 1 \<lparr>gridDim_x = 1, gridDim_y = 1, blockIdx_x = 0, blockIdx_y = 0,
            threadIdx_x = 0, threadIdx_y = 1\<rparr>
          [1 / 4, 3 / 4] [1] [3 / 4] [0] [0] (int 1) (int 2) = Some r) \<and>
   (\<exists>r. kRLogCost 1 \<lparr>gridDim_x = 1, gridDim_y = 1, blockIdx_x = 0, blockIdx_y = 0,
            threadIdx_x = 0, threadIdx_y = 1\<rparr>
          [1 / 4, 3 / 4] [1] [3 / 4] [0] [0] [0] 2 (int 1) (int 2) = Some r) \<and>
   (\<exists>r. kLogregCostGrad True 1 2 \<lparr>gridDim_x = 1, gridDim_y = 1, blockIdx_x = 0, blockIdx_y = 0,
            threadIdx_x = 0, threadIdx_y = 1\<rparr>
          [1 / 4, 3 / 4] [1] [5, 6] (int 1) (int 2) 1 = Some r) \<and>
   (\<exists>r. kRLogCostGrad True 1 2 \<lparr>gridDim_x = 1, gridDim_y = 1, blockIdx_x = 0, blockIdx_y = 0,
            threadIdx_x = 0, threadIdx_y = 1\<rparr>
          [1 / 4, 3 / 4] [1] [5, 6] [2] (int 1) (int 2) 1 = Some r) \<and>
   (\<exists>r. kSoftmaxGrad True 1 2 \<lparr>gridDim_x = 1, gridDim_y = 1, blockIdx_x = 0, blockIdx_y = 0,
            threadIdx_x = 0, threadIdx_y = 1\<rparr>
          [7, 8] [1 / 4, 3 / 4] [5, 6] (int 1) (int 2) = Some r) \<and>
   (\<exists>r. kL2SVM_G 1 2 \<lparr>gridDim_x = 1, gridDim_y = 1, blockIdx_x = 0, blockIdx_y = 0,
            threadIdx_x = 0, threadIdx_y = 1\<rparr>
          [7, 8] [1 / 4, 3 / 4] [1] [2] [5, 6] (int 1) (int 2) 1 1 1 1 = Some r) \<and>
   (\<exists>r. kL2SVM_U 1 2 \<lparr>gridDim_x = 1, gridDim_y = 1, blockIdx_x = 0, blockIdx_y = 0,
            threadIdx_x = 0, threadIdx_y = 1\<rparr>
          [1 / 4, 3 / 4] [1] [5, 6] (int 1) (int 2) 1 1 = Some r) \<and>
   (\<exists>r. kL2SVMGrad True 1 2 \<lparr>gridDim_x = 1, gridDim_y = 1, blockIdx_x = 0, blockIdx_y = 0,
            threadIdx_x = 0, threadIdx_y = 1\<rparr>
          [1 / 4, 3 / 4] [1] [5, 6] (int 1) (int 2) 1 = Some r) \<and>
   (\<exists>r. kLogregSoftmaxGrad True 1 2 \<lparr>gridDim_x = 1, gridDim_y = 1, blockIdx_x = 0,
            blockIdx_y = 0, threadIdx_x = 0, threadIdx_y = 1\<rparr>
          [1 / 4, 3 / 4] [1] [5, 6] (int 1) (int 2) 1 = Some r) \<and>
   (\<exists>r. kRLogSoftmaxGrad True 1 2 \<lparr>gridDim_x = 1, gridDim_y = 1, blockIdx_x = 0,
            blockIdx_y = 0, threadIdx_x = 0, threadIdx_y = 1\<rparr>
          [1 / 4, 3 / 4] [1] [5, 6] [2] (int 1) (int 2) 1 = Some r)"
proof -
  have v: "\<forall>cas<1. valid_label [1] 2 cas"
    by (simp add: valid_label_def float2int_def)
  from kernel_threads_stay_in_bounds [where labels = "[1]" and nC = 1 and maxProbs = "[3 / 4]"
      and weights = "[2]" and probs = "[1 / 4, 3 / 4]" and nO = 2 and grad = "[7, 8]"
      and target = "[5, 6]" and ?out1.0 = "[0]" and ?out2.0 = "[0]" and ?out3.0 = "[0]"
      and ERR_X = 1 and GRAD_X = 1 and GRAD_Y = 2 and add = True and p_pow = 2
      and gradCoeff = 1 and ?C1.0 = 1 and ?C2.0 = 1 and eps_w = 1 and eps_b = 1
      and ?C1eps = 1 and ?C2eps = 1
      and c = "\<lparr>gridDim_x = 1, gridDim_y = 1, blockIdx_x = 0, blockIdx_y = 0,
            threadIdx_x = 0, threadIdx_y = 1\<rparr>", OF _ _ _ _ _ _ _ _ _ v]
  show ?thesis by simp
qed

end
